(* ===== verification/Prelude.thy ===== *)
theory Prelude
  imports
    Main
    "HOL-Library.AList"
    "HOL-Library.Char_ord"
    "HOL-Library.List_Lexorder"
    "HOL-Library.Sublist"
    "HOL-Library.Word"
begin

text \<open>
  Shared vocabulary of the development. Go's \<^verbatim>\<open>error\<close> values, the result type of
  fallible functions, the order on strings, maps kept as association lists where the code
  iterates over them, and the list lemmas that several components use.

  A Go \<^verbatim>\<open>string\<close> is a byte sequence and Isabelle's \<^typ>\<open>char\<close> is a byte, so the code's
  \<^verbatim>\<open>len(s)\<close> is \<^const>\<open>length\<close> and its \<^verbatim>\<open><\<close> is the lexicographic order of
  \<^verbatim>\<open>List_Lexorder\<close> over \<^verbatim>\<open>Char_ord\<close>.
\<close>

named_theorems go_defs \<open>definitions of the model that component proofs unfold together\<close>
named_theorems wf_intros \<open>well-formedness preservation rules\<close>

section \<open>Errors\<close>

text \<open>
  The sentinel values of \<^verbatim>\<open>cluster/model/errors.go\<close>, the errors of the standard library and of
  external services, and the three ways \<^verbatim>\<open>fmt.Errorf\<close> builds a new error: with no error
  argument, with \<^verbatim>\<open>%v\<close> (the text only is kept) and with \<^verbatim>\<open>%w\<close> (the error is wrapped and
  stays visible to \<^verbatim>\<open>errors.Is\<close>). The string of a constructor is the message template.
\<close>

datatype go_error =
    ErrClusterNotFound
  | ErrClusterExists
  | ErrNoNodesAvailable
  | NumError string
  | ContextError
  | ExternalError string
  | Panic string
  | Errorf string
  | ErrorfV string go_error
  | ErrorfW string go_error

type_synonym 'a go_result = "go_error + 'a"
type_synonym go_err = "go_error option"

fun errors_Is :: "go_error \<Rightarrow> go_error \<Rightarrow> bool" where
  "errors_Is (ErrorfW m e) t = (ErrorfW m e = t \<or> errors_Is e t)"
| "errors_Is e t = (e = t)"

section \<open>Maps that the code iterates over\<close>

text \<open>
  A Go map that is only indexed is a function to \<^typ>\<open>'v option\<close>. One that is also ranged
  over is an association list with distinct keys; \<^verbatim>\<open>range\<close> visits its entries in an order the
  language leaves open, so an operation whose result depends on the order takes the order
  as an argument.
\<close>

type_synonym ('k, 'v) gomap = "('k \<times> 'v) list"

definition gomap_wf :: "('k, 'v) gomap \<Rightarrow> bool" where
  "gomap_wf m = distinct (map fst m)"

lemma gomap_wf_Nil [simp, wf_intros]: "gomap_wf []"
  by (simp add: gomap_wf_def)

lemma gomap_wf_update [simp, wf_intros]: "gomap_wf m \<Longrightarrow> gomap_wf (AList.update k v m)"
  by (simp add: gomap_wf_def distinct_update)

lemma gomap_wf_delete [simp, wf_intros]: "gomap_wf m \<Longrightarrow> gomap_wf (AList.delete k m)"
  by (simp add: gomap_wf_def distinct_delete)

lemma map_of_gomap_update [simp]: "map_of (AList.update k v m) = (map_of m)(k \<mapsto> v)"
  by (rule ext) (simp add: update_conv)

lemma map_of_gomap_delete [simp]: "map_of (AList.delete k m) = (map_of m)(k := None)"
  by (rule ext) (simp add: delete_conv)

lemma gomap_mem_iff: "gomap_wf m \<Longrightarrow> (k, v) \<in> set m \<longleftrightarrow> map_of m k = Some v"
  by (simp add: gomap_wf_def)

section \<open>List lemmas\<close>

lemma sum_list_filter_split:
  "sum_list (map f (filter P xs)) + sum_list (map f (filter (\<lambda>x. \<not> P x) xs))
   = (sum_list (map f xs) :: 'b :: comm_monoid_add)"
  by (induction xs) (auto simp: ac_simps)

lemma distinct_map_filter [intro]: "distinct (map f xs) \<Longrightarrow> distinct (map f (filter P xs))"
  by (induction xs) auto

lemma filter_neq_notin: "k \<notin> f ` set xs \<Longrightarrow> filter (\<lambda>x. f x \<noteq> k) xs = xs"
  by (auto simp: filter_id_conv)

lemma map_of_filter_key:
  "map_of (filter (\<lambda>(k, v). P k) m) x = (if P x then map_of m x else None)"
  by (induction m) auto

end
