(* ===== verification/Go_Strings.thy ===== *)
theory Go_Strings
  imports Prelude
begin

text \<open>
  The functions of Go's \<^verbatim>\<open>strings\<close> and \<^verbatim>\<open>strconv\<close> packages that the program calls, as
  executable functions on byte strings, with the round trips and bounds the parsers rely on.
\<close>

section \<open>Package strings\<close>

text \<open>\<^verbatim>\<open>strings.Split(s, sep)\<close> for a separator of one byte.\<close>

fun strings_Split :: "string \<Rightarrow> char \<Rightarrow> string list" where
  "strings_Split [] c = [[]]"
| "strings_Split (x # xs) c =
     (if x = c then [] # strings_Split xs c
      else (case strings_Split xs c of [] \<Rightarrow> [[x]] | y # ys \<Rightarrow> (x # y) # ys))"

text \<open>\<^verbatim>\<open>strings.Contains(s, sub)\<close>, \<^verbatim>\<open>strings.HasPrefix\<close> and \<^verbatim>\<open>strings.TrimPrefix\<close>.\<close>

definition strings_HasPrefix :: "string \<Rightarrow> string \<Rightarrow> bool" where
  "strings_HasPrefix s p = (take (length p) s = p)"

fun strings_Contains :: "string \<Rightarrow> string \<Rightarrow> bool" where
  "strings_Contains [] sub = (sub = [])"
| "strings_Contains (c # cs) sub = (strings_HasPrefix (c # cs) sub \<or> strings_Contains cs sub)"

definition strings_TrimPrefix :: "string \<Rightarrow> string \<Rightarrow> string" where
  "strings_TrimPrefix s p = (if strings_HasPrefix s p then drop (length p) s else s)"

text \<open>\<^verbatim>\<open>strings.TrimSpace\<close> on the ASCII white space bytes (tab, newline, vertical tab, form
  feed, carriage return, space).\<close>

definition is_space :: "char \<Rightarrow> bool" where
  "is_space c = (of_char c \<in> {9, 10, 11, 12, 13, 32 :: nat})"

definition strings_TrimSpace :: "string \<Rightarrow> string" where
  "strings_TrimSpace s = rev (dropWhile is_space (rev (dropWhile is_space s)))"

text \<open>
  \<^verbatim>\<open>strings.ReplaceAll(s, old, new)\<close> for a non-empty \<^verbatim>\<open>old\<close>: the occurrences are found from
  the left and do not overlap.
\<close>

function strings_ReplaceAll :: "string \<Rightarrow> string \<Rightarrow> string \<Rightarrow> string" where
  "strings_ReplaceAll s old new =
     (case s of [] \<Rightarrow> []
      | c # cs \<Rightarrow>
          if old \<noteq> [] \<and> strings_HasPrefix s old
          then new @ strings_ReplaceAll (drop (length old) s) old new
          else c # strings_ReplaceAll cs old new)"
  by pat_completeness auto
termination
  by (relation "measure (\<lambda>(s, old, new). length s)") auto

declare strings_ReplaceAll.simps [simp del]

text \<open>\<^verbatim>\<open>strings.LastIndex(s, ":")\<close> for a one-byte argument: the last index, or none.\<close>

fun strings_LastIndex :: "string \<Rightarrow> char \<Rightarrow> nat option" where
  "strings_LastIndex [] c = None"
| "strings_LastIndex (x # xs) c =
     (case strings_LastIndex xs c of
        Some i \<Rightarrow> Some (Suc i)
      | None \<Rightarrow> if x = c then Some 0 else None)"

section \<open>Package strconv\<close>

definition is_digit :: "char \<Rightarrow> bool" where
  "is_digit c = (48 \<le> (of_char c :: nat) \<and> (of_char c :: nat) \<le> 57)"

definition digit_val :: "char \<Rightarrow> nat" where
  "digit_val c = of_char c - 48"

definition digits_val :: "string \<Rightarrow> nat" where
  "digits_val s = foldl (\<lambda>n c. 10 * n + digit_val c) 0 s"

text \<open>An unsigned decimal numeral: one digit or more and nothing else.\<close>

definition parse_digits :: "string \<Rightarrow> nat option" where
  "parse_digits s = (if s \<noteq> [] \<and> list_all is_digit s then Some (digits_val s) else None)"

abbreviation max_int :: int where
  "max_int \<equiv> 2 ^ 63 - 1"

abbreviation min_int :: int where
  "min_int \<equiv> - (2 ^ 63)"

text \<open>
  \<^verbatim>\<open>strconv.Atoi\<close>: an optional sign and digits, the value in the range of a 64-bit
  \<^verbatim>\<open>int\<close>; anything else is a \<^verbatim>\<open>*NumError\<close>.
\<close>

definition strconv_Atoi :: "string \<Rightarrow> int go_result" where
  "strconv_Atoi s =
     (let neg = (s \<noteq> [] \<and> hd s = CHR ''-'');
          body = (if s \<noteq> [] \<and> hd s \<in> {CHR ''-'', CHR ''+''} then tl s else s)
      in case parse_digits body of
           None \<Rightarrow> Inl (NumError s)
         | Some n \<Rightarrow>
             let v = (if neg then - int n else int n)
             in if min_int \<le> v \<and> v \<le> max_int then Inr v else Inl (NumError s))"

text \<open>
  The number that \<^verbatim>\<open>Atoi\<close> returns beside its error, for callers that drop the error: zero for
  a syntax error and the nearest bound for a numeral out of range.
\<close>

definition atoi_value :: "string \<Rightarrow> int" where
  "atoi_value s =
     (let neg = (s \<noteq> [] \<and> hd s = CHR ''-'');
          body = (if s \<noteq> [] \<and> hd s \<in> {CHR ''-'', CHR ''+''} then tl s else s)
      in case parse_digits body of
           None \<Rightarrow> 0
         | Some n \<Rightarrow> max min_int (min max_int (if neg then - int n else int n)))"

text \<open>\<^verbatim>\<open>strconv.ParseUint(s, 10, bits)\<close>: digits only, the value below \<^verbatim>\<open>2^bits\<close>.\<close>

definition strconv_ParseUint :: "string \<Rightarrow> nat \<Rightarrow> nat go_result" where
  "strconv_ParseUint s bits =
     (case parse_digits s of
        None \<Rightarrow> Inl (NumError s)
      | Some n \<Rightarrow> if n < 2 ^ bits then Inr n else Inl (NumError s))"

text \<open>\<^verbatim>\<open>strconv.ParseBool\<close>: the accepted spellings of the two values.\<close>

definition strconv_ParseBool :: "string \<Rightarrow> bool go_result" where
  "strconv_ParseBool s =
     (if s \<in> set [''1'', ''t'', ''T'', ''TRUE'', ''true'', ''True''] then Inr True
      else if s \<in> set [''0'', ''f'', ''F'', ''FALSE'', ''false'', ''False''] then Inr False
      else Inl (NumError s))"

text \<open>\<^verbatim>\<open>strconv.Itoa\<close> and the \<^verbatim>\<open>%d\<close> verb.\<close>

fun itoa_nat :: "nat \<Rightarrow> string" where
  "itoa_nat n =
     (if n < 10 then [char_of (48 + n)] else itoa_nat (n div 10) @ [char_of (48 + n mod 10)])"

declare itoa_nat.simps [simp del]

definition strconv_Itoa :: "int \<Rightarrow> string" where
  "strconv_Itoa i = (if i < 0 then CHR ''-'' # itoa_nat (nat (- i)) else itoa_nat (nat i))"

section \<open>Facts about strings\<close>

lemma strings_Split_not_Nil [simp]: "strings_Split s c \<noteq> []"
  by (induction s) (auto split: list.splits)

lemma strings_Split_no_sep [simp]: "c \<notin> set s \<Longrightarrow> strings_Split s c = [s]"
  by (induction s) auto

lemma strings_Split_append:
  "c \<notin> set s \<Longrightarrow> strings_Split (s @ c # t) c = s # strings_Split t c"
  by (induction s) auto

lemma strings_Split_fields_no_sep: "f \<in> set (strings_Split s c) \<Longrightarrow> c \<notin> set f"
proof (induction s arbitrary: f)
  case Nil
  then show ?case by simp
next
  case (Cons x xs)
  show ?case
  proof (cases "x = c")
    case True
    with Cons show ?thesis by auto
  next
    case False
    obtain y ys where split: "strings_Split xs c = y # ys"
      by (metis list.exhaust strings_Split_not_Nil)
    with False Cons.prems have "f = x # y \<or> f \<in> set ys" by simp
    then show ?thesis using False Cons.IH split by auto
  qed
qed

fun strings_Join :: "string list \<Rightarrow> char \<Rightarrow> string" where
  "strings_Join [] c = []"
| "strings_Join [x] c = x"
| "strings_Join (x # y # ys) c = x @ c # strings_Join (y # ys) c"

lemma strings_Split_Join:
  "xs \<noteq> [] \<Longrightarrow> \<forall>x \<in> set xs. c \<notin> set x \<Longrightarrow> strings_Split (strings_Join xs c) c = xs"
  by (induction xs c rule: strings_Join.induct) (auto simp: strings_Split_append)

lemma strings_Split_length: "length (strings_Split s c) = Suc (count_list s c)"
  by (induction s) (auto split: list.splits)

lemma strings_HasPrefix_iff: "strings_HasPrefix s p \<longleftrightarrow> prefix p s"
  unfolding strings_HasPrefix_def by (metis append_eq_conv_conj append_take_drop_id prefix_def)

lemma strings_Contains_iff: "strings_Contains s sub \<longleftrightarrow> sublist sub s"
  by (induction s) (auto simp: strings_HasPrefix_iff sublist_Cons_right)

lemma strings_TrimPrefix_append [simp]: "strings_TrimPrefix (p @ s) p = s"
  by (simp add: strings_TrimPrefix_def strings_HasPrefix_def)

lemma strings_ReplaceAll_Nil [simp]: "strings_ReplaceAll [] old new = []"
  by (subst strings_ReplaceAll.simps) simp

lemma strings_LastIndex_last:
  "c \<notin> set t \<Longrightarrow> strings_LastIndex (s @ c # t) c = Some (length s)"
proof (induction s)
  case Nil
  then have "strings_LastIndex t c = None"
    by (induction t) auto
  then show ?case by simp
next
  case (Cons x xs)
  then show ?case by simp
qed

section \<open>Facts about numerals\<close>

lemma of_char_digit [simp]: "d < 10 \<Longrightarrow> (of_char (char_of (48 + d) :: char) :: nat) = 48 + d"
  by (simp add: take_bit_eq_mod)

lemma is_digit_char [simp]: "(d::nat) < 10 \<Longrightarrow> is_digit (char_of (48 + d))"
  by (simp add: is_digit_def)

lemma digit_val_char [simp]: "(d::nat) < 10 \<Longrightarrow> digit_val (char_of (48 + d)) = d"
  by (simp add: digit_val_def)

lemma digits_val_snoc: "digits_val (s @ [c]) = 10 * digits_val s + digit_val c"
  by (simp add: digits_val_def)

lemma itoa_nat_ne [simp]: "itoa_nat n \<noteq> []"
  by (subst itoa_nat.simps) simp

lemma itoa_nat_digits: "list_all is_digit (itoa_nat n)"
proof (induction n rule: itoa_nat.induct)
  case (1 n)
  then show ?case
    by (subst itoa_nat.simps) (auto simp: list_all_append)
qed

lemma digits_val_itoa_nat: "digits_val (itoa_nat n) = n"
proof (induction n rule: itoa_nat.induct)
  case (1 n)
  show ?case
  proof (cases "n < 10")
    case True
    then show ?thesis by (subst itoa_nat.simps) (simp add: digits_val_def)
  next
    case False
    with 1 have "digits_val (itoa_nat (n div 10)) = n div 10" by simp
    with False show ?thesis by (subst itoa_nat.simps) (simp add: digits_val_snoc)
  qed
qed

lemma parse_digits_itoa_nat [simp]: "parse_digits (itoa_nat n) = Some n"
  by (simp add: parse_digits_def itoa_nat_digits digits_val_itoa_nat)

lemma digit_neq_sign: "is_digit c \<Longrightarrow> c \<noteq> CHR ''-'' \<and> c \<noteq> CHR ''+'' \<and> c \<noteq> CHR '' '' \<and> c \<noteq> CHR '':''
  \<and> c \<noteq> CHR ''@''"
  by (auto simp: is_digit_def)

lemma itoa_nat_hd: "is_digit (hd (itoa_nat n))"
  using itoa_nat_digits [of n] by (cases "itoa_nat n") auto

lemma itoa_nat_chars: "c \<in> set (itoa_nat n) \<Longrightarrow> is_digit c"
  using itoa_nat_digits [of n] by (auto simp: list_all_iff)

lemma itoa_nat_no_sep [simp]: "\<not> is_digit c \<Longrightarrow> c \<notin> set (itoa_nat n)"
  using itoa_nat_chars by blast

lemma separators_no_digit [simp]:
  "\<not> is_digit (CHR ''-'')" "\<not> is_digit (CHR '' '')" "\<not> is_digit (CHR '':'')"
  "\<not> is_digit (CHR ''@'')" "\<not> is_digit (CHR 0x0A)"
  by (simp_all add: is_digit_def)

lemma strconv_Atoi_itoa_nat: "int n \<le> max_int \<Longrightarrow> strconv_Atoi (itoa_nat n) = Inr (int n)"
  using digit_neq_sign [OF itoa_nat_hd [of n]]
  by (simp add: strconv_Atoi_def Let_def)

text \<open>\<^verbatim>\<open>Atoi\<close> reads back what \<^verbatim>\<open>Itoa\<close> printed, for every \<^verbatim>\<open>int\<close>.\<close>

lemma strconv_Atoi_Itoa:
  assumes "min_int \<le> i" "i \<le> max_int"
  shows "strconv_Atoi (strconv_Itoa i) = Inr i"
proof (cases "i < 0")
  case True
  then show ?thesis using assms
    by (simp add: strconv_Itoa_def strconv_Atoi_def Let_def)
next
  case False
  then show ?thesis using assms strconv_Atoi_itoa_nat [of "nat i"]
    by (simp add: strconv_Itoa_def)
qed

lemma atoi_value_Atoi: "strconv_Atoi s = Inr v \<Longrightarrow> atoi_value s = v"
  by (auto simp: strconv_Atoi_def atoi_value_def Let_def split: option.splits if_splits)

lemma strconv_Atoi_range: "strconv_Atoi s = Inr v \<Longrightarrow> min_int \<le> v \<and> v \<le> max_int"
  by (auto simp: strconv_Atoi_def Let_def split: option.splits if_splits)

lemma strconv_Itoa_nonneg_chars: "0 \<le> i \<Longrightarrow> c \<in> set (strconv_Itoa i) \<Longrightarrow> is_digit c"
  by (auto simp: strconv_Itoa_def intro: itoa_nat_chars)

lemma strconv_Itoa_inj: "strconv_Itoa i = strconv_Itoa j \<Longrightarrow> i = j"
proof -
  assume eq: "strconv_Itoa i = strconv_Itoa j"
  have nat_inj: "itoa_nat m = itoa_nat n \<Longrightarrow> m = n" for m n
    by (metis digits_val_itoa_nat)
  have no_sign: "itoa_nat m \<noteq> CHR ''-'' # s" for m s
    using digit_neq_sign [OF itoa_nat_hd [of m]] by (cases "itoa_nat m") auto
  show "i = j"
    using eq nat_inj no_sign [symmetric] no_sign
    by (auto simp: strconv_Itoa_def split: if_splits dest!: nat_inj)
qed

end
