(* ===== verification/Node_Data.thy ===== *)
theory Node_Data
  imports Go_Strings
begin

text \<open>
  The packages \<^verbatim>\<open>cluster/data\<close> (\<^verbatim>\<open>types.go\<close>, \<^verbatim>\<open>parse.go\<close>, \<^verbatim>\<open>records.go\<close>) and
  \<^verbatim>\<open>cluster/utils\<close>: the node records shared by every component of the cluster side, their
  addresses, and the parser of the text that Redis answers to \<^verbatim>\<open>CLUSTER NODES\<close>.
\<close>

section \<open>Records\<close>

record NodeAddress =
  na_ClusterAddr :: string
  na_ClientAddr :: string

record RuntimeNode =
  rn_HostIP :: string
  rn_HostPort :: "16 word"
  rn_ConIp :: string
  rn_ConPort :: "16 word"
  rn_Hostname :: string
  rn_Name :: string
  rn_ID :: string
  rn_ClusterName :: string
  rn_Address :: NodeAddress

record SlotRange =
  sr_Start :: int
  sr_End :: int

record ClusterNode =
  cn_ID :: string
  cn_IP :: string
  cn_Port :: "16 word"
  cn_NodeType :: string
  cn_MasterID :: string
  cn_LinkState :: string
  cn_Slots :: "SlotRange list"
  cn_SlotsNum :: int
  cn_ClusterName :: string

record ClusterRecord =
  cr_Name :: string
  cr_Backend :: string
  cr_Shards :: int
  cr_NodesPerShard :: int
  cr_RedisPort :: int
  cr_Image :: string
  cr_Status :: string
  cr_CreatedAt :: string
  cr_UpdatedAt :: string

record ContainerRecord =
  ct_ClusterName :: string
  ct_Name :: string
  ct_ContainerID :: string
  ct_HostIP :: string
  ct_HostPort :: int
  ct_ContainerIP :: string
  ct_ContainerPort :: int
  ct_NodeIndex :: int
  ct_Role :: string
  ct_Status :: string
  ct_Hostname :: string

definition Master :: string where
  "Master = ''master''"

definition Slave :: string where
  "Slave = ''slave''"

section \<open>Addresses\<close>

text \<open>\<^verbatim>\<open>fmt.Sprintf("%s:%d", host, port)\<close>.\<close>

definition host_port :: "string \<Rightarrow> 16 word \<Rightarrow> string" where
  "host_port host port = host @ '':'' @ itoa_nat (unat port)"

definition ClientConnAddr :: "RuntimeNode \<Rightarrow> string" where
  "ClientConnAddr n =
     (if na_ClientAddr (rn_Address n) \<noteq> [] then na_ClientAddr (rn_Address n)
      else host_port (rn_HostIP n) (rn_HostPort n))"

definition ClusterMeetAddr :: "RuntimeNode \<Rightarrow> string" where
  "ClusterMeetAddr n =
     (if rn_Hostname n \<noteq> [] then host_port (rn_Hostname n) (rn_ConPort n)
      else host_port (rn_ConIp n) (rn_ConPort n))"

text \<open>
  \<^verbatim>\<open>CreateRedisClient\<close> only builds the client value, which is determined by the address; the
  connection is opened by the first command. Its error result is always nil.
\<close>

definition CreateRedisClient :: "string \<Rightarrow> string go_result" where
  "CreateRedisClient addr = Inr addr"

section \<open>Package utils\<close>

definition StringToUint16 :: "string \<Rightarrow> 16 word go_result" where
  "StringToUint16 str =
     (case strconv_Atoi str of
        Inl e \<Rightarrow> Inl e
      | Inr num \<Rightarrow>
          if num < 0 \<or> num > 65535 then Inl (Errorf ''number out of uint16 range'')
          else Inr (word_of_int num))"

definition ParseIPPort :: "string \<Rightarrow> string \<times> string" where
  "ParseIPPort ipPort =
     (let parts = strings_Split ipPort (CHR '':'')
      in if length parts = 2 then (parts ! 0, parts ! 1) else ([], []))"

section \<open>Slot ranges\<close>

definition parseRange :: "string \<Rightarrow> (int \<times> int) go_result" where
  "parseRange slotStr =
     (let parts = strings_Split slotStr (CHR ''-'')
      in if length parts \<noteq> 2 then Inl (Errorf ''invalid range format'')
         else case strconv_Atoi (parts ! 0) of
                Inl e \<Rightarrow> Inl e
              | Inr start \<Rightarrow>
                  (case strconv_Atoi (parts ! 1) of
                     Inl e \<Rightarrow> Inl e
                   | Inr end \<Rightarrow> Inr (start, end)))"

definition parseSingleSlot :: "string \<Rightarrow> int go_result" where
  "parseSingleSlot slotStr =
     (case strconv_Atoi slotStr of Inl e \<Rightarrow> Inl e | Inr s \<Rightarrow> Inr s)"

text \<open>One iteration of the loop of \<^verbatim>\<open>ParseSlots\<close>.\<close>

definition parse_slot_field :: "string \<Rightarrow> SlotRange go_result" where
  "parse_slot_field slotStr =
     (if strings_Contains slotStr ''-'' then
        (case parseRange slotStr of
           Inl e \<Rightarrow> Inl e
         | Inr (start, end) \<Rightarrow> Inr \<lparr>sr_Start = start, sr_End = end\<rparr>)
      else
        (case parseSingleSlot slotStr of
           Inl e \<Rightarrow> Inl e
         | Inr singleSlot \<Rightarrow> Inr \<lparr>sr_Start = singleSlot, sr_End = singleSlot\<rparr>))"

fun ParseSlots :: "string list \<Rightarrow> SlotRange list go_result" where
  "ParseSlots [] = Inr []"
| "ParseSlots (slotStr # rest) =
     (case parse_slot_field slotStr of
        Inl e \<Rightarrow> Inl e
      | Inr r \<Rightarrow> (case ParseSlots rest of Inl e \<Rightarrow> Inl e | Inr rs \<Rightarrow> Inr (r # rs)))"

section \<open>CLUSTER NODES lines\<close>

definition parseNodeType :: "string \<Rightarrow> string" where
  "parseNodeType field = (if strings_Contains field ''master'' then Master else Slave)"

text \<open>
  The three things one line of the input can do in the loop of \<^verbatim>\<open>ParseClusterNodeLines\<close>:
  nothing (\<^verbatim>\<open>continue\<close>), one more failed id, one more node.
\<close>

datatype line_outcome = LineSkip | LineFailed string | LineNode ClusterNode

definition parse_node_line :: "(string \<Rightarrow> bool) option \<Rightarrow> string \<Rightarrow> line_outcome" where
  "parse_node_line clusterFilter line =
     (if length line = 0 then LineSkip else
      let fields = strings_Split line (CHR '' '') in
      if length fields < 8 then LineSkip else
      if strings_Contains (fields ! 2) ''fail'' then LineFailed (fields ! 0) else
      let ipPort = hd (strings_Split (fields ! 1) (CHR ''@''));
          (ip, port) = ParseIPPort ipPort in
      if ip = [] then LineSkip else
      if (case clusterFilter of None \<Rightarrow> False | Some f \<Rightarrow> \<not> f ip) then LineSkip else
      case StringToUint16 port of
        Inl err \<Rightarrow> LineSkip
      | Inr portUint16 \<Rightarrow>
          let node = \<lparr>cn_ID = fields ! 0, cn_IP = ip, cn_Port = portUint16,
                      cn_NodeType = parseNodeType (fields ! 2), cn_MasterID = fields ! 3,
                      cn_LinkState = fields ! 7, cn_Slots = [], cn_SlotsNum = 0,
                      cn_ClusterName = []\<rparr> in
          if cn_NodeType node = Master \<and> length fields > 8 then
            (case ParseSlots (drop 8 fields) of
               Inl err \<Rightarrow> LineSkip
             | Inr slots \<Rightarrow> LineNode (node\<lparr>cn_Slots := slots\<rparr>))
          else LineNode node)"

fun ParseClusterNodeLines ::
  "string list \<Rightarrow> (string \<Rightarrow> bool) option \<Rightarrow> ClusterNode list \<times> string list" where
  "ParseClusterNodeLines [] clusterFilter = ([], [])"
| "ParseClusterNodeLines (line # lines) clusterFilter =
     (let (nodes, failedIDs) = ParseClusterNodeLines lines clusterFilter
      in case parse_node_line clusterFilter line of
           LineSkip \<Rightarrow> (nodes, failedIDs)
         | LineFailed i \<Rightarrow> (nodes, i # failedIDs)
         | LineNode n \<Rightarrow> (n # nodes, failedIDs))"

section \<open>The format Redis prints\<close>

text \<open>
  The documented form of a \<^verbatim>\<open>CLUSTER NODES\<close> line: id, \<^verbatim>\<open>ip:port@cport\<close>, flags, master id,
  ping, pong, epoch, link state and the slot ranges. It is the reference the parser is
  checked against. The fields the manager drops are in \<^verbatim>\<open>line_extra\<close>.
\<close>

record line_extra =
  le_cport :: string
  le_flags :: string
  le_ping :: string
  le_pong :: string
  le_epoch :: string

definition print_slot_range :: "SlotRange \<Rightarrow> string" where
  "print_slot_range r =
     (if sr_Start r = sr_End r then strconv_Itoa (sr_Start r)
      else strconv_Itoa (sr_Start r) @ ''-'' @ strconv_Itoa (sr_End r))"

definition print_node_line :: "line_extra \<Rightarrow> ClusterNode \<Rightarrow> string" where
  "print_node_line x n =
     strings_Join
       ([cn_ID n, host_port (cn_IP n) (cn_Port n) @ ''@'' @ le_cport x, le_flags x, cn_MasterID n,
         le_ping x, le_pong x, le_epoch x, cn_LinkState n]
        @ map print_slot_range (cn_Slots n)) (CHR '' '')"

definition slot_ok :: "SlotRange \<Rightarrow> bool" where
  "slot_ok r = (0 \<le> sr_Start r \<and> sr_Start r \<le> sr_End r \<and> sr_End r < 16384)"

text \<open>What Redis guarantees of a healthy node's line, as a check on the node and the rest.\<close>

definition printable_node :: "line_extra \<Rightarrow> ClusterNode \<Rightarrow> bool" where
  "printable_node x n =
     ((\<forall>f \<in> {cn_ID n, le_cport x, le_flags x, cn_MasterID n, le_ping x, le_pong x, le_epoch x,
             cn_LinkState n}. CHR '' '' \<notin> set f)
      \<and> CHR '' '' \<notin> set (cn_IP n) \<and> CHR '':'' \<notin> set (cn_IP n) \<and> CHR ''@'' \<notin> set (cn_IP n)
      \<and> cn_IP n \<noteq> []
      \<and> \<not> strings_Contains (le_flags x) ''fail''
      \<and> cn_NodeType n = (if strings_Contains (le_flags x) ''master'' then Master else Slave)
      \<and> (cn_NodeType n \<noteq> Master \<longrightarrow> cn_Slots n = [])
      \<and> list_all slot_ok (cn_Slots n)
      \<and> cn_SlotsNum n = 0 \<and> cn_ClusterName n = [])"

section \<open>Facts about the parsers\<close>

lemma strings_Contains_single [simp]: "strings_Contains s [c] \<longleftrightarrow> c \<in> set s"
  by (auto simp: strings_Contains_iff sublist_def in_set_conv_decomp)

lemma parse_print_slot_range:
  assumes "slot_ok r"
  shows "parse_slot_field (print_slot_range r) = Inr r"
proof -
  have atoi: "strconv_Atoi (strconv_Itoa (sr_Start r)) = Inr (sr_Start r)"
    "strconv_Atoi (strconv_Itoa (sr_End r)) = Inr (sr_End r)"
    using assms by (auto simp: slot_ok_def intro!: strconv_Atoi_Itoa)
  have "CHR ''-'' \<notin> set (strconv_Itoa (sr_Start r))" "CHR ''-'' \<notin> set (strconv_Itoa (sr_End r))"
    using assms by (auto simp: slot_ok_def dest!: strconv_Itoa_nonneg_chars [rotated] digit_neq_sign)
  with atoi show ?thesis
    by (simp add: parse_slot_field_def print_slot_range_def parseSingleSlot_def parseRange_def
        strings_Split_append)
qed

lemma ParseSlots_print:
  "list_all slot_ok rs \<Longrightarrow> ParseSlots (map print_slot_range rs) = Inr rs"
  by (induction rs) (auto simp: parse_print_slot_range)

lemma StringToUint16_itoa [simp]: "StringToUint16 (itoa_nat (unat (p :: 16 word))) = Inr p"
proof -
  have "unat p < 65536" using unsigned_less [where 'a = nat, of p] by simp
  then have "int (unat p) \<le> 65535" by linarith
  moreover from this have "strconv_Atoi (itoa_nat (unat p)) = Inr (int (unat p))"
    by (intro strconv_Atoi_itoa_nat) (erule order_trans, simp)
  ultimately show ?thesis
    by (simp add: StringToUint16_def)
qed

text \<open>\<^verbatim>\<open>StringToUint16\<close> accepts the decimal numerals of the 16-bit range and keeps their value.\<close>

lemma StringToUint16_Inr_iff:
  "StringToUint16 s = Inr p \<longleftrightarrow> (\<exists>n. strconv_Atoi s = Inr n \<and> 0 \<le> n \<and> n \<le> 65535 \<and> uint p = n)"
proof -
  have "uint (word_of_int n :: 16 word) = n" if "0 \<le> n" "n \<le> 65535" for n
    using that by (simp add: uint_word_of_int)
  then show ?thesis
    by (auto simp: StringToUint16_def split: sum.splits)
qed

lemma ParseIPPort_host_port [simp]:
  "CHR '':'' \<notin> set ip \<Longrightarrow> ParseIPPort (host_port ip p) = (ip, itoa_nat (unat p))"
  by (simp add: ParseIPPort_def host_port_def strings_Split_append)

lemma print_slot_range_no_space: "slot_ok r \<Longrightarrow> CHR '' '' \<notin> set (print_slot_range r)"
  by (auto simp: slot_ok_def print_slot_range_def
      dest!: strconv_Itoa_nonneg_chars [rotated] digit_neq_sign)

lemma host_port_no_sep:
  assumes "c \<notin> set ip" "c \<noteq> CHR '':''" "\<not> is_digit c"
  shows "c \<notin> set (host_port ip p)"
  using assms itoa_nat_chars by (auto simp: host_port_def)

lemma parse_print_node_line:
  assumes "printable_node x n"
  shows "parse_node_line f (print_node_line x n) =
    (case f of None \<Rightarrow> LineNode n | Some g \<Rightarrow> if g (cn_IP n) then LineNode n else LineSkip)"
proof -
  let ?pre = "[cn_ID n, host_port (cn_IP n) (cn_Port n) @ ''@'' @ le_cport x, le_flags x,
    cn_MasterID n, le_ping x, le_pong x, le_epoch x, cn_LinkState n]"
  let ?fields = "?pre @ map print_slot_range (cn_Slots n)"
  have ok: "list_all slot_ok (cn_Slots n)" using assms by (simp add: printable_node_def)
  have nosp: "CHR '' '' \<notin> set (host_port (cn_IP n) (cn_Port n))"
    "CHR ''@'' \<notin> set (host_port (cn_IP n) (cn_Port n))"
    using assms by (simp_all add: printable_node_def host_port_no_sep is_digit_def)
  have split: "strings_Split (print_node_line x n) (CHR '' '') = ?fields"
    unfolding print_node_line_def
    using assms ok nosp
    by (intro strings_Split_Join)
      (auto simp: printable_node_def list_all_iff dest: print_slot_range_no_space)
  have ne: "print_node_line x n \<noteq> []" by (simp add: print_node_line_def)
  have addr: "hd (strings_Split (?fields ! 1) (CHR ''@'')) = host_port (cn_IP n) (cn_Port n)"
    using nosp by (simp add: strings_Split_append)
  show ?thesis
    using assms ne addr ParseSlots_print [OF ok]
    by (cases "cn_Slots n")
      (auto simp: parse_node_line_def split Let_def printable_node_def parseNodeType_def
        Master_def Slave_def split: option.splits)
qed

lemma ParseClusterNodeLines_fst:
  "fst (ParseClusterNodeLines ls f) =
     List.map_filter (\<lambda>l. case parse_node_line f l of LineNode n \<Rightarrow> Some n | _ \<Rightarrow> None) ls"
  by (induction ls) (auto simp: List.map_filter_simps Let_def split: prod.splits line_outcome.splits)

lemma ParseClusterNodeLines_snd:
  "snd (ParseClusterNodeLines ls f) =
     List.map_filter (\<lambda>l. case parse_node_line f l of LineFailed i \<Rightarrow> Some i | _ \<Rightarrow> None) ls"
  by (induction ls) (auto simp: List.map_filter_simps Let_def split: prod.splits line_outcome.splits)

lemma parse_node_line_LineNode:
  assumes "parse_node_line f l = LineNode n"
  shows "cn_IP n \<noteq> [] \<and> cn_NodeType n \<in> {Master, Slave} \<and> (\<forall>g. f = Some g \<longrightarrow> g (cn_IP n))
    \<and> (cn_NodeType n \<noteq> Master \<longrightarrow> cn_Slots n = [])
    \<and> cn_ID n = strings_Split l (CHR '' '') ! 0 \<and> cn_SlotsNum n = 0 \<and> cn_ClusterName n = []"
  using assms
  by (auto simp: parse_node_line_def Let_def parseNodeType_def
      split: if_splits sum.splits option.splits prod.splits)

section \<open>Properties\<close>

text \<open>
  C23: parsing the \<^verbatim>\<open>CLUSTER NODES\<close> text of healthy nodes gives back exactly the nodes whose
  address passes the cluster filter, in order, with id, address, type, master, link state and
  slot ranges as printed, and reports no failed id.
\<close>

theorem ParseClusterNodeLines_print:
  assumes "\<forall>(x, n) \<in> set xs. printable_node x n"
  shows "ParseClusterNodeLines (map (\<lambda>(x, n). print_node_line x n) xs) (Some f) =
    (filter (\<lambda>n. f (cn_IP n)) (map snd xs), [])"
  using assms
  by (induction xs) (auto simp: parse_print_node_line)

definition sample_node :: ClusterNode where
  "sample_node = \<lparr>cn_ID = ''c205ed'', cn_IP = ''10.88.3.61'', cn_Port = 6379,
     cn_NodeType = Master, cn_MasterID = ''-'', cn_LinkState = ''connected'',
     cn_Slots = [\<lparr>sr_Start = 0, sr_End = 0\<rparr>, \<lparr>sr_Start = 5461, sr_End = 10921\<rparr>],
     cn_SlotsNum = 0, cn_ClusterName = []\<rparr>"

definition sample_extra :: line_extra where
  "sample_extra = \<lparr>le_cport = ''16379'', le_flags = ''myself,master'', le_ping = ''0'',
     le_pong = ''1725596405004'', le_epoch = ''3''\<rparr>"

lemma printable_sample: "printable_node sample_extra sample_node"
  by (simp add: printable_node_def sample_extra_def sample_node_def strings_HasPrefix_def
      slot_ok_def)

theorem ParseClusterNodeLines_print_witness:
  "ParseClusterNodeLines [print_node_line sample_extra sample_node] (Some (\<lambda>ip. ip = ''10.88.3.61''))
   = ([sample_node], [])"
  using ParseClusterNodeLines_print
    [of "[(sample_extra, sample_node)]" "\<lambda>ip. ip = ''10.88.3.61''"] printable_sample
  by (simp add: sample_node_def)

text \<open>
  every node the parser returns, on any input, passes the cluster filter, has a non-empty
  address, is a master or a slave, carries slots only if it is a master, and is named by the
  first field of one of the input lines.
\<close>

theorem ParseClusterNodeLines_sound:
  assumes "n \<in> set (fst (ParseClusterNodeLines ls (Some f)))"
  shows "f (cn_IP n) \<and> cn_IP n \<noteq> [] \<and> cn_NodeType n \<in> {Master, Slave}
    \<and> (cn_NodeType n = Slave \<longrightarrow> cn_Slots n = [])
    \<and> (\<exists>l \<in> set ls. cn_ID n = strings_Split l (CHR '' '') ! 0)"
proof -
  from assms obtain l where "l \<in> set ls" "parse_node_line (Some f) l = LineNode n"
    by (auto simp: ParseClusterNodeLines_fst List.map_filter_def split: line_outcome.splits)
  then show ?thesis
    using parse_node_line_LineNode [of "Some f" l n] by (auto simp: Master_def Slave_def)
qed

theorem ParseClusterNodeLines_sound_witness:
  "sample_node \<in> set (fst (ParseClusterNodeLines [print_node_line sample_extra sample_node]
     (Some (\<lambda>ip. True)))) \<and> cn_IP sample_node \<noteq> []"
proof -
  have mem: "sample_node \<in> set (fst (ParseClusterNodeLines
      [print_node_line sample_extra sample_node] (Some (\<lambda>ip. True))))"
    by (simp add: parse_print_node_line [OF printable_sample])
  from ParseClusterNodeLines_sound [OF mem] mem show ?thesis by blast
qed

text \<open>
  while a slot is being moved Redis appends a marker such as \<^verbatim>\<open>[93->-id]\<close> to the line of
  the node that moves it. \<^verbatim>\<open>ParseSlots\<close> splits the marker at its dashes and fails, so a line
  that carries one contributes neither a node nor a failed id: a master in the middle of a
  migration disappears from the parsed topology.
\<close>

theorem migrating_master_is_dropped:
  assumes fields: "strings_Split line (CHR '' '') = hdr @ slots"
    and hdr: "length hdr = 8" "strings_Contains (hdr ! 2) ''master''"
      "\<not> strings_Contains (hdr ! 2) ''fail''"
    and marker: "''['' @ slot @ ''->-'' @ peer @ '']'' \<in> set slots"
  shows "ParseClusterNodeLines [line] f = ([], [])"
proof -
  let ?m = "''['' @ slot @ ''->-'' @ peer @ '']''"
  have count: "3 \<le> length (strings_Split ?m (CHR ''-''))"
    unfolding strings_Split_length by simp
  then have "\<exists>e. parse_slot_field ?m = Inl e"
    by (auto simp: parse_slot_field_def parseRange_def Let_def)
  then have err: "\<exists>e. ParseSlots slots = Inl e" using marker
    by (induction slots) (auto split: sum.splits)
  have "parse_node_line f line = LineSkip"
    using fields hdr err marker
    by (auto simp: parse_node_line_def Let_def nth_append parseNodeType_def
        split: sum.splits prod.splits)
  then show ?thesis by simp
qed

theorem migrating_master_is_dropped_witness:
  "ParseClusterNodeLines
     [''c205ed 10.88.3.61:6379@16379 myself,master - 0 0 3 connected 0-5460 [93->-42eecd]''] None
   = ([], [])"
  by (rule migrating_master_is_dropped
      [where hdr = "[''c205ed'', ''10.88.3.61:6379@16379'', ''myself,master'', ''-'', ''0'', ''0'',
        ''3'', ''connected'']" and slots = "[''0-5460'', ''[93->-42eecd]'']" and slot = "''93''"
        and peer = "''42eecd''"])
    (simp_all add: strings_HasPrefix_def)

text \<open>
  the failure test is a substring test, so the healthy flag \<^verbatim>\<open>nofailover\<close> (and the
  suspicion flag \<^verbatim>\<open>fail?\<close>) is taken for a failure: the node is left out of the result and its
  id is reported as failed, which makes the manager forget it.
\<close>

theorem nofailover_reported_failed:
  assumes "8 \<le> length (strings_Split line (CHR '' ''))"
    and "strings_Contains (strings_Split line (CHR '' '') ! 2) ''nofailover''"
  shows "ParseClusterNodeLines [line] f = ([], [strings_Split line (CHR '' '') ! 0])"
proof -
  have "sublist ''fail'' ''nofailover''" by (simp add: sublist_code)
  then have "strings_Contains (strings_Split line (CHR '' '') ! 2) ''fail''"
    using assms(2) by (auto simp: strings_Contains_iff elim: sublist_order.order_trans [rotated])
  moreover have "line \<noteq> []" using assms(1) by auto
  ultimately show ?thesis using assms(1) by (simp add: parse_node_line_def Let_def)
qed

theorem nofailover_reported_failed_witness:
  "ParseClusterNodeLines
     [''7964bf 10.88.3.63:6379@16379 slave,nofailover 147ff1 0 0 3 connected''] None
   = ([], [''7964bf''])"
  using nofailover_reported_failed
    [of "''7964bf 10.88.3.63:6379@16379 slave,nofailover 147ff1 0 0 3 connected''" None]
  by (simp add: strings_HasPrefix_def)

end
