(* ===== verification/Pipeline.thy ===== *)
theory Pipeline
  imports Prelude
begin

text \<open>
  The package \<^verbatim>\<open>cluster/pipeline\<close>: a sequence of named steps with retries, rollback on failure
  and optional persistence of the completed steps. The state that the step functions act on
  is the type variable \<^typ>\<open>'s\<close>: the containers, the Redis nodes, the files and the database.

  The optional \<^verbatim>\<open>Persister\<close> interface is a record of operations on that state. Its contract
  is the locale \<^verbatim>\<open>step_store\<close>, which the SQLite store implements.
\<close>

section \<open>Types\<close>

text \<open>A context is the background context or one derived by \<^verbatim>\<open>context.WithTimeout\<close>.\<close>

datatype ctx = Background | WithTimeout ctx int

type_synonym 's StepFn = "ctx \<Rightarrow> 's \<Rightarrow> 's \<times> go_err"

record 's Step =
  st_Name :: string
  st_Do :: "'s StepFn"
  st_Undo :: "'s StepFn option"
  st_Retry :: int
  st_Timeout :: int

record 's Persister =
  ps_Save :: "string \<Rightarrow> string \<Rightarrow> 's \<Rightarrow> 's \<times> go_err"
  ps_Start :: "string \<Rightarrow> string \<Rightarrow> 's \<Rightarrow> 's \<times> go_err"
  ps_Fail :: "string \<Rightarrow> string \<Rightarrow> 's \<Rightarrow> 's \<times> go_err"
  ps_Load :: "string \<Rightarrow> 's \<Rightarrow> 's \<times> string list go_result"
  ps_Delete :: "string \<Rightarrow> 's \<Rightarrow> 's \<times> go_err"

text \<open>\<^verbatim>\<open>State.Completed\<close> only ever holds the value true, so it is the set of its keys.\<close>

record 's Pipeline =
  pl_Name :: string
  pl_Steps :: "'s Step list"
  pl_Completed :: "string set"
  pl_Persist :: "'s Persister option"

section \<open>Operations\<close>

definition NewPipeline :: "string \<Rightarrow> 's Persister option \<Rightarrow> 's \<Rightarrow> 's Pipeline \<times> 's" where
  "NewPipeline name persist w =
     (let p = \<lparr>pl_Name = name, pl_Steps = [], pl_Completed = {}, pl_Persist = persist\<rparr>
      in case persist of
           None \<Rightarrow> (p, w)
         | Some ps \<Rightarrow>
             (case ps_Load ps name w of
                (w', Inl err) \<Rightarrow> (p, w')
              | (w', Inr steps) \<Rightarrow> (p\<lparr>pl_Completed := set steps\<rparr>, w')))"

definition AddStep :: "'s Step \<Rightarrow> 's Pipeline \<Rightarrow> 's Pipeline" where
  "AddStep step p =
     (let step' = (if st_Retry step < 0 then step\<lparr>st_Retry := 0\<rparr> else step)
      in p\<lparr>pl_Steps := pl_Steps p @ [step']\<rparr>)"

text \<open>
  The retry loop of \<^verbatim>\<open>executeStep\<close>: the first argument counts the attempts that are left,
  \<^verbatim>\<open>lastErr\<close> is the error of the last one.
\<close>

fun attempt_loop :: "nat \<Rightarrow> 's StepFn \<Rightarrow> ctx \<Rightarrow> go_err \<Rightarrow> 's \<Rightarrow> 's \<times> go_err" where
  "attempt_loop 0 do ctx lastErr w =
     (w, Some (case lastErr of None \<Rightarrow> Errorf ''after attempts''
               | Some e \<Rightarrow> ErrorfW ''after attempts'' e))"
| "attempt_loop (Suc n) do ctx lastErr w =
     (case do ctx w of
        (w', Some err) \<Rightarrow> attempt_loop n do ctx (Some err) w'
      | (w', None) \<Rightarrow> (w', None))"

definition executeStep :: "ctx \<Rightarrow> 's Step \<Rightarrow> 's \<Rightarrow> 's \<times> go_err" where
  "executeStep ctx step w =
     (let ctx' = (if st_Timeout step > 0 then WithTimeout ctx (st_Timeout step) else ctx)
      in attempt_loop (nat (st_Retry step + 1)) (st_Do step) ctx' None w)"

text \<open>A persister call whose result the pipeline ignores or only logs.\<close>

definition persist_call ::
  "'s Pipeline \<Rightarrow> ('s Persister \<Rightarrow> string \<Rightarrow> 's \<Rightarrow> 's \<times> go_err) \<Rightarrow> 's \<Rightarrow> 's" where
  "persist_call p f w =
     (case pl_Persist p of None \<Rightarrow> w | Some ps \<Rightarrow> fst (f ps (pl_Name p) w))"

fun rollback_steps :: "ctx \<Rightarrow> 's Step list \<Rightarrow> 's Pipeline \<Rightarrow> 's \<Rightarrow> 's Pipeline \<times> 's" where
  "rollback_steps ctx [] p w = (p, w)"
| "rollback_steps ctx (step # rest) p w =
     (case st_Undo step of
        None \<Rightarrow> rollback_steps ctx rest p w
      | Some undo \<Rightarrow>
          let w1 = fst (undo ctx w);
              p1 = p\<lparr>pl_Completed := pl_Completed p - {st_Name step}\<rparr>;
              w2 = persist_call p1 ps_Delete w1
          in rollback_steps ctx rest p1 w2)"

definition rollback :: "ctx \<Rightarrow> nat \<Rightarrow> 's Pipeline \<Rightarrow> 's \<Rightarrow> 's Pipeline \<times> 's" where
  "rollback ctx failedAt p w = rollback_steps ctx (rev (take failedAt (pl_Steps p))) p w"

fun run_loop ::
  "ctx \<Rightarrow> nat \<Rightarrow> 's Step list \<Rightarrow> 's Pipeline \<Rightarrow> 's \<Rightarrow> 's Pipeline \<times> 's \<times> go_err" where
  "run_loop ctx i [] p w = (p, w, None)"
| "run_loop ctx i (step # rest) p w =
     (if st_Name step \<in> pl_Completed p then run_loop ctx (Suc i) rest p w
      else
        let w1 = persist_call p (\<lambda>ps name. ps_Start ps name (st_Name step)) w
        in case executeStep ctx step w1 of
             (w2, Some err) \<Rightarrow>
               let w3 = persist_call p (\<lambda>ps name. ps_Fail ps name (st_Name step)) w2;
                   (p', w4) = rollback ctx i p w3
               in (p', w4, Some (ErrorfW ''pipeline step'' err))
           | (w2, None) \<Rightarrow>
               let p' = p\<lparr>pl_Completed := insert (st_Name step) (pl_Completed p)\<rparr>;
                   w3 = persist_call p' (\<lambda>ps name. ps_Save ps name (st_Name step)) w2
               in run_loop ctx (Suc i) rest p' w3)"

definition Run :: "ctx \<Rightarrow> 's Pipeline \<Rightarrow> 's \<Rightarrow> 's Pipeline \<times> 's \<times> go_err" where
  "Run ctx p w = run_loop ctx 0 (pl_Steps p) p w"

text \<open>The first loop of \<^verbatim>\<open>RetryFrom\<close>: the flag \<^verbatim>\<open>found\<close> and the completed set.\<close>

fun retry_scan :: "string \<Rightarrow> 's Step list \<Rightarrow> bool \<Rightarrow> string set \<Rightarrow> bool \<times> string set" where
  "retry_scan stepName [] found c = (found, c)"
| "retry_scan stepName (s # ss) found c =
     (let found' = (found \<or> st_Name s = stepName)
      in retry_scan stepName ss found' (if found' then c - {st_Name s} else c))"

definition RetryFrom ::
  "ctx \<Rightarrow> string \<Rightarrow> 's Pipeline \<Rightarrow> 's \<Rightarrow> 's Pipeline \<times> 's \<times> go_err" where
  "RetryFrom ctx stepName p w =
     (let (found, c) = retry_scan stepName (pl_Steps p) False (pl_Completed p);
          p' = p\<lparr>pl_Completed := c\<rparr>
      in if \<not> found then (p', w, Some (Errorf ''step not found in pipeline''))
         else Run ctx p' w)"

definition CompletedSteps :: "'s Pipeline \<Rightarrow> string list" where
  "CompletedSteps p = filter (\<lambda>n. n \<in> pl_Completed p) (map st_Name (pl_Steps p))"

definition ResetPipeline :: "'s Pipeline \<Rightarrow> 's Pipeline" where
  "ResetPipeline p = p\<lparr>pl_Completed := {}\<rparr>"

section \<open>Facts about the retry loop\<close>

text \<open>The state after \<open>k\<close> failed attempts.\<close>

definition after_failures :: "'s StepFn \<Rightarrow> ctx \<Rightarrow> nat \<Rightarrow> 's \<Rightarrow> 's" where
  "after_failures do ctx k w = ((\<lambda>u. fst (do ctx u)) ^^ k) w"

lemma after_failures_0 [simp]: "after_failures do ctx 0 w = w"
  by (simp add: after_failures_def)

lemma after_failures_Suc: "after_failures do ctx (Suc k) w = after_failures do ctx k (fst (do ctx w))"
  by (simp add: after_failures_def funpow_Suc_right del: funpow.simps)

lemma attempt_loop_None_iff:
  "attempt_loop n do ctx le w = (w', None) \<longleftrightarrow>
     (\<exists>k < n. (\<forall>j < k. snd (do ctx (after_failures do ctx j w)) \<noteq> None)
            \<and> do ctx (after_failures do ctx k w) = (w', None))"
proof (induction n arbitrary: w le)
  case 0
  then show ?case by simp
next
  case (Suc n)
  show ?case
  proof (cases "do ctx w")
    case (Pair u r)
    show ?thesis
    proof (cases r)
      case None
      then show ?thesis using Pair
        by (auto simp: gr0_conv_Suc) (metis after_failures_0 gr0I option.discI snd_conv fst_conv)+
    next
      case (Some e)
      have "(\<exists>k<Suc n. (\<forall>j<k. snd (do ctx (after_failures do ctx j w)) \<noteq> None)
            \<and> do ctx (after_failures do ctx k w) = (w', None)) \<longleftrightarrow>
          (\<exists>k<n. (\<forall>j<k. snd (do ctx (after_failures do ctx j u)) \<noteq> None)
            \<and> do ctx (after_failures do ctx k u) = (w', None))"
        using Pair Some by (simp add: Ex_less_Suc2 All_less_Suc2 after_failures_Suc)
      then show ?thesis using Pair Some Suc.IH by simp
    qed
  qed
qed

lemma attempt_loop_Some_wraps:
  assumes "attempt_loop n do ctx le w = (w', Some e)" and "0 < n"
  shows "\<exists>u err. do ctx u = (w', Some err) \<and> e = ErrorfW ''after attempts'' err"
  using assms
proof (induction n arbitrary: w le)
  case 0
  then show ?case by simp
next
  case (Suc n)
  obtain u r where do: "do ctx w = (u, r)" by (cases "do ctx w")
  show ?case
  proof (cases r)
    case None
    then show ?thesis using do Suc.prems by simp
  next
    case (Some err)
    show ?thesis
    proof (cases n)
      case 0
      then show ?thesis using do Some Suc.prems by auto
    next
      case (Suc m)
      then show ?thesis using Suc.IH do Some Suc.prems by auto
    qed
  qed
qed

lemma attempt_loop_fail_keeps:
  assumes "\<And>u u' err. do ctx u = (u', Some err) \<Longrightarrow> V u' = V u"
  shows "attempt_loop n do ctx le w = (w', Some e) \<Longrightarrow> V w' = V w"
proof (induction n arbitrary: w le)
  case 0
  then show ?case by simp
next
  case (Suc n)
  obtain u r where "do ctx w = (u, r)" by (cases "do ctx w")
  then show ?case using Suc assms by (cases r) fastforce+
qed

lemma attempt_loop_ok_keeps:
  assumes "\<And>u u' err. do ctx u = (u', Some err) \<Longrightarrow> V u' = V u"
  shows "attempt_loop n do ctx le w = (w', None) \<Longrightarrow> \<exists>u. V u = V w \<and> do ctx u = (w', None)"
proof (induction n arbitrary: w le)
  case 0
  then show ?case by simp
next
  case (Suc n)
  show ?case
  proof (cases "do ctx w")
    case (Pair u r)
    show ?thesis
    proof (cases r)
      case None
      then show ?thesis using Pair Suc.prems by auto
    next
      case (Some err)
      then have "V u = V w" using assms Pair by simp
      then show ?thesis using Pair Some Suc.IH Suc.prems by fastforce
    qed
  qed
qed

section \<open>Facts about rollback\<close>

definition undo_of :: "'s Step \<Rightarrow> ctx \<Rightarrow> 's \<Rightarrow> 's" where
  "undo_of step ctx w = (case st_Undo step of None \<Rightarrow> w | Some f \<Rightarrow> fst (f ctx w))"

definition undoable :: "'s Step \<Rightarrow> bool" where
  "undoable step = (st_Undo step \<noteq> None)"

lemma rollback_steps_append:
  "rollback_steps ctx (xs @ ys) p w =
     (let (p', w') = rollback_steps ctx xs p w in rollback_steps ctx ys p' w')"
  by (induction xs arbitrary: p w) (auto simp: Let_def split: option.splits)

lemma rollback_steps_frame:
  "pl_Name (fst (rollback_steps ctx xs p w)) = pl_Name p
   \<and> pl_Steps (fst (rollback_steps ctx xs p w)) = pl_Steps p
   \<and> pl_Persist (fst (rollback_steps ctx xs p w)) = pl_Persist p"
  by (induction xs arbitrary: p w) (auto simp: Let_def split: option.splits)

lemma rollback_steps_completed:
  "pl_Completed (fst (rollback_steps ctx xs p w)) =
     pl_Completed p - st_Name ` {s \<in> set xs. undoable s}"
  by (induction xs arbitrary: p w) (auto simp: Let_def undoable_def split: option.splits)

text \<open>Without a persister a rollback is exactly the undo functions, last step first.\<close>

lemma rollback_steps_no_persist:
  "pl_Persist p = None \<Longrightarrow>
   snd (rollback_steps ctx xs p w) = foldl (\<lambda>u s. undo_of s ctx u) w xs"
  by (induction xs arbitrary: p w)
    (auto simp: Let_def undo_of_def persist_call_def split: option.splits)

section \<open>Compensation\<close>

text \<open>
  A step compensates with respect to a view of the state when a failed attempt leaves the
  view as it was and the undo function takes the view back to what it was before the step
  succeeded. A step with no undo function compensates when it does not change the view.
\<close>

definition compensates :: "('s \<Rightarrow> 'v) \<Rightarrow> 's Step \<Rightarrow> bool" where
  "compensates view step =
     (\<forall>c w. case st_Do step c w of
        (w', None) \<Rightarrow> (\<forall>c' u. view u = view w' \<longrightarrow> view (undo_of step c' u) = view w)
      | (w', Some e) \<Rightarrow> view w' = view w)"

definition persister_keeps :: "('s \<Rightarrow> 'v) \<Rightarrow> 's Persister \<Rightarrow> bool" where
  "persister_keeps view ps =
     (\<forall>n s w. view (fst (ps_Start ps n s w)) = view w \<and> view (fst (ps_Save ps n s w)) = view w
        \<and> view (fst (ps_Fail ps n s w)) = view w \<and> view (fst (ps_Delete ps n w)) = view w)"

definition pipeline_keeps :: "('s \<Rightarrow> 'v) \<Rightarrow> 's Pipeline \<Rightarrow> bool" where
  "pipeline_keeps view p = (\<forall>ps. pl_Persist p = Some ps \<longrightarrow> persister_keeps view ps)"

lemma persist_call_keeps:
  assumes "pipeline_keeps view p"
  shows "view (persist_call p (\<lambda>ps name. ps_Start ps name s) w) = view w"
    and "view (persist_call p (\<lambda>ps name. ps_Save ps name s) w) = view w"
    and "view (persist_call p (\<lambda>ps name. ps_Fail ps name s) w) = view w"
    and "view (persist_call p ps_Delete w) = view w"
  using assms
  by (auto simp: persist_call_def pipeline_keeps_def persister_keeps_def split: option.splits)

lemma pipeline_keeps_cong:
  "pl_Persist p = pl_Persist q \<Longrightarrow> pipeline_keeps view p = pipeline_keeps view q"
  by (simp add: pipeline_keeps_def)

lemma compensates_failD:
  "compensates view s \<Longrightarrow> st_Do s c u = (u', Some err) \<Longrightarrow> view u' = view u"
  unfolding compensates_def by (metis (mono_tags, lifting) case_prod_conv option.simps(5))

lemma compensates_okD:
  "compensates view s \<Longrightarrow> st_Do s c v = (w', None) \<Longrightarrow> view u = view w'
   \<Longrightarrow> view (undo_of s c' u) = view v"
  unfolding compensates_def by (metis (mono_tags, lifting) case_prod_conv option.simps(4))

lemma compensates_execute_fail:
  assumes "compensates view s" "executeStep ctx s w = (w', Some e)"
  shows "view w' = view w"
  using assms(2) attempt_loop_fail_keeps [where V = view and do = "st_Do s"]
    compensates_failD [OF assms(1)]
  unfolding executeStep_def Let_def by blast

lemma compensates_execute_ok:
  assumes "compensates view s" "executeStep ctx s w = (w', None)" "view u = view w'"
  shows "view (undo_of s c u) = view w"
proof -
  let ?c = "if st_Timeout s > 0 then WithTimeout ctx (st_Timeout s) else ctx"
  have "attempt_loop (nat (st_Retry s + 1)) (st_Do s) ?c None w = (w', None)"
    using assms(2) by (simp add: executeStep_def Let_def)
  then obtain v where "view v = view w" "st_Do s ?c v = (w', None)"
    using attempt_loop_ok_keeps [where V = view and do = "st_Do s"]
      compensates_failD [OF assms(1)] by blast
  then show ?thesis using compensates_okD [OF assms(1) _ assms(3)] by metis
qed

text \<open>Undoing the executed prefix, last step first, restores the view at its start.\<close>

definition prefix_undoes :: "('s \<Rightarrow> 'v) \<Rightarrow> ctx \<Rightarrow> 's Step list \<Rightarrow> 's \<Rightarrow> 's \<Rightarrow> bool" where
  "prefix_undoes view ctx pre w0 w =
     (\<forall>p u. pipeline_keeps view p \<longrightarrow> view u = view w
        \<longrightarrow> view (snd (rollback_steps ctx (rev pre) p u)) = view w0)"

lemma prefix_undoes_Nil: "prefix_undoes view ctx [] w w"
  by (simp add: prefix_undoes_def)

lemma prefix_undoes_cong: "view w = view w' \<Longrightarrow> prefix_undoes view ctx pre w0 w = prefix_undoes view ctx pre w0 w'"
  by (simp add: prefix_undoes_def)

lemma prefix_undoes_snoc:
  assumes pre: "prefix_undoes view ctx pre w0 w"
    and s: "\<And>u. view u = view w' \<Longrightarrow> view (undo_of s ctx u) = view w"
  shows "prefix_undoes view ctx (pre @ [s]) w0 w'"
  unfolding prefix_undoes_def
proof (intro allI impI)
  fix p :: "'a Pipeline" and u
  assume keeps: "pipeline_keeps view p" and u: "view u = view w'"
  show "view (snd (rollback_steps ctx (rev (pre @ [s])) p u)) = view w0"
  proof (cases "st_Undo s")
    case None
    then have "view u = view w" using s [OF u] by (simp add: undo_of_def)
    then show ?thesis using None pre keeps by (simp add: prefix_undoes_def)
  next
    case (Some f)
    let ?p = "p\<lparr>pl_Completed := pl_Completed p - {st_Name s}\<rparr>"
    let ?u = "persist_call ?p ps_Delete (fst (f ctx u))"
    have k: "pipeline_keeps view ?p" using keeps by (simp add: pipeline_keeps_def)
    have "view ?u = view w"
      using persist_call_keeps(4) [OF k, of "fst (f ctx u)"] s [OF u] Some by (simp add: undo_of_def)
    then have "view (snd (rollback_steps ctx (rev pre) ?p ?u)) = view w0"
      using pre k unfolding prefix_undoes_def by blast
    then show ?thesis using Some by (simp add: Let_def)
  qed
qed

lemma run_loop_atomic:
  assumes "run_loop ctx (length pre) xs p w = (p', w', Some e)"
    and "pl_Steps p = pre @ xs" and "pipeline_keeps view p"
    and "\<forall>s \<in> set xs. compensates view s"
    and "prefix_undoes view ctx pre w0 w"
    and "distinct (map st_Name xs)" and "pl_Completed p \<inter> st_Name ` set xs = {}"
  shows "view w' = view w0"
  using assms
proof (induction xs arbitrary: pre p w)
  case Nil
  then show ?case by simp
next
  case (Cons s xs)
  let ?w1 = "persist_call p (\<lambda>ps name. ps_Start ps name (st_Name s)) w"
  have notin: "st_Name s \<notin> pl_Completed p" using Cons.prems(7) by auto
  have w1: "view ?w1 = view w" by (rule persist_call_keeps(1) [OF Cons.prems(3)])
  have comp: "compensates view s" using Cons.prems(4) by simp
  obtain w2 r where ex: "executeStep ctx s ?w1 = (w2, r)" by (cases "executeStep ctx s ?w1")
  show ?case
  proof (cases r)
    case (Some err)
    let ?w3 = "persist_call p (\<lambda>ps name. ps_Fail ps name (st_Name s)) w2"
    have "view ?w3 = view w"
      using persist_call_keeps(3) [OF Cons.prems(3), of "st_Name s" w2]
        compensates_execute_fail [OF comp, of ctx ?w1 w2 err] ex Some w1 by simp
    moreover have "w' = snd (rollback_steps ctx (rev pre) p ?w3)"
      using Cons.prems(1,2) notin ex Some by (auto simp: rollback_def Let_def split: prod.splits)
    ultimately show ?thesis using Cons.prems(3,5) unfolding prefix_undoes_def by blast
  next
    case None
    let ?p = "p\<lparr>pl_Completed := insert (st_Name s) (pl_Completed p)\<rparr>"
    let ?w3 = "persist_call ?p (\<lambda>ps name. ps_Save ps name (st_Name s)) w2"
    have keeps: "pipeline_keeps view ?p" using Cons.prems(3) by (simp add: pipeline_keeps_def)
    have w3: "view ?w3 = view w2" by (rule persist_call_keeps(2) [OF keeps])
    have "prefix_undoes view ctx (pre @ [s]) w0 ?w3"
    proof (rule prefix_undoes_snoc [OF Cons.prems(5)])
      fix u assume "view u = view ?w3"
      then show "view (undo_of s ctx u) = view w"
        using compensates_execute_ok [OF comp, of ctx ?w1 w2 u ctx] ex None w1 w3 by simp
    qed
    moreover have "run_loop ctx (length (pre @ [s])) xs ?p ?w3 = (p', w', Some e)"
      using Cons.prems(1) notin ex None by (simp add: Let_def)
    ultimately show ?thesis
      using Cons.IH [of "pre @ [s]" ?p ?w3] Cons.prems keeps by auto
  qed
qed

section \<open>Facts about runs\<close>

lemma run_loop_frame:
  "run_loop ctx i xs p w = (p', w', r) \<Longrightarrow>
   pl_Name p' = pl_Name p \<and> pl_Steps p' = pl_Steps p \<and> pl_Persist p' = pl_Persist p"
proof (induction xs arbitrary: i p w)
  case Nil
  then show ?case by simp
next
  case (Cons s xs)
  let ?w1 = "persist_call p (\<lambda>ps name. ps_Start ps name (st_Name s)) w"
  obtain w2 q where ex: "executeStep ctx s ?w1 = (w2, q)" by (cases "executeStep ctx s ?w1")
  show ?case
  proof (cases "st_Name s \<in> pl_Completed p \<or> q = None")
    case True
    then show ?thesis using Cons ex by (auto simp: Let_def split: if_splits)
  next
    case False
    then have "p' = fst (rollback_steps ctx (rev (take i (pl_Steps p))) p
        (persist_call p (\<lambda>ps name. ps_Fail ps name (st_Name s)) w2))"
      using Cons.prems ex by (auto simp: Let_def rollback_def split: prod.splits)
    then show ?thesis using rollback_steps_frame by metis
  qed
qed

lemma run_loop_ok_completed:
  "run_loop ctx i xs p w = (p', w', None) \<Longrightarrow>
   pl_Completed p' = pl_Completed p \<union> st_Name ` set xs"
proof (induction xs arbitrary: i p w)
  case Nil
  then show ?case by simp
next
  case (Cons s xs)
  show ?case
  proof (cases "st_Name s \<in> pl_Completed p")
    case True
    then show ?thesis using Cons by auto
  next
    case False
    with Cons.prems Cons.IH show ?thesis
      by (auto simp: Let_def split: prod.splits option.splits)
  qed
qed

lemma run_loop_all_completed:
  "st_Name ` set xs \<subseteq> pl_Completed p \<Longrightarrow> run_loop ctx i xs p w = (p, w, None)"
  by (induction xs arbitrary: i) auto

lemma run_loop_error_wraps:
  assumes "run_loop ctx i xs p w = (p', w', Some e)" and "\<forall>s \<in> set xs. 0 \<le> st_Retry s"
  shows "\<exists>s \<in> set xs. \<exists>c u u' err. st_Do s c u = (u', Some err)
    \<and> e = ErrorfW ''pipeline step'' (ErrorfW ''after attempts'' err)"
  using assms
proof (induction xs arbitrary: i p w)
  case Nil
  then show ?case by simp
next
  case (Cons s xs)
  let ?w1 = "persist_call p (\<lambda>ps name. ps_Start ps name (st_Name s)) w"
  obtain w2 r where ex: "executeStep ctx s ?w1 = (w2, r)" by (cases "executeStep ctx s ?w1")
  consider "st_Name s \<in> pl_Completed p" | "st_Name s \<notin> pl_Completed p" "r = None"
    | err where "st_Name s \<notin> pl_Completed p" "r = Some err" by (cases r) auto
  then show ?case
  proof cases
    case 1
    then show ?thesis using Cons.IH Cons.prems by fastforce
  next
    case 2
    then show ?thesis using Cons.IH Cons.prems ex by (fastforce simp: Let_def)
  next
    case 3
    then have "e = ErrorfW ''pipeline step'' err"
      using Cons.prems(1) ex by (auto simp: Let_def split: prod.splits)
    moreover have "\<exists>c u u' er. st_Do s c u = (u', Some er) \<and> err = ErrorfW ''after attempts'' er"
      using attempt_loop_Some_wraps [of "nat (st_Retry s + 1)" "st_Do s" _ None ?w1 w2 err]
        ex 3 Cons.prems(2) by (fastforce simp: executeStep_def Let_def)
    ultimately show ?thesis by auto
  qed
qed

lemma run_loop_append:
  "run_loop ctx i (xs @ ys) p w =
     (case run_loop ctx i xs p w of
        (p1, w1, None) \<Rightarrow> run_loop ctx (i + length xs) ys p1 w1
      | (p1, w1, Some e) \<Rightarrow> (p1, w1, Some e))"
proof (induction xs arbitrary: i p w)
  case Nil
  then show ?case by simp
next
  case (Cons s xs)
  then show ?case by (auto simp: Let_def split: prod.splits option.splits)
qed

lemma run_loop_skip_prefix:
  "st_Name ` set xs \<subseteq> pl_Completed p \<Longrightarrow>
   run_loop ctx i (xs @ ys) p w = run_loop ctx (i + length xs) ys p w"
  by (simp add: run_loop_append run_loop_all_completed)

lemma run_loop_fail_completed:
  assumes "run_loop ctx i xs p w = (p', w', Some e)"
  shows "\<exists>k < length xs. pl_Completed p' =
    (pl_Completed p \<union> st_Name ` set (take k xs))
    - st_Name ` {s \<in> set (take (i + k) (pl_Steps p)). undoable s}"
  using assms
proof (induction xs arbitrary: i p w)
  case Nil
  then show ?case by simp
next
  case (Cons s xs)
  let ?w1 = "persist_call p (\<lambda>ps name. ps_Start ps name (st_Name s)) w"
  obtain w2 r where ex: "executeStep ctx s ?w1 = (w2, r)" by (cases "executeStep ctx s ?w1")
  consider "st_Name s \<in> pl_Completed p" | "st_Name s \<notin> pl_Completed p" "r = None"
    | err where "st_Name s \<notin> pl_Completed p" "r = Some err" by (cases r) auto
  then show ?case
  proof cases
    case 1
    then have "run_loop ctx (Suc i) xs p w = (p', w', Some e)" using Cons.prems by simp
    from Cons.IH [OF this] obtain k where "k < length xs" "pl_Completed p' =
        (pl_Completed p \<union> st_Name ` set (take k xs))
        - st_Name ` {s \<in> set (take (Suc i + k) (pl_Steps p)). undoable s}" by blast
    then show ?thesis using 1 by (intro exI [of _ "Suc k"]) auto
  next
    case 2
    let ?p = "p\<lparr>pl_Completed := insert (st_Name s) (pl_Completed p)\<rparr>"
    obtain w3 where "run_loop ctx (Suc i) xs ?p w3 = (p', w', Some e)"
      using Cons.prems 2 ex by (auto simp: Let_def)
    from Cons.IH [OF this] obtain k where "k < length xs" "pl_Completed p' =
        (insert (st_Name s) (pl_Completed p) \<union> st_Name ` set (take k xs))
        - st_Name ` {s \<in> set (take (Suc i + k) (pl_Steps p)). undoable s}" by auto
    then show ?thesis by (intro exI [of _ "Suc k"]) auto
  next
    case 3
    then have "p' = fst (rollback_steps ctx (rev (take i (pl_Steps p))) p
        (persist_call p (\<lambda>ps name. ps_Fail ps name (st_Name s)) w2))"
      using Cons.prems ex by (auto simp: Let_def rollback_def split: prod.splits)
    then have "pl_Completed p' =
        pl_Completed p - st_Name ` {s \<in> set (take i (pl_Steps p)). undoable s}"
      by (simp add: rollback_steps_completed)
    then show ?thesis by (intro exI [of _ 0]) auto
  qed
qed

section \<open>The contract of a persister\<close>

text \<open>A step that leaves the recorded steps alone and the storage working.\<close>

definition transparent :: "('s \<Rightarrow> 'r) \<Rightarrow> ('s \<Rightarrow> bool) \<Rightarrow> 's Step \<Rightarrow> bool" where
  "transparent recorded healthy step = (\<forall>c w. healthy w \<longrightarrow>
     healthy (fst (st_Do step c w)) \<and> recorded (fst (st_Do step c w)) = recorded w)"

text \<open>
  \<^verbatim>\<open>recorded w n\<close> is the set of steps of pipeline \<open>n\<close> that the storage marks completed, and
  \<^verbatim>\<open>healthy w\<close> says that the storage answers. A provider promises that loading returns the
  recorded set and how each call changes it.
\<close>

locale step_store =
  fixes ps :: "'s Persister"
    and recorded :: "'s \<Rightarrow> string \<Rightarrow> string set"
    and healthy :: "'s \<Rightarrow> bool"
  assumes load_spec: "healthy w \<Longrightarrow> \<exists>xs. ps_Load ps n w = (w, Inr xs) \<and> set xs = recorded w n"
    and start_spec: "healthy w \<Longrightarrow> healthy (fst (ps_Start ps n s w))
      \<and> recorded (fst (ps_Start ps n s w)) = recorded w"
    and save_spec: "healthy w \<Longrightarrow> healthy (fst (ps_Save ps n s w))
      \<and> recorded (fst (ps_Save ps n s w)) = (recorded w)(n := insert s (recorded w n))"
    and fail_spec: "healthy w \<Longrightarrow> healthy (fst (ps_Fail ps n s w))
      \<and> recorded (fst (ps_Fail ps n s w)) = (recorded w)(n := recorded w n - {s})"
    and delete_spec: "healthy w \<Longrightarrow> healthy (fst (ps_Delete ps n w))
      \<and> recorded (fst (ps_Delete ps n w)) = (recorded w)(n := {})"
begin

lemma transparent_attempts:
  assumes "transparent recorded healthy step" "healthy w"
  shows "healthy (fst (attempt_loop k (st_Do step) c le w))
    \<and> recorded (fst (attempt_loop k (st_Do step) c le w)) = recorded w"
  using assms(2)
proof (induction k arbitrary: le w)
  case 0
  then show ?case by simp
next
  case (Suc k)
  obtain u r where du: "st_Do step c w = (u, r)" by (cases "st_Do step c w")
  then have "healthy u \<and> recorded u = recorded w"
    using assms(1) Suc.prems unfolding transparent_def by (metis fst_conv)
  then show ?case using Suc.IH du by (cases r) auto
qed

lemma transparent_execute:
  "transparent recorded healthy step \<Longrightarrow> healthy w \<Longrightarrow> executeStep c step w = (w', r)
   \<Longrightarrow> healthy w' \<and> recorded w' = recorded w"
  using transparent_attempts unfolding executeStep_def Let_def by (metis fst_conv)

text \<open>Along a run that has not failed, memory and storage hold the same completed steps.\<close>

lemma run_loop_recorded:
  assumes "run_loop ctx i xs p w = (p', w', None)" "pl_Persist p = Some ps" "healthy w"
    "\<forall>s \<in> set xs. transparent recorded healthy s" "pl_Completed p = recorded w (pl_Name p)"
  shows "healthy w' \<and> pl_Completed p' = recorded w' (pl_Name p)"
  using assms
proof (induction xs arbitrary: i p w)
  case Nil
  then show ?case by simp
next
  case (Cons s xs)
  show ?case
  proof (cases "st_Name s \<in> pl_Completed p")
    case True
    then show ?thesis using Cons by auto
  next
    case False
    let ?w1 = "fst (ps_Start ps (pl_Name p) (st_Name s) w)"
    have w1: "healthy ?w1" "recorded ?w1 = recorded w" using start_spec Cons.prems(3) by blast+
    obtain w2 r where ex: "executeStep ctx s ?w1 = (w2, r)" by (cases "executeStep ctx s ?w1")
    have w2: "healthy w2" "recorded w2 = recorded w"
      using transparent_execute [OF _ w1(1) ex] Cons.prems(4) w1 by auto
    let ?p = "p\<lparr>pl_Completed := insert (st_Name s) (pl_Completed p)\<rparr>"
    let ?w3 = "fst (ps_Save ps (pl_Name p) (st_Name s) w2)"
    have w3: "healthy ?w3" "recorded ?w3 (pl_Name p) = insert (st_Name s) (recorded w (pl_Name p))"
      using save_spec [OF w2(1), of "pl_Name p" "st_Name s"] w2 by auto
    have "run_loop ctx (Suc i) xs ?p ?w3 = (p', w', None)"
      using Cons.prems(1,2) False ex
      by (auto simp: Let_def persist_call_def split: option.splits prod.splits)
    then show ?thesis using Cons.IH [of "Suc i" ?p ?w3] Cons.prems w3 by auto
  qed
qed

text \<open>
  A process that stops after the steps \<open>xs\<close> and starts again with the same steps goes on as
  if it had not stopped.
\<close>

lemma resume_after_crash:
  assumes run: "run_loop ctx 0 xs p w = (p1, w1, None)"
    and p: "pl_Persist p = Some ps" "pl_Steps p = xs @ ys" "pl_Completed p = recorded w (pl_Name p)"
    and h: "healthy w" "\<forall>s \<in> set xs. transparent recorded healthy s"
  shows "\<exists>q. NewPipeline (pl_Name p) (Some ps) w1 = (q, w1)
    \<and> Run ctx (q\<lparr>pl_Steps := xs @ ys\<rparr>) w1 = Run ctx p w"
proof -
  have rec: "healthy w1" "pl_Completed p1 = recorded w1 (pl_Name p)"
    using run_loop_recorded [OF run p(1) h(1,2) p(3)] by auto
  obtain zs where zs: "ps_Load ps (pl_Name p) w1 = (w1, Inr zs)" "set zs = recorded w1 (pl_Name p)"
    using load_spec [OF rec(1)] by blast
  let ?q = "\<lparr>pl_Name = pl_Name p, pl_Steps = [], pl_Completed = set zs, pl_Persist = Some ps\<rparr>"
  have new: "NewPipeline (pl_Name p) (Some ps) w1 = (?q, w1)"
    using zs by (simp add: NewPipeline_def Let_def)
  have "?q\<lparr>pl_Steps := xs @ ys\<rparr> = p1"
    using run_loop_frame [OF run] p rec zs by (intro Pipeline.equality) auto
  moreover have "Run ctx p w = run_loop ctx (length xs) ys p1 w1"
    using run p(2) by (simp add: Run_def run_loop_append)
  moreover have "Run ctx p1 w1 = run_loop ctx (length xs) ys p1 w1"
    using run_loop_frame [OF run] run_loop_ok_completed [OF run] p(2)
    by (simp add: Run_def run_loop_skip_prefix)
  ultimately show ?thesis using new by metis
qed

end

section \<open>Properties\<close>

text \<open>
  C3: a run is all or nothing. If every step compensates (its undo function takes back what
  its success did, a failed attempt changes nothing) and none of them is already completed,
  a run that returns an error leaves the observed state as it found it, whatever step failed,
  however many attempts it made and whatever the persister recorded in between.
\<close>

theorem Run_atomic:
  assumes "Run ctx p w = (p', w', Some e)"
    and "\<forall>s \<in> set (pl_Steps p). compensates view s" and "pipeline_keeps view p"
    and "distinct (map st_Name (pl_Steps p))"
    and "pl_Completed p \<inter> st_Name ` set (pl_Steps p) = {}"
  shows "view w' = view w"
  using run_loop_atomic [of ctx "[]" "pl_Steps p" p w p' w' e view w] assms
    prefix_undoes_Nil [of view ctx w]
  by (simp add: Run_def)

text \<open>A pipeline over a counter: two steps that add and take back, and one that fails.\<close>

definition add_step :: "string \<Rightarrow> int \<Rightarrow> int Step" where
  "add_step n k = \<lparr>st_Name = n, st_Do = (\<lambda>c w. (w + k, None)),
     st_Undo = Some (\<lambda>c w. (w - k, None)), st_Retry = 0, st_Timeout = 0\<rparr>"

definition fail_step :: "string \<Rightarrow> go_error \<Rightarrow> int \<Rightarrow> int Step" where
  "fail_step n e r = \<lparr>st_Name = n, st_Do = (\<lambda>c w. (w, Some e)), st_Undo = None,
     st_Retry = r, st_Timeout = 0\<rparr>"

definition sample_pipeline :: "int Pipeline" where
  "sample_pipeline = \<lparr>pl_Name = ''p'', pl_Steps =
     [add_step ''a'' 2, add_step ''b'' 3, fail_step ''c'' ErrClusterExists 1],
     pl_Completed = {}, pl_Persist = None\<rparr>"

lemmas sample_defs = sample_pipeline_def add_step_def fail_step_def

lemma sample_run:
  "Run Background sample_pipeline 10 =
     (sample_pipeline, 10,
      Some (ErrorfW ''pipeline step'' (ErrorfW ''after attempts'' ErrClusterExists)))"
  by (simp add: sample_defs Run_def executeStep_def persist_call_def rollback_def
      numeral_2_eq_2 insert_Diff_if)

theorem Run_atomic_witness:
  "\<exists>e. snd (snd (Run Background sample_pipeline 10)) = Some e
    \<and> id (fst (snd (Run Background sample_pipeline 10))) = id 10"
  using Run_atomic [of Background sample_pipeline 10 _ _ _ id, OF sample_run] sample_run
  by (simp add: sample_pipeline_def compensates_def add_step_def fail_step_def undo_of_def
      pipeline_keeps_def)

text \<open>
  C31: a step succeeds exactly when one of its first \<^verbatim>\<open>Retry + 1\<close> attempts does: the attempts
  before it fail, each on the state the previous one left, and the result is the state of the
  successful attempt.
\<close>

theorem executeStep_success_iff:
  assumes "0 \<le> st_Retry step" and "st_Timeout step \<le> 0"
  shows "executeStep ctx step w = (w', None) \<longleftrightarrow>
    (\<exists>k \<le> nat (st_Retry step).
       (\<forall>j < k. snd (st_Do step ctx (after_failures (st_Do step) ctx j w)) \<noteq> None)
       \<and> st_Do step ctx (after_failures (st_Do step) ctx k w) = (w', None))"
proof -
  have "nat (st_Retry step + 1) = Suc (nat (st_Retry step))" using assms(1) by simp
  then show ?thesis using assms(2)
    by (simp add: executeStep_def Let_def attempt_loop_None_iff less_Suc_eq_le
        del: attempt_loop.simps)
qed

definition flaky_step :: "int Step" where
  "flaky_step = \<lparr>st_Name = ''f'', st_Do = (\<lambda>c w. (w + 1, if w < 1 then Some ContextError else None)),
     st_Undo = None, st_Retry = 1, st_Timeout = 0\<rparr>"

theorem executeStep_success_iff_witness: "executeStep Background flaky_step 0 = (2, None)"
proof -
  have "(\<exists>k \<le> nat (st_Retry flaky_step).
       (\<forall>j < k. snd (st_Do flaky_step Background
          (after_failures (st_Do flaky_step) Background j 0)) \<noteq> None)
       \<and> st_Do flaky_step Background (after_failures (st_Do flaky_step) Background k 0) = (2, None))"
    by (intro exI [of _ 1]) (simp add: flaky_step_def after_failures_def)
  then show ?thesis
    using executeStep_success_iff [of flaky_step Background 0 2] by (simp add: flaky_step_def)
qed

text \<open>
  the error of a failed run is the error of a step's own action under two \<^verbatim>\<open>%w\<close>
  wrappers, so every sentinel the action reported is still found by \<^verbatim>\<open>errors.Is\<close>.
\<close>

theorem Run_error_is:
  assumes "Run ctx p w = (p', w', Some e)" and "\<forall>s \<in> set (pl_Steps p). 0 \<le> st_Retry s"
  shows "\<exists>s \<in> set (pl_Steps p). \<exists>c u u' err. st_Do s c u = (u', Some err)
    \<and> (\<forall>t. errors_Is err t \<longrightarrow> errors_Is e t)"
  using run_loop_error_wraps [of ctx 0 "pl_Steps p" p w p' w' e] assms
  unfolding Run_def by fastforce

theorem Run_error_is_witness:
  "\<exists>s \<in> set (pl_Steps sample_pipeline). \<exists>c u u' err. st_Do s c u = (u', Some err)"
  using Run_error_is [OF sample_run] by (auto simp: sample_defs)

text \<open>
  after a failed run the completed steps are those that were completed before or that ran
  before the failing one, less the ones among them that have an undo function: the rollback
  keeps a step without undo function marked as completed.
\<close>

theorem Run_failure_completed:
  assumes "Run ctx p w = (p', w', Some e)"
  shows "\<exists>k < length (pl_Steps p). pl_Completed p' =
    (pl_Completed p \<union> st_Name ` set (take k (pl_Steps p)))
    - st_Name ` {s \<in> set (take k (pl_Steps p)). undoable s}"
  using run_loop_fail_completed [of ctx 0 "pl_Steps p" p w p' w' e] assms by (simp add: Run_def)

definition keep_step :: "string \<Rightarrow> int Step" where
  "keep_step n = \<lparr>st_Name = n, st_Do = (\<lambda>c w. (w, None)), st_Undo = None, st_Retry = 0,
     st_Timeout = 0\<rparr>"

definition partial_pipeline :: "int Pipeline" where
  "partial_pipeline = \<lparr>pl_Name = ''p'', pl_Steps =
     [add_step ''a'' 2, keep_step ''b'', fail_step ''c'' ContextError 0],
     pl_Completed = {}, pl_Persist = None\<rparr>"

lemma partial_run:
  "Run Background partial_pipeline 10 =
     (partial_pipeline\<lparr>pl_Completed := {''b''}\<rparr>, 10,
      Some (ErrorfW ''pipeline step'' (ErrorfW ''after attempts'' ContextError)))"
  by (simp add: partial_pipeline_def keep_step_def add_step_def fail_step_def Run_def
      executeStep_def persist_call_def rollback_def numeral_2_eq_2 insert_Diff_if)

theorem Run_failure_completed_witness:
  "\<exists>k < 3. {''b''} = st_Name ` set (take k (pl_Steps partial_pipeline))
     - st_Name ` {s \<in> set (take k (pl_Steps partial_pipeline)). undoable s}"
  using Run_failure_completed [OF partial_run] by (simp add: partial_pipeline_def numeral_3_eq_3)

end
