(* ===== verification/Store.thy ===== *)
theory Store
  imports Node_Data Pipeline
begin

text \<open>
  The package \<^verbatim>\<open>cluster/data/store\<close>: the SQLite database with the four tables of its schema.
  A table is the list of its rows in rowid order, each statement of the code is a function on
  the tables, and \<^verbatim>\<open>UNIQUE\<close> constraints with \<^verbatim>\<open>ON CONFLICT\<close> are the upserts below.

  The database engine is external. It enters the model in two ways: \<^verbatim>\<open>db_faults\<close> is the
  sequence of outcomes of the next statements (an error, or none), so every statement can fail
  at any moment and a failed statement changes nothing; \<^verbatim>\<open>db_now\<close> is the formatted time. A query
  that succeeds delivers all its rows, and rows that an \<^verbatim>\<open>ORDER BY\<close> does not separate come in rowid
  order. The record is extensible, so the operations also apply to a state that holds a
  database among other things.
\<close>

section \<open>Tables\<close>

record cluster_row =
  cl_id :: nat
  cl_rec :: ClusterRecord

record container_row =
  cnt_id :: nat
  cnt_rec :: ContainerRecord
  cnt_created_at :: string

record operation_row =
  op_id :: nat
  op_cluster_name :: string
  op_operation :: string
  op_detail :: string
  op_success :: int
  op_created_at :: string

datatype run_status = RunRunning | RunCompleted | RunFailed

record run_row =
  pr_id :: nat
  pr_pipeline_name :: string
  pr_step_name :: string
  pr_status :: run_status
  pr_started_at :: string
  pr_finished_at :: "string option"

record Store =
  db_clusters :: "cluster_row list"
  db_containers :: "container_row list"
  db_operations :: "operation_row list"
  db_runs :: "run_row list"
  db_cluster_seq :: nat
  db_container_seq :: nat
  db_operation_seq :: nat
  db_run_seq :: nat
  db_created :: bool
  db_has_hostname :: bool
  db_faults :: "go_err list"
  db_now :: string

section \<open>Statements\<close>

text \<open>One \<^verbatim>\<open>Exec\<close>: the next outcome decides whether the statement takes effect.\<close>

definition db_exec ::
  "('a Store_scheme \<Rightarrow> 'a Store_scheme) \<Rightarrow> 'a Store_scheme \<Rightarrow> 'a Store_scheme \<times> go_err" where
  "db_exec f db =
     (case db_faults db of
        [] \<Rightarrow> (f db, None)
      | o1 # os \<Rightarrow>
          (case o1 of
             None \<Rightarrow> (f (db\<lparr>db_faults := os\<rparr>), None)
           | Some e \<Rightarrow> (db\<lparr>db_faults := os\<rparr>, Some e)))"

text \<open>One \<^verbatim>\<open>Query\<close> with the scan of its rows.\<close>

definition db_query :: "('a Store_scheme \<Rightarrow> 'b) \<Rightarrow> 'a Store_scheme \<Rightarrow> 'a Store_scheme \<times> 'b go_result" where
  "db_query q db =
     (case db_exec id db of (db', None) \<Rightarrow> (db', Inr (q db')) | (db', Some e) \<Rightarrow> (db', Inl e))"

text \<open>
  \<^verbatim>\<open>INSERT ... ON CONFLICT (key) DO UPDATE\<close> on the rows of a table: the rows with the key are
  updated, and if there are none the new row is appended.
\<close>

definition has_key :: "('r \<Rightarrow> 'k) \<Rightarrow> 'k \<Rightarrow> 'r list \<Rightarrow> bool" where
  "has_key key k rows = (k \<in> key ` set rows)"

definition upsert_rows :: "('r \<Rightarrow> 'k) \<Rightarrow> 'k \<Rightarrow> ('r \<Rightarrow> 'r) \<Rightarrow> 'r \<Rightarrow> 'r list \<Rightarrow> 'r list" where
  "upsert_rows key k upd new rows =
     (if has_key key k rows then map (\<lambda>r. if key r = k then upd r else r) rows else rows @ [new])"

text \<open>The \<^verbatim>\<open>AUTOINCREMENT\<close> counter of the table moves when a row is appended.\<close>

definition upsert_seq :: "('r \<Rightarrow> 'k) \<Rightarrow> 'k \<Rightarrow> 'r list \<Rightarrow> nat \<Rightarrow> nat" where
  "upsert_seq key k rows n = (if has_key key k rows then n else Suc n)"

section \<open>Schema\<close>

text \<open>
  \<^verbatim>\<open>migrate\<close>: create the tables if they are missing, then add the hostname column to a
  database from before it. The column's default is the
  empty string. An error of the column query is ignored.
\<close>

definition create_tables :: "'a Store_scheme \<Rightarrow> 'a Store_scheme" where
  "create_tables db =
     (if db_created db then db
      else db\<lparr>db_clusters := [], db_containers := [], db_operations := [], db_runs := [],
              db_cluster_seq := 1, db_container_seq := 1, db_operation_seq := 1, db_run_seq := 1,
              db_created := True, db_has_hostname := True\<rparr>)"

definition add_hostname_column :: "'a Store_scheme \<Rightarrow> 'a Store_scheme" where
  "add_hostname_column db =
     db\<lparr>db_has_hostname := True,
        db_containers := map (\<lambda>r. r\<lparr>cnt_rec := (cnt_rec r)\<lparr>ct_Hostname := []\<rparr>\<rparr>) (db_containers db)\<rparr>"

definition migrate :: "'a Store_scheme \<Rightarrow> 'a Store_scheme \<times> go_err" where
  "migrate db =
     (case db_exec create_tables db of
        (db1, Some e) \<Rightarrow> (db1, Some e)
      | (db1, None) \<Rightarrow>
          (case db_query db_has_hostname db1 of
             (db2, Inr False) \<Rightarrow>
               (case db_exec add_hostname_column db2 of
                  (db3, Some e) \<Rightarrow> (db3, Some (ErrorfW ''add hostname column'' e))
                | (db3, None) \<Rightarrow> (db3, None))
           | (db2, _) \<Rightarrow> (db2, None)))"

text \<open>\<^verbatim>\<open>OpenStore\<close>: the driver's own open consumes one outcome as well.\<close>

definition OpenStore :: "'a Store_scheme \<Rightarrow> 'a Store_scheme \<times> go_err" where
  "OpenStore db =
     (case db_exec id db of
        (db1, Some e) \<Rightarrow> (db1, Some (ErrorfW ''open sqlite'' e))
      | (db1, None) \<Rightarrow>
          (case migrate db1 of
             (db2, Some e) \<Rightarrow> (db2, Some (ErrorfW ''migrate'' e))
           | (db2, None) \<Rightarrow> (db2, None)))"

section \<open>Clusters\<close>

definition cluster_key :: "cluster_row \<Rightarrow> string" where
  "cluster_key r = cr_Name (cl_rec r)"

definition cluster_conflict :: "ClusterRecord \<Rightarrow> cluster_row \<Rightarrow> cluster_row" where
  "cluster_conflict c r =
     r\<lparr>cl_rec := (cl_rec r)\<lparr>cr_Shards := cr_Shards c, cr_NodesPerShard := cr_NodesPerShard c,
         cr_RedisPort := cr_RedisPort c, cr_Image := cr_Image c, cr_Status := cr_Status c,
         cr_UpdatedAt := cr_UpdatedAt c\<rparr>\<rparr>"

definition upsert_cluster :: "ClusterRecord \<Rightarrow> 'a Store_scheme \<Rightarrow> 'a Store_scheme" where
  "upsert_cluster c db =
     db\<lparr>db_clusters := upsert_rows cluster_key (cr_Name c) (cluster_conflict c)
          \<lparr>cl_id = db_cluster_seq db, cl_rec = c\<rparr> (db_clusters db),
        db_cluster_seq := upsert_seq cluster_key (cr_Name c) (db_clusters db) (db_cluster_seq db)\<rparr>"

definition UpsertCluster :: "ClusterRecord \<Rightarrow> 'a Store_scheme \<Rightarrow> 'a Store_scheme \<times> go_err" where
  "UpsertCluster c db =
     (let now = db_now db;
          c' = c\<lparr>cr_CreatedAt := (if cr_CreatedAt c = [] then now else cr_CreatedAt c),
                 cr_UpdatedAt := now\<rparr>
      in db_exec (upsert_cluster c') db)"

definition UpdateClusterStatus :: "string \<Rightarrow> string \<Rightarrow> 'a Store_scheme \<Rightarrow> 'a Store_scheme \<times> go_err" where
  "UpdateClusterStatus name status db =
     db_exec (\<lambda>d. d\<lparr>db_clusters := map (\<lambda>r.
         if cr_Name (cl_rec r) = name then
           r\<lparr>cl_rec := (cl_rec r)\<lparr>cr_Status := status, cr_UpdatedAt := db_now db\<rparr>\<rparr>
         else r) (db_clusters d)\<rparr>) db"

definition GetCluster :: "string \<Rightarrow> 'a Store_scheme \<Rightarrow> 'a Store_scheme \<times> ClusterRecord option go_result" where
  "GetCluster name db =
     db_query (\<lambda>d. List.find (\<lambda>c. cr_Name c = name) (map cl_rec (db_clusters d))) db"

definition ListClusters :: "'a Store_scheme \<Rightarrow> 'a Store_scheme \<times> ClusterRecord list go_result" where
  "ListClusters db = db_query (\<lambda>d. sort_key cr_Name (map cl_rec (db_clusters d))) db"

definition DeleteCluster :: "string \<Rightarrow> 'a Store_scheme \<Rightarrow> 'a Store_scheme \<times> go_err" where
  "DeleteCluster name db =
     (case db_exec (\<lambda>d. d\<lparr>db_containers :=
              filter (\<lambda>r. ct_ClusterName (cnt_rec r) \<noteq> name) (db_containers d)\<rparr>) db of
        (db1, Some e) \<Rightarrow> (db1, Some e)
      | (db1, None) \<Rightarrow>
          db_exec (\<lambda>d. d\<lparr>db_clusters :=
              filter (\<lambda>r. cr_Name (cl_rec r) \<noteq> name) (db_clusters d)\<rparr>) db1)"

section \<open>Containers\<close>

definition container_key :: "container_row \<Rightarrow> string \<times> string" where
  "container_key r = (ct_ClusterName (cnt_rec r), ct_Name (cnt_rec r))"

definition container_conflict :: "ContainerRecord \<Rightarrow> container_row \<Rightarrow> container_row" where
  "container_conflict c r =
     r\<lparr>cnt_rec := (cnt_rec r)\<lparr>ct_ContainerID := ct_ContainerID c, ct_HostIP := ct_HostIP c,
         ct_HostPort := ct_HostPort c, ct_ContainerIP := ct_ContainerIP c,
         ct_ContainerPort := ct_ContainerPort c, ct_NodeIndex := ct_NodeIndex c,
         ct_Role := ct_Role c, ct_Status := ct_Status c, ct_Hostname := ct_Hostname c\<rparr>\<rparr>"

definition upsert_container ::
  "ContainerRecord \<Rightarrow> string \<Rightarrow> 'a Store_scheme \<Rightarrow> 'a Store_scheme" where
  "upsert_container c now db =
     (let k = (ct_ClusterName c, ct_Name c)
      in db\<lparr>db_containers := upsert_rows container_key k (container_conflict c)
              \<lparr>cnt_id = db_container_seq db, cnt_rec = c, cnt_created_at = now\<rparr> (db_containers db),
            db_container_seq := upsert_seq container_key k (db_containers db) (db_container_seq db)\<rparr>)"

definition UpsertContainer :: "ContainerRecord \<Rightarrow> 'a Store_scheme \<Rightarrow> 'a Store_scheme \<times> go_err" where
  "UpsertContainer c db = db_exec (upsert_container c (db_now db)) db"

definition ListContainersByCluster ::
  "string \<Rightarrow> 'a Store_scheme \<Rightarrow> 'a Store_scheme \<times> ContainerRecord list go_result" where
  "ListContainersByCluster clusterName db =
     db_query (\<lambda>d. sort_key ct_NodeIndex
       (filter (\<lambda>c. ct_ClusterName c = clusterName) (map cnt_rec (db_containers d)))) db"

section \<open>Operations log\<close>

definition LogOperation ::
  "string \<Rightarrow> string \<Rightarrow> string \<Rightarrow> bool \<Rightarrow> 'a Store_scheme \<Rightarrow> 'a Store_scheme \<times> go_err" where
  "LogOperation clusterName operation detail success db =
     db_exec (\<lambda>d. d\<lparr>db_operations := db_operations d @
         [\<lparr>op_id = db_operation_seq d, op_cluster_name = clusterName, op_operation = operation,
           op_detail = detail, op_success = (if success then 1 else 0),
           op_created_at = db_now db\<rparr>],
         db_operation_seq := Suc (db_operation_seq d)\<rparr>) db"

text \<open>The map that \<^verbatim>\<open>ListOperations\<close> builds from one row.\<close>

definition operation_view :: "operation_row \<Rightarrow> (string, string) gomap" where
  "operation_view r = [(''operation'', op_operation r), (''detail'', op_detail r),
     (''success'', if op_success r = 1 then ''true'' else ''false''),
     (''created_at'', op_created_at r)]"

definition ListOperations :: "string \<Rightarrow> 'a Store_scheme \<Rightarrow> 'a Store_scheme \<times> (string, string) gomap list go_result" where
  "ListOperations clusterName db =
     db_query (\<lambda>d. map operation_view (take 50 (rev (sort_key op_id
       (filter (\<lambda>r. op_cluster_name r = clusterName) (db_operations d)))))) db"

section \<open>Pipeline runs\<close>

definition run_key :: "run_row \<Rightarrow> string \<times> string" where
  "run_key r = (pr_pipeline_name r, pr_step_name r)"

definition upsert_run ::
  "run_row \<Rightarrow> (run_row \<Rightarrow> run_row) \<Rightarrow> 'a Store_scheme \<Rightarrow> 'a Store_scheme" where
  "upsert_run new upd db =
     db\<lparr>db_runs := upsert_rows run_key (run_key new) upd new (db_runs db),
        db_run_seq := upsert_seq run_key (run_key new) (db_runs db) (db_run_seq db)\<rparr>"

definition SavePipelineStep ::
  "string \<Rightarrow> string \<Rightarrow> 'a Store_scheme \<Rightarrow> 'a Store_scheme \<times> go_err" where
  "SavePipelineStep pipelineName stepName db =
     (let now = db_now db in
      db_exec (\<lambda>d. upsert_run \<lparr>pr_id = db_run_seq d, pr_pipeline_name = pipelineName,
          pr_step_name = stepName, pr_status = RunCompleted, pr_started_at = now,
          pr_finished_at = None\<rparr>
        (\<lambda>r. r\<lparr>pr_status := RunCompleted, pr_finished_at := Some now\<rparr>) d) db)"

text \<open>\<^verbatim>\<open>INSERT OR IGNORE\<close> is an upsert whose update does nothing.\<close>

definition StartPipelineStep ::
  "string \<Rightarrow> string \<Rightarrow> 'a Store_scheme \<Rightarrow> 'a Store_scheme \<times> go_err" where
  "StartPipelineStep pipelineName stepName db =
     (let now = db_now db in
      db_exec (\<lambda>d. upsert_run \<lparr>pr_id = db_run_seq d, pr_pipeline_name = pipelineName,
          pr_step_name = stepName, pr_status = RunRunning, pr_started_at = now,
          pr_finished_at = None\<rparr>
        (\<lambda>r. r) d) db)"

definition FailPipelineStep ::
  "string \<Rightarrow> string \<Rightarrow> 'a Store_scheme \<Rightarrow> 'a Store_scheme \<times> go_err" where
  "FailPipelineStep pipelineName stepName db =
     (let now = db_now db in
      db_exec (\<lambda>d. upsert_run \<lparr>pr_id = db_run_seq d, pr_pipeline_name = pipelineName,
          pr_step_name = stepName, pr_status = RunFailed, pr_started_at = now,
          pr_finished_at = Some now\<rparr>
        (\<lambda>r. r\<lparr>pr_status := RunFailed, pr_finished_at := Some now\<rparr>) d) db)"

definition LoadPipelineSteps :: "string \<Rightarrow> 'a Store_scheme \<Rightarrow> 'a Store_scheme \<times> string list go_result" where
  "LoadPipelineSteps pipelineName db =
     db_query (\<lambda>d. map pr_step_name (filter (\<lambda>r. pr_pipeline_name r = pipelineName
       \<and> pr_status r = RunCompleted) (db_runs d))) db"

definition DeletePipeline :: "string \<Rightarrow> 'a Store_scheme \<Rightarrow> 'a Store_scheme \<times> go_err" where
  "DeletePipeline pipelineName db =
     db_exec (\<lambda>d. d\<lparr>db_runs := filter (\<lambda>r. pr_pipeline_name r \<noteq> pipelineName) (db_runs d)\<rparr>) db"

text \<open>The store as the pipeline's persister.\<close>

definition store_persister :: "'a Store_scheme Persister" where
  "store_persister = \<lparr>ps_Save = SavePipelineStep, ps_Start = StartPipelineStep,
     ps_Fail = FailPipelineStep, ps_Load = LoadPipelineSteps, ps_Delete = DeletePipeline\<rparr>"

section \<open>Facts about statements and upserts\<close>

lemma db_exec_cases:
  obtains (executed) d where "db_exec f db = (f d, None)" "d = db\<lparr>db_faults := tl (db_faults db)\<rparr>"
  | (failed) e where "db_exec f db = (db\<lparr>db_faults := tl (db_faults db)\<rparr>, Some e)"
      "db_faults db \<noteq> []"
  unfolding db_exec_def by (cases "db_faults db"; cases "hd (db_faults db)") fastforce+

lemma db_exec_healthy: "db_faults db = [] \<Longrightarrow> db_exec f db = (f db, None)"
  by (simp add: db_exec_def)

lemma db_query_healthy: "db_faults db = [] \<Longrightarrow> db_query q db = (db, Inr (q db))"
  by (simp add: db_query_def db_exec_healthy)

lemma upsert_rows_keys:
  assumes "\<And>r. key (upd r) = key r" "key new = k"
  shows "map key (upsert_rows key k upd new rows) =
    (if has_key key k rows then map key rows else map key rows @ [k])"
  using assms by (auto simp: upsert_rows_def)

lemma upsert_rows_distinct:
  assumes "\<And>r. key (upd r) = key r" "key new = k" "distinct (map key rows)"
  shows "distinct (map key (upsert_rows key k upd new rows))"
  using assms(3) unfolding upsert_rows_keys [of key upd new k rows, OF assms(1,2)]
  by (auto simp: has_key_def)

lemma upsert_rows_other:
  assumes "\<And>r. key (upd r) = key r" "key new = k" "k' \<noteq> k"
  shows "filter (\<lambda>r. key r = k') (upsert_rows key k upd new rows) = filter (\<lambda>r. key r = k') rows"
proof -
  have "filter (\<lambda>r. key r = k') (map (\<lambda>r. if key r = k then upd r else r) rows)
      = filter (\<lambda>r. key r = k') rows"
    using assms(1,3) by (induction rows) auto
  then show ?thesis using assms(2,3) by (simp add: upsert_rows_def)
qed

lemma filter_key_unique:
  "distinct (map key rows) \<Longrightarrow> r \<in> set rows \<Longrightarrow> filter (\<lambda>x. key x = key r) rows = [r]"
proof (induction rows)
  case (Cons a rows)
  have "r = a \<Longrightarrow> filter (\<lambda>x. key x = key r) rows = []"
    using Cons.prems(1) by (auto simp: filter_empty_conv) (metis image_eqI)
  then show ?case using Cons by auto
qed simp

lemma upsert_rows_same:
  assumes "\<And>r. key (upd r) = key r" "key new = k" "distinct (map key rows)"
  shows "filter (\<lambda>r. key r = k) (upsert_rows key k upd new rows) =
    (case filter (\<lambda>r. key r = k) rows of [] \<Rightarrow> [new] | r # _ \<Rightarrow> [upd r])"
proof (cases "has_key key k rows")
  case True
  then obtain r where r: "r \<in> set rows" "k = key r" by (auto simp: has_key_def)
  have "filter (\<lambda>x. key x = k) (map (\<lambda>x. if key x = k then upd x else x) rows)
      = map upd (filter (\<lambda>x. key x = k) rows)"
    using assms(1) by (induction rows) auto
  then show ?thesis using True r filter_key_unique [OF assms(3) r(1)] by (simp add: upsert_rows_def)
next
  case False
  then have "filter (\<lambda>x. key x = k) rows = []" by (auto simp: has_key_def filter_empty_conv)
  then show ?thesis using False assms(2) by (simp add: upsert_rows_def)
qed

lemma find_filter: "List.find P xs = (case filter P xs of [] \<Rightarrow> None | x # _ \<Rightarrow> Some x)"
  by (induction xs) auto

lemma cluster_key_conflict [simp]: "cluster_key (cluster_conflict c r) = cluster_key r"
  by (simp add: cluster_key_def cluster_conflict_def)

lemma cluster_key_new [simp]: "cluster_key \<lparr>cl_id = i, cl_rec = c\<rparr> = cr_Name c"
  by (simp add: cluster_key_def)

lemma container_key_new [simp]:
  "container_key \<lparr>cnt_id = i, cnt_rec = c, cnt_created_at = t\<rparr> = (ct_ClusterName c, ct_Name c)"
  by (simp add: container_key_def)

lemma container_key_conflict [simp]: "container_key (container_conflict c r) = container_key r"
  by (simp add: container_key_def container_conflict_def)

section \<open>The invariant of the tables\<close>

text \<open>The unique constraints, and the operations table in the order of its ids.\<close>

definition store_wf :: "'a Store_scheme \<Rightarrow> bool" where
  "store_wf db = (db_created db \<longrightarrow>
     distinct (map cluster_key (db_clusters db))
     \<and> distinct (map container_key (db_containers db))
     \<and> distinct (map run_key (db_runs db))
     \<and> sorted (map op_id (db_operations db)) \<and> distinct (map op_id (db_operations db))
     \<and> (\<forall>r \<in> set (db_operations db). op_id r < db_operation_seq db))"

lemma store_wf_faults [simp]: "store_wf (db\<lparr>db_faults := fs\<rparr>) = store_wf db"
  by (simp add: store_wf_def)

lemma db_exec_wf:
  assumes "store_wf db" "\<And>d. store_wf d \<Longrightarrow> store_wf (f d)"
  shows "store_wf (fst (db_exec f db))"
  using assms by (cases rule: db_exec_cases [of f db]) auto

lemma db_query_wf: "store_wf db \<Longrightarrow> store_wf (fst (db_query q db))"
  using db_exec_wf [of db id] by (auto simp: db_query_def split: prod.splits option.splits)

lemma create_tables_wf: "store_wf db \<Longrightarrow> store_wf (create_tables db)"
  by (simp add: create_tables_def store_wf_def)

lemma add_hostname_column_wf: "store_wf db \<Longrightarrow> store_wf (add_hostname_column db)"
  by (simp add: add_hostname_column_def store_wf_def comp_def container_key_def [abs_def])

lemma migrate_wf:
  assumes wf: "store_wf db"
  shows "store_wf (fst (migrate db))"
proof -
  obtain d1 r1 where 1: "db_exec create_tables db = (d1, r1)" by fastforce
  obtain d2 r2 where 2: "db_query db_has_hostname d1 = (d2, r2)" by fastforce
  obtain d3 r3 where 3: "db_exec add_hostname_column d2 = (d3, r3)" by fastforce
  have "store_wf d1" using db_exec_wf [of db create_tables, OF wf create_tables_wf] 1 by simp
  moreover from this have "store_wf d2" using db_query_wf [of d1 db_has_hostname] 2 by simp
  moreover from this have "store_wf d3"
    using db_exec_wf [of d2 add_hostname_column] add_hostname_column_wf 3 by fastforce
  moreover have "fst (migrate db) \<in> {d1, d2, d3}"
    using 1 2 3 by (simp add: migrate_def split: option.split sum.split bool.split)
  ultimately show ?thesis by auto
qed

lemma OpenStore_wf: "store_wf db \<Longrightarrow> store_wf (fst (OpenStore db))"
  using db_exec_wf [of db id] migrate_wf [of "fst (db_exec id db)"]
  by (auto simp: OpenStore_def split: prod.splits option.splits)

lemma UpsertCluster_wf: "store_wf db \<Longrightarrow> store_wf (fst (UpsertCluster c db))"
  unfolding UpsertCluster_def Let_def
  by (erule db_exec_wf) (auto simp: store_wf_def upsert_cluster_def intro!: upsert_rows_distinct)

lemma map_if_cong: "(\<And>r. key (upd r) = key r) \<Longrightarrow>
    map key (map (\<lambda>r. if P r then upd r else r) rows) = map key rows"
  by (induction rows) auto

lemma UpdateClusterStatus_wf: "store_wf db \<Longrightarrow> store_wf (fst (UpdateClusterStatus n s db))"
  unfolding UpdateClusterStatus_def
  by (erule db_exec_wf)
    (simp_all add: store_wf_def map_if_cong cluster_key_def del: map_map)

lemma DeleteCluster_wf: "store_wf db \<Longrightarrow> store_wf (fst (DeleteCluster n db))"
proof -
  let ?f = "\<lambda>d. d\<lparr>db_containers := filter (\<lambda>r. ct_ClusterName (cnt_rec r) \<noteq> n) (db_containers d)\<rparr>"
  assume "store_wf db"
  then have 1: "store_wf (fst (db_exec ?f db))" by (rule db_exec_wf) (auto simp: store_wf_def)
  then have "store_wf (fst (db_exec (\<lambda>d. d\<lparr>db_clusters :=
      filter (\<lambda>r. cr_Name (cl_rec r) \<noteq> n) (db_clusters d)\<rparr>) (fst (db_exec ?f db))))"
    by (rule db_exec_wf) (auto simp: store_wf_def)
  then show ?thesis using 1 by (auto simp: DeleteCluster_def split: prod.splits option.splits)
qed

lemma UpsertContainer_wf: "store_wf db \<Longrightarrow> store_wf (fst (UpsertContainer c db))"
  unfolding UpsertContainer_def
  by (erule db_exec_wf)
    (auto simp: store_wf_def upsert_container_def Let_def intro!: upsert_rows_distinct)

lemma LogOperation_wf: "store_wf db \<Longrightarrow> store_wf (fst (LogOperation n p d s db))"
  unfolding LogOperation_def
  by (erule db_exec_wf) (auto simp: store_wf_def sorted_append)

lemma upsert_run_wf:
  "(\<And>r. run_key (upd r) = run_key r) \<Longrightarrow> store_wf db \<Longrightarrow> store_wf (upsert_run new upd db)"
  by (auto simp: store_wf_def upsert_run_def intro!: upsert_rows_distinct)

lemma SavePipelineStep_wf: "store_wf db \<Longrightarrow> store_wf (fst (SavePipelineStep n s db))"
  unfolding SavePipelineStep_def Let_def
  by (erule db_exec_wf) (auto simp: run_key_def intro!: upsert_run_wf)

lemma StartPipelineStep_wf: "store_wf db \<Longrightarrow> store_wf (fst (StartPipelineStep n s db))"
  unfolding StartPipelineStep_def Let_def
  by (erule db_exec_wf) (auto simp: run_key_def intro!: upsert_run_wf)

lemma FailPipelineStep_wf: "store_wf db \<Longrightarrow> store_wf (fst (FailPipelineStep n s db))"
  unfolding FailPipelineStep_def Let_def
  by (erule db_exec_wf) (auto simp: run_key_def intro!: upsert_run_wf)

lemma DeletePipeline_wf: "store_wf db \<Longrightarrow> store_wf (fst (DeletePipeline n db))"
  unfolding DeletePipeline_def by (erule db_exec_wf) (auto simp: store_wf_def)

section \<open>Sequences of operations\<close>

text \<open>Every call that changes the database, and the passing of time between calls.\<close>

datatype store_op =
    OpOpen
  | OpUpsertCluster ClusterRecord
  | OpUpdateStatus string string
  | OpDeleteCluster string
  | OpUpsertContainer ContainerRecord
  | OpLog string string string bool
  | OpSave string string
  | OpStart string string
  | OpFail string string
  | OpDeletePipeline string
  | OpTick string

fun store_do :: "store_op \<Rightarrow> 'a Store_scheme \<Rightarrow> 'a Store_scheme" where
  "store_do OpOpen db = fst (OpenStore db)"
| "store_do (OpUpsertCluster c) db = fst (UpsertCluster c db)"
| "store_do (OpUpdateStatus n s) db = fst (UpdateClusterStatus n s db)"
| "store_do (OpDeleteCluster n) db = fst (DeleteCluster n db)"
| "store_do (OpUpsertContainer c) db = fst (UpsertContainer c db)"
| "store_do (OpLog n p d s) db = fst (LogOperation n p d s db)"
| "store_do (OpSave p s) db = fst (SavePipelineStep p s db)"
| "store_do (OpStart p s) db = fst (StartPipelineStep p s db)"
| "store_do (OpFail p s) db = fst (FailPipelineStep p s db)"
| "store_do (OpDeletePipeline p) db = fst (DeletePipeline p db)"
| "store_do (OpTick t) db = db\<lparr>db_now := t\<rparr>"

lemmas store_ops_wf = OpenStore_wf UpsertCluster_wf UpdateClusterStatus_wf DeleteCluster_wf
  UpsertContainer_wf LogOperation_wf SavePipelineStep_wf StartPipelineStep_wf FailPipelineStep_wf
  DeletePipeline_wf

lemma store_do_wf: "store_wf db \<Longrightarrow> store_wf (store_do op db)"
proof (cases op)
  case (OpTick t)
  then show "store_wf db \<Longrightarrow> ?thesis" by (simp add: store_wf_def)
qed (simp_all add: store_ops_wf)

section \<open>The store keeps the persister's contract\<close>

definition completed_steps :: "'a Store_scheme \<Rightarrow> string \<Rightarrow> string set" where
  "completed_steps db n = {s. \<exists>r \<in> set (db_runs db). run_key r = (n, s) \<and> pr_status r = RunCompleted}"

definition no_faults :: "'a Store_scheme \<Rightarrow> bool" where
  "no_faults db = (db_faults db = [])"

lemma run_key_iff: "run_key r = (n, s) \<longleftrightarrow> pr_pipeline_name r = n \<and> pr_step_name r = s"
  by (simp add: run_key_def)

lemma upsert_rows_mem:
  "x \<in> set (upsert_rows key k upd new rows) \<longleftrightarrow>
     (x \<in> set rows \<and> key x \<noteq> k) \<or> (\<exists>r \<in> set rows. key r = k \<and> x = upd r)
     \<or> (x = new \<and> \<not> has_key key k rows)"
  by (auto simp: upsert_rows_def has_key_def)

lemma upsert_rows_ex:
  assumes "\<And>r. key (upd r) = key r" "key new = k"
  shows "(\<exists>x \<in> set (upsert_rows key k upd new rows). key x = k' \<and> P x) \<longleftrightarrow>
    (if k' = k then (if has_key key k rows then \<exists>r \<in> set rows. key r = k \<and> P (upd r) else P new)
     else \<exists>x \<in> set rows. key x = k' \<and> P x)"
proof (cases "has_key key k rows")
  case True
  have "(\<exists>x \<in> set rows. key (if key x = k then upd x else x) = k' \<and> P (if key x = k then upd x else x))
    \<longleftrightarrow> (if k' = k then \<exists>r \<in> set rows. key r = k \<and> P (upd r) else \<exists>x \<in> set rows. key x = k' \<and> P x)"
    using assms(1) by (auto split: if_splits)
  then show ?thesis using True unfolding upsert_rows_def by (simp only: if_True set_map bex_simps)
next
  case False
  then have "\<forall>x \<in> set rows. key x \<noteq> k" by (auto simp: has_key_def)
  then show ?thesis using False assms(2) by (auto simp: upsert_rows_def)
qed

lemma upsert_run_completed:
  assumes upd: "\<And>r. run_key (upd r) = run_key r" "\<And>r. pr_status (upd r) = pr_status new"
  shows "completed_steps (upsert_run new upd db) = (completed_steps db)(pr_pipeline_name new :=
    (if pr_status new = RunCompleted then insert (pr_step_name new) (completed_steps db (pr_pipeline_name new))
     else completed_steps db (pr_pipeline_name new) - {pr_step_name new}))"
proof (intro ext set_eqI)
  fix n s
  have "s \<in> completed_steps (upsert_run new upd db) n \<longleftrightarrow>
      (if (n, s) = run_key new then pr_status new = RunCompleted else s \<in> completed_steps db n)"
    using upsert_rows_ex [of run_key upd new "run_key new" "db_runs db" "(n, s)"
        "\<lambda>r. pr_status r = RunCompleted"] upd
    by (auto simp: completed_steps_def upsert_run_def has_key_def image_iff)
  then show "s \<in> completed_steps (upsert_run new upd db) n \<longleftrightarrow>
      s \<in> ((completed_steps db)(pr_pipeline_name new := (if pr_status new = RunCompleted
        then insert (pr_step_name new) (completed_steps db (pr_pipeline_name new))
        else completed_steps db (pr_pipeline_name new) - {pr_step_name new}))) n"
    by (auto simp: run_key_def)
qed

lemma start_run_completed:
  assumes "pr_status new \<noteq> RunCompleted"
  shows "completed_steps (upsert_run new (\<lambda>r. r) db) = completed_steps db"
  using assms
  by (auto simp: completed_steps_def upsert_run_def upsert_rows_mem fun_eq_iff)

lemma upsert_run_faults [simp]: "db_faults (upsert_run new upd db) = db_faults db"
  by (simp add: upsert_run_def)

interpretation sqlite: step_store "store_persister :: 'a Store_scheme Persister"
  "completed_steps :: 'a Store_scheme \<Rightarrow> string \<Rightarrow> string set" no_faults
proof unfold_locales
  fix w :: "'a Store_scheme" and n s
  assume h: "no_faults w"
  then have f: "db_faults w = []" by (simp add: no_faults_def)
  show "\<exists>xs. ps_Load store_persister n w = (w, Inr xs) \<and> set xs = completed_steps w n"
    using f by (auto simp: store_persister_def LoadPipelineSteps_def db_query_healthy
        completed_steps_def run_key_iff)
  show "no_faults (fst (ps_Start store_persister n s w))
      \<and> completed_steps (fst (ps_Start store_persister n s w)) = completed_steps w"
    using f by (simp add: store_persister_def StartPipelineStep_def db_exec_healthy no_faults_def
        start_run_completed Let_def)
  show "no_faults (fst (ps_Save store_persister n s w))
      \<and> completed_steps (fst (ps_Save store_persister n s w))
        = (completed_steps w)(n := insert s (completed_steps w n))"
    using f by (simp add: store_persister_def SavePipelineStep_def db_exec_healthy no_faults_def
        upsert_run_completed run_key_def Let_def)
  show "no_faults (fst (ps_Fail store_persister n s w))
      \<and> completed_steps (fst (ps_Fail store_persister n s w))
        = (completed_steps w)(n := completed_steps w n - {s})"
    using f by (simp add: store_persister_def FailPipelineStep_def db_exec_healthy no_faults_def
        upsert_run_completed run_key_def Let_def)
  show "no_faults (fst (ps_Delete store_persister n w))
      \<and> completed_steps (fst (ps_Delete store_persister n w)) = (completed_steps w)(n := {})"
    using f by (auto simp: store_persister_def DeletePipeline_def db_exec_healthy no_faults_def
        completed_steps_def run_key_iff fun_eq_iff)
qed

section \<open>Facts for the properties\<close>

definition cluster_lookup :: "string \<Rightarrow> 'a Store_scheme \<Rightarrow> ClusterRecord option" where
  "cluster_lookup n db = List.find (\<lambda>c. cr_Name c = n) (map cl_rec (db_clusters db))"

lemma cluster_lookup_filter:
  "cluster_lookup n db =
     (case filter (\<lambda>r. cluster_key r = n) (db_clusters db) of [] \<Rightarrow> None | r # _ \<Rightarrow> Some (cl_rec r))"
  by (simp add: cluster_lookup_def find_filter filter_map comp_def cluster_key_def split: list.split)

lemma GetCluster_healthy: "db_faults db = [] \<Longrightarrow> GetCluster n db = (db, Inr (cluster_lookup n db))"
  by (simp add: GetCluster_def db_query_healthy cluster_lookup_def)

lemma filter_key_other:
  "filter (\<lambda>r. key r = m) (filter (\<lambda>r. key r \<noteq> n) xs) =
     (if m = n then [] else filter (\<lambda>r. key r = m) xs)"
  by (induction xs) auto

lemma cluster_lookup_faults [simp]: "cluster_lookup n (db\<lparr>db_faults := fs\<rparr>) = cluster_lookup n db"
  by (simp add: cluster_lookup_def)

text \<open>What an upsert leaves for the name: a new row, or the old one with its backend and time kept.\<close>

definition merge_record :: "string \<Rightarrow> ClusterRecord \<Rightarrow> ClusterRecord option \<Rightarrow> ClusterRecord" where
  "merge_record now c old =
     (case old of
        None \<Rightarrow> c\<lparr>cr_CreatedAt := (if cr_CreatedAt c = [] then now else cr_CreatedAt c),
                  cr_UpdatedAt := now\<rparr>
      | Some p \<Rightarrow> c\<lparr>cr_Backend := cr_Backend p, cr_CreatedAt := cr_CreatedAt p,
                    cr_UpdatedAt := now\<rparr>)"

lemma db_exec_NoneD:
  "db_exec f db = (db', None) \<Longrightarrow> db' = f (db\<lparr>db_faults := tl (db_faults db)\<rparr>)"
  by (cases rule: db_exec_cases [of f db]) auto

lemma find_name_SomeD: "List.find (\<lambda>c. cr_Name c = n) cs = Some p \<Longrightarrow> cr_Name p = n"
  by (auto simp: find_Some_iff)

lemma cluster_lookup_upsert:
  assumes "store_wf db" "db_created db"
  shows "cluster_lookup n (upsert_cluster (c\<lparr>cr_CreatedAt := (if cr_CreatedAt c = [] then now
      else cr_CreatedAt c), cr_UpdatedAt := now\<rparr>) db) =
    (if n = cr_Name c then Some (merge_record now c (cluster_lookup n db)) else cluster_lookup n db)"
proof -
  let ?c = "c\<lparr>cr_CreatedAt := (if cr_CreatedAt c = [] then now else cr_CreatedAt c),
      cr_UpdatedAt := now\<rparr>"
  have d: "distinct (map cluster_key (db_clusters db))" using assms by (simp add: store_wf_def)
  have same: "filter (\<lambda>r. cluster_key r = cr_Name ?c) (db_clusters (upsert_cluster ?c db)) =
    (case filter (\<lambda>r. cluster_key r = cr_Name ?c) (db_clusters db) of
       [] \<Rightarrow> [\<lparr>cl_id = db_cluster_seq db, cl_rec = ?c\<rparr>] | r # _ \<Rightarrow> [cluster_conflict ?c r])"
    using upsert_rows_same [of cluster_key "cluster_conflict ?c" _ "cr_Name ?c", OF _ _ d]
    by (simp add: upsert_cluster_def)
  have other: "n \<noteq> cr_Name ?c \<Longrightarrow> filter (\<lambda>r. cluster_key r = n) (db_clusters (upsert_cluster ?c db))
      = filter (\<lambda>r. cluster_key r = n) (db_clusters db)"
    using upsert_rows_other [of cluster_key "cluster_conflict ?c" _ "cr_Name ?c" n]
    by (simp add: upsert_cluster_def)
  show ?thesis
  proof (cases "n = cr_Name c")
    case True
    show ?thesis
    proof (cases "filter (\<lambda>r. cluster_key r = cr_Name c) (db_clusters db)")
      case Nil
      then show ?thesis using True same by (simp add: cluster_lookup_filter merge_record_def)
    next
      case (Cons r rs)
      then have "cr_Name (cl_rec r) = cr_Name c"
        using Cons_eq_filterD [of r rs] by (metis cluster_key_def)
      then show ?thesis using True Cons same
        by (simp add: cluster_lookup_filter merge_record_def cluster_conflict_def)
    qed
  next
    case False
    then show ?thesis using other by (simp add: cluster_lookup_filter)
  qed
qed

text \<open>Every container row belongs to a cluster row.\<close>

definition containers_owned :: "'a Store_scheme \<Rightarrow> bool" where
  "containers_owned db = (\<forall>r \<in> set (db_containers db).
     \<exists>c \<in> set (db_clusters db). cluster_key c = ct_ClusterName (cnt_rec r))"

definition cluster_containers :: "string \<Rightarrow> 'a Store_scheme \<Rightarrow> container_row list" where
  "cluster_containers n db = filter (\<lambda>r. ct_ClusterName (cnt_rec r) = n) (db_containers db)"

definition list_containers :: "string \<Rightarrow> 'a Store_scheme \<Rightarrow> ContainerRecord list" where
  "list_containers n db = sort_key ct_NodeIndex
     (filter (\<lambda>c. ct_ClusterName c = n) (map cnt_rec (db_containers db)))"

lemma DeleteCluster_outcomes:
  assumes "DeleteCluster n db = (db', r)"
  obtains (nothing) fs e where "db' = db\<lparr>db_faults := fs\<rparr>" "r = Some e"
  | (half) fs e where "r = Some e" "db' = db\<lparr>db_faults := fs, db_containers :=
        filter (\<lambda>r. ct_ClusterName (cnt_rec r) \<noteq> n) (db_containers db)\<rparr>"
  | (both) fs where "r = None" "db' = db\<lparr>db_faults := fs, db_containers :=
        filter (\<lambda>r. ct_ClusterName (cnt_rec r) \<noteq> n) (db_containers db),
        db_clusters := filter (\<lambda>r. cr_Name (cl_rec r) \<noteq> n) (db_clusters db)\<rparr>"
proof -
  let ?f = "\<lambda>d. d\<lparr>db_containers := filter (\<lambda>r. ct_ClusterName (cnt_rec r) \<noteq> n) (db_containers d)\<rparr>"
  let ?g = "\<lambda>d. d\<lparr>db_clusters := filter (\<lambda>r. cr_Name (cl_rec r) \<noteq> n) (db_clusters d)\<rparr>"
  show thesis
  proof (cases rule: db_exec_cases [of ?f db])
    case (failed e)
    then have "db' = db\<lparr>db_faults := tl (db_faults db)\<rparr>" "r = Some e"
      using assms by (auto simp: DeleteCluster_def)
    then show ?thesis by (rule nothing)
  next
    case (executed d)
    note d = executed(2)
    have *: "db_exec ?g (?f d) = (db', r)" using executed(1) assms by (simp add: DeleteCluster_def)
    show ?thesis
    proof (cases rule: db_exec_cases [of ?g "?f d"])
      case (failed e)
      have "db' = db\<lparr>db_faults := tl (tl (db_faults db)), db_containers :=
          filter (\<lambda>r. ct_ClusterName (cnt_rec r) \<noteq> n) (db_containers db)\<rparr>" "r = Some e"
        using * failed(1) d by simp_all
      then show ?thesis using half by blast
    next
      case (executed d')
      have "db' = db\<lparr>db_faults := tl (tl (db_faults db)), db_containers :=
          filter (\<lambda>r. ct_ClusterName (cnt_rec r) \<noteq> n) (db_containers db),
          db_clusters := filter (\<lambda>r. cr_Name (cl_rec r) \<noteq> n) (db_clusters db)\<rparr>" "r = None"
        using * executed d by simp_all
      then show ?thesis using both by blast
    qed
  qed
qed

lemma upsert_container_mem:
  assumes "store_wf db" "db_created db"
  shows "x \<in> cnt_rec ` set (db_containers (upsert_container c now db)) \<longleftrightarrow>
    x = c \<or> (x \<in> cnt_rec ` set (db_containers db) \<and> (ct_ClusterName x, ct_Name x) \<noteq> (ct_ClusterName c, ct_Name c))"
proof -
  let ?k = "(ct_ClusterName c, ct_Name c)"
  let ?new = "\<lparr>cnt_id = db_container_seq db, cnt_rec = c, cnt_created_at = now\<rparr>"
  have conflict: "container_key r = ?k \<Longrightarrow> cnt_rec (container_conflict c r) = c" for r
    by (simp add: container_key_def container_conflict_def)
  have "set (upsert_rows container_key ?k (container_conflict c) ?new (db_containers db)) =
      {r \<in> set (db_containers db). container_key r \<noteq> ?k}
      \<union> container_conflict c ` {r \<in> set (db_containers db). container_key r = ?k}
      \<union> (if has_key container_key ?k (db_containers db) then {} else {?new})"
    by (auto simp: upsert_rows_mem)
  moreover have "cnt_rec ` container_conflict c ` {r \<in> set (db_containers db). container_key r = ?k}
      \<union> cnt_rec ` (if has_key container_key ?k (db_containers db) then {} else {?new}) = {c}"
    using conflict by (auto simp: has_key_def image_image)
  ultimately have "cnt_rec ` set (db_containers (upsert_container c now db)) =
      cnt_rec ` {r \<in> set (db_containers db). container_key r \<noteq> ?k} \<union> {c}"
    unfolding upsert_container_def Let_def by (simp add: image_Un Un_assoc)
  then show ?thesis by (auto simp: container_key_def image_iff)
qed

section \<open>Properties\<close>


definition new_file :: Store where
  "new_file = \<lparr>db_clusters = [], db_containers = [], db_operations = [], db_runs = [],
     db_cluster_seq = 0, db_container_seq = 0, db_operation_seq = 0, db_run_seq = 0,
     db_created = False, db_has_hostname = False, db_faults = [], db_now = ''t0''\<rparr>"

definition sample_cluster :: ClusterRecord where
  "sample_cluster = \<lparr>cr_Name = ''c1'', cr_Backend = ''podman'', cr_Shards = 3,
     cr_NodesPerShard = 2, cr_RedisPort = 6379, cr_Image = ''redis'', cr_Status = ''ready'',
     cr_CreatedAt = [], cr_UpdatedAt = []\<rparr>"

definition sample_container :: ContainerRecord where
  "sample_container = \<lparr>ct_ClusterName = ''c1'', ct_Name = ''c1-redis-0'', ct_ContainerID = ''x'',
     ct_HostIP = ''127.0.0.1'', ct_HostPort = 7000, ct_ContainerIP = ''10.0.0.2'',
     ct_ContainerPort = 6379, ct_NodeIndex = 0, ct_Role = [], ct_Status = ''running'',
     ct_Hostname = []\<rparr>"

definition sample_db :: Store where
  "sample_db = store_do (OpUpsertContainer sample_container)
     (store_do (OpUpsertCluster sample_cluster) (store_do OpOpen new_file))"

lemmas store_eval = new_file_def sample_cluster_def sample_container_def sample_db_def OpenStore_def
  migrate_def create_tables_def db_exec_def db_query_def UpsertCluster_def upsert_cluster_def
  UpsertContainer_def upsert_container_def upsert_rows_def upsert_seq_def has_key_def
  cluster_key_def container_key_def Let_def

lemma sample_db_facts: "store_wf sample_db" "db_created sample_db" "db_faults sample_db = []"
  by (simp_all add: store_eval store_wf_def)


text \<open>
  C32: a cluster written by \<^verbatim>\<open>UpsertCluster\<close> is what \<^verbatim>\<open>GetCluster\<close> returns, and no other cluster
  changes. A new name gets the record with its timestamps filled in; a known name gets the
  record with the backend and the creation time of the first write.
\<close>

theorem UpsertCluster_GetCluster:
  assumes "store_wf db" and "db_created db"
    and "UpsertCluster c db = (db', None)" and "db_faults db' = []"
  shows "GetCluster n db' = (db', Inr (if n = cr_Name c
    then Some (merge_record (db_now db) c (cluster_lookup n db)) else cluster_lookup n db))"
proof -
  let ?d = "db\<lparr>db_faults := tl (db_faults db)\<rparr>"
  have "db' = upsert_cluster (c\<lparr>cr_CreatedAt := (if cr_CreatedAt c = [] then db_now db
      else cr_CreatedAt c), cr_UpdatedAt := db_now db\<rparr>) ?d"
    using assms(3) unfolding UpsertCluster_def Let_def by (rule db_exec_NoneD)
  then have eq: "cluster_lookup n db' = cluster_lookup n (upsert_cluster (c\<lparr>cr_CreatedAt :=
      (if cr_CreatedAt c = [] then db_now db else cr_CreatedAt c), cr_UpdatedAt := db_now db\<rparr>) ?d)"
    by (rule arg_cong)
  have d: "store_wf ?d" "db_created ?d" using assms(1,2) by simp_all
  have "cluster_lookup n db' = (if n = cr_Name c
    then Some (merge_record (db_now db) c (cluster_lookup n db)) else cluster_lookup n db)"
    unfolding eq cluster_lookup_upsert [OF d] cluster_lookup_faults by (rule refl)
  then show ?thesis by (simp add: GetCluster_healthy [OF assms(4)])
qed

theorem UpsertCluster_GetCluster_witness:
  "snd (GetCluster ''c1'' (fst (UpsertCluster (sample_cluster\<lparr>cr_Shards := 5, cr_Backend := ''x''\<rparr>) sample_db)))
   = Inr (Some (sample_cluster\<lparr>cr_Shards := 5, cr_CreatedAt := ''t0'', cr_UpdatedAt := ''t0''\<rparr>))"
proof -
  let ?c = "sample_cluster\<lparr>cr_Shards := 5, cr_Backend := ''x''\<rparr>"
  have "UpsertCluster ?c sample_db = (fst (UpsertCluster ?c sample_db), None)"
    "db_faults (fst (UpsertCluster ?c sample_db)) = []"
    by (simp_all add: store_eval)
  note get = UpsertCluster_GetCluster [OF sample_db_facts(1,2) this, of "''c1''"]
  have "cluster_lookup ''c1'' sample_db =
      Some (sample_cluster\<lparr>cr_CreatedAt := ''t0'', cr_UpdatedAt := ''t0''\<rparr>)"
    by (simp add: cluster_lookup_def store_eval)
  moreover have "db_now sample_db = ''t0''" by (simp add: store_eval)
  ultimately have "(if ''c1'' = cr_Name ?c then Some (merge_record (db_now sample_db) ?c
      (cluster_lookup ''c1'' sample_db)) else cluster_lookup ''c1'' sample_db) =
      Some (sample_cluster\<lparr>cr_Shards := 5, cr_CreatedAt := ''t0'', cr_UpdatedAt := ''t0''\<rparr>)"
    by (simp add: merge_record_def sample_cluster_def)
  then show ?thesis unfolding get snd_conv by (rule arg_cong [of _ _ Inr])
qed

text \<open>
  C6: deleting a cluster never leaves containers without a cluster, even when one of its two
  statements fails, and touches nothing of another cluster; when it succeeds nothing of the
  cluster is left.
\<close>

theorem DeleteCluster_scope:
  assumes "DeleteCluster n db = (db', r)" and "containers_owned db"
  shows "containers_owned db'
    \<and> (\<forall>m. m \<noteq> n \<longrightarrow> cluster_lookup m db' = cluster_lookup m db
          \<and> cluster_containers m db' = cluster_containers m db)
    \<and> (r = None \<longrightarrow> cluster_lookup n db' = None \<and> cluster_containers n db' = [])
    \<and> db_operations db' = db_operations db \<and> db_runs db' = db_runs db"
  using assms(1)
proof (cases rule: DeleteCluster_outcomes)
  case (nothing fs e)
  then show ?thesis using assms(2) by (simp add: containers_owned_def cluster_containers_def)
next
  case (half fs e)
  then show ?thesis using assms(2)
    by (simp add: containers_owned_def cluster_containers_def cluster_lookup_def filter_key_other
        del: filter_filter)
next
  case (both fs)
  have "containers_owned db'" using both assms(2)
    by (simp add: containers_owned_def cluster_key_def) metis
  then show ?thesis using both
    by (simp add: cluster_containers_def cluster_lookup_filter cluster_key_def filter_key_other
        del: filter_filter)
qed

definition half_failing_db :: Store where
  "half_failing_db = sample_db\<lparr>db_faults := [None, Some ContextError]\<rparr>"

theorem DeleteCluster_scope_witness:
  "containers_owned half_failing_db
   \<and> snd (DeleteCluster ''c1'' half_failing_db) = Some ContextError
   \<and> containers_owned (fst (DeleteCluster ''c1'' half_failing_db))"
proof -
  have own: "containers_owned half_failing_db"
    by (simp add: half_failing_db_def containers_owned_def store_eval)
  have "snd (DeleteCluster ''c1'' half_failing_db) = Some ContextError"
    by (simp add: half_failing_db_def DeleteCluster_def db_exec_def)
  moreover have "containers_owned (fst (DeleteCluster ''c1'' half_failing_db))"
    using DeleteCluster_scope [OF prod.collapse [symmetric] own, of "''c1''"] by blast
  ultimately show ?thesis using own by blast
qed

text \<open>
  a container written by \<^verbatim>\<open>UpsertContainer\<close> is listed with its cluster, in the order of
  the node index; it replaces the row of the same name and changes no other.
\<close>

theorem UpsertContainer_listed:
  assumes "store_wf db" and "db_created db"
    and "UpsertContainer c db = (db', None)" and "db_faults db' = []"
  shows "\<exists>xs. ListContainersByCluster n db' = (db', Inr xs) \<and> sorted (map ct_NodeIndex xs)
    \<and> set xs = {x \<in> set (list_containers n db). n \<noteq> ct_ClusterName c \<or> ct_Name x \<noteq> ct_Name c}
        \<union> (if n = ct_ClusterName c then {c} else {})"
proof -
  let ?d = "db\<lparr>db_faults := tl (db_faults db)\<rparr>"
  have db': "db' = upsert_container c (db_now db) ?d"
    using assms(3) unfolding UpsertContainer_def by (rule db_exec_NoneD)
  have d: "store_wf ?d" "db_created ?d" using assms(1,2) by simp_all
  have "set (list_containers n db') = {x \<in> cnt_rec ` set (db_containers db'). ct_ClusterName x = n}"
    by (auto simp: list_containers_def)
  also have "\<dots> = {x \<in> set (list_containers n db). n \<noteq> ct_ClusterName c \<or> ct_Name x \<noteq> ct_Name c}
        \<union> (if n = ct_ClusterName c then {c} else {})"
    unfolding db' upsert_container_mem [OF d] by (auto simp: list_containers_def)
  finally show ?thesis
    using assms(4) by (simp add: ListContainersByCluster_def db_query_healthy list_containers_def)
qed

theorem UpsertContainer_listed_witness:
  "\<exists>db' xs. UpsertContainer (sample_container\<lparr>ct_Role := ''master''\<rparr>) sample_db = (db', None)
    \<and> ListContainersByCluster ''c1'' db' = (db', Inr xs)
    \<and> set xs = {sample_container\<lparr>ct_Role := ''master''\<rparr>}"
proof -
  let ?c = "sample_container\<lparr>ct_Role := ''master''\<rparr>"
  let ?db = "fst (UpsertContainer ?c sample_db)"
  have up: "UpsertContainer ?c sample_db = (?db, None)" and f: "db_faults ?db = []"
    by (simp_all add: store_eval)
  have "set (list_containers ''c1'' sample_db) = {sample_container}"
    by (simp add: list_containers_def store_eval)
  moreover have "ct_ClusterName ?c = ''c1''" "ct_Name sample_container = ct_Name ?c"
    by (simp_all add: sample_container_def)
  moreover obtain xs where "ListContainersByCluster ''c1'' ?db = (?db, Inr xs)"
    "set xs = {x \<in> set (list_containers ''c1'' sample_db). ''c1'' \<noteq> ct_ClusterName ?c
        \<or> ct_Name x \<noteq> ct_Name ?c} \<union> (if ''c1'' = ct_ClusterName ?c then {?c} else {})"
    using UpsertContainer_listed [OF sample_db_facts(1,2) up f, of "''c1''"] by blast
  ultimately have "set xs = {?c}" by auto
  then show ?thesis using up \<open>ListContainersByCluster ''c1'' ?db = (?db, Inr xs)\<close> by blast
qed

text \<open>
  the log shows the newest operation first and at most fifty of them: after a successful
  \<^verbatim>\<open>LogOperation\<close> the listing of the cluster is the new entry followed by the first 49 of the
  listing before it.
\<close>

theorem LogOperation_listed:
  assumes "store_wf db" and "db_created db" and "db_faults db = []"
    and "ListOperations n db = (db, Inr old)"
    and "LogOperation n operation detail success db = (db', None)"
  shows "ListOperations n db' = (db', Inr ([(''operation'', operation), (''detail'', detail),
    (''success'', if success then ''true'' else ''false''), (''created_at'', db_now db)] # take 49 old))"
proof -
  let ?new = "\<lparr>op_id = db_operation_seq db, op_cluster_name = n, op_operation = operation,
    op_detail = detail, op_success = (if success then 1 else 0), op_created_at = db_now db\<rparr>"
  let ?sel = "\<lambda>d. filter (\<lambda>r. op_cluster_name r = n) (db_operations d)"
  have sorted: "sorted (map op_id (?sel db))" and
      new: "\<forall>r \<in> set (?sel db). op_id r \<le> db_operation_seq db"
    using assms(1,2) by (auto simp: store_wf_def intro: sorted_filter less_imp_le)
  have old: "old = map operation_view (take 50 (rev (?sel db)))"
    using assms(3,4) sorted by (simp add: ListOperations_def db_query_healthy sorted_sort_id sort_key_id_if_sorted)
  have db': "db_operations db' = db_operations db @ [?new]" "db_faults db' = []"
    using assms(3,5) by (auto simp: LogOperation_def db_exec_healthy)
  then have sel: "?sel db' = ?sel db @ [?new]" by simp
  have "sorted (map op_id (?sel db'))" unfolding sel using sorted new by (simp add: sorted_append)
  then have "sort_key op_id (?sel db') = ?sel db @ [?new]"
    unfolding sel by (rule sort_key_id_if_sorted)
  then have "take 50 (rev (sort_key op_id (?sel db'))) = ?new # take 49 (rev (?sel db))"
    by (simp only: rev_append rev.simps append_Nil append_Cons take_Cons') simp
  then show ?thesis using db'(2) old
    by (simp add: ListOperations_def db_query_healthy operation_view_def take_map)
qed

theorem LogOperation_listed_witness:
  "\<exists>db'. LogOperation ''c1'' ''create'' ''d'' True sample_db = (db', None)
    \<and> ListOperations ''c1'' db' = (db', Inr [[(''operation'', ''create''), (''detail'', ''d''),
        (''success'', ''true''), (''created_at'', ''t0'')]])"
proof -
  have "ListOperations ''c1'' sample_db = (sample_db, Inr [])"
    by (simp add: ListOperations_def db_query_healthy sample_db_facts(3)) (simp add: store_eval)
  moreover obtain db' where log: "LogOperation ''c1'' ''create'' ''d'' True sample_db = (db', None)"
    by (simp add: LogOperation_def db_exec_healthy sample_db_facts(3))
  moreover have "db_now sample_db = ''t0''" by (simp add: store_eval)
  ultimately show ?thesis using LogOperation_listed [OF sample_db_facts, of "''c1''" "[]"] by simp
qed


definition log_step :: "string \<Rightarrow> Store Step" where
  "log_step n = \<lparr>st_Name = n, st_Do = (\<lambda>c. LogOperation ''c1'' n [] True), st_Undo = None,
     st_Retry = 0, st_Timeout = 0\<rparr>"

definition log_pipeline :: "Store Pipeline" where
  "log_pipeline = \<lparr>pl_Name = ''p'', pl_Steps = [log_step ''a'', log_step ''b''],
     pl_Completed = {}, pl_Persist = Some store_persister\<rparr>"

lemma log_step_transparent: "transparent completed_steps no_faults (log_step n)"
  by (simp add: transparent_def log_step_def LogOperation_def no_faults_def db_exec_healthy
      completed_steps_def fun_eq_iff)

lemma log_step_ok: "db_faults w = [] \<Longrightarrow> snd (executeStep Background (log_step n) w) = None"
  by (simp add: executeStep_def log_step_def LogOperation_def db_exec_healthy)


end
