(* ===== verification/LRU.thy ===== *)
theory LRU
  imports Prelude
begin

text \<open>
  The package \<^verbatim>\<open>cache/lru\<close>: a doubly linked list of entries, most recent first, and a map
  from keys to list elements. A pointer to an element is a number, the list holds each element
  with its entry, and every operation works on both structures the way the code does. The
  size of a value (the \<^verbatim>\<open>Len\<close> method of its interface) is the argument \<open>len\<close>. Byte counts are
  integers: an \<^verbatim>\<open>int64\<close> does not overflow below eight exabytes of cached data.

  The eviction loop of \<^verbatim>\<open>Add\<close> is a partial function, so that not returning is \<^const>\<open>None\<close>.
\<close>

section \<open>Types\<close>

record 'v lru_entry =
  le_key :: string
  le_value :: 'v

text \<open>
  \<^verbatim>\<open>lc_calls\<close> lists the arguments of the calls of \<^verbatim>\<open>OnEvicted\<close>, newest first, when the cache
  has such a function.
\<close>

record 'v Cache =
  lc_maxBytes :: int
  lc_nbytes :: int
  lc_ll :: "(nat \<times> 'v lru_entry) list"
  lc_cache :: "string \<Rightarrow> nat option"
  lc_OnEvicted :: bool
  lc_calls :: "(string \<times> 'v) list"
  lc_fresh :: nat

section \<open>The linked list\<close>

definition MoveToFront :: "nat \<Rightarrow> (nat \<times> 'e) list \<Rightarrow> (nat \<times> 'e) list" where
  "MoveToFront i ll = filter (\<lambda>p. fst p = i) ll @ filter (\<lambda>p. fst p \<noteq> i) ll"

definition RemoveElement :: "nat \<Rightarrow> (nat \<times> 'e) list \<Rightarrow> (nat \<times> 'e) list" where
  "RemoveElement i ll = filter (\<lambda>p. fst p \<noteq> i) ll"

section \<open>Operations\<close>

definition lru_New :: "int \<Rightarrow> bool \<Rightarrow> 'v Cache" where
  "lru_New maxBytes onEvicted = \<lparr>lc_maxBytes = maxBytes, lc_nbytes = 0, lc_ll = [],
     lc_cache = (\<lambda>_. None), lc_OnEvicted = onEvicted, lc_calls = [], lc_fresh = 0\<rparr>"

definition lru_Get :: "string \<Rightarrow> 'v Cache \<Rightarrow> 'v Cache \<times> 'v option" where
  "lru_Get key c =
     (case lc_cache c key of
        None \<Rightarrow> (c, None)
      | Some ele \<Rightarrow>
          (c\<lparr>lc_ll := MoveToFront ele (lc_ll c)\<rparr>,
           map_option le_value (map_of (lc_ll c) ele)))"

definition entry_size :: "('v \<Rightarrow> nat) \<Rightarrow> string \<Rightarrow> 'v \<Rightarrow> int" where
  "entry_size len k v = int (length k) + int (len v)"

text \<open>The removal that \<^verbatim>\<open>RemoveOldest\<close> and \<^verbatim>\<open>Remove\<close> both do on an element.\<close>

definition drop_entry :: "('v \<Rightarrow> nat) \<Rightarrow> nat \<Rightarrow> string \<Rightarrow> 'v lru_entry \<Rightarrow> 'v Cache \<Rightarrow> 'v Cache" where
  "drop_entry len ele key kv c =
     (let c1 = c\<lparr>lc_ll := RemoveElement ele (lc_ll c),
                lc_cache := (lc_cache c)(key := None),
                lc_nbytes := lc_nbytes c - entry_size len (le_key kv) (le_value kv)\<rparr>
      in if lc_OnEvicted c then c1\<lparr>lc_calls := (le_key kv, le_value kv) # lc_calls c1\<rparr> else c1)"

definition RemoveOldest :: "('v \<Rightarrow> nat) \<Rightarrow> 'v Cache \<Rightarrow> 'v Cache" where
  "RemoveOldest len c =
     (if lc_ll c = [] then c
      else let (ele, kv) = last (lc_ll c) in drop_entry len ele (le_key kv) kv c)"

partial_function (option) evict_loop :: "('v \<Rightarrow> nat) \<Rightarrow> 'v Cache \<Rightarrow> 'v Cache option" where
  "evict_loop len c =
     (if lc_maxBytes c \<noteq> 0 \<and> lc_maxBytes c < lc_nbytes c
      then evict_loop len (RemoveOldest len c) else Some c)"

definition lru_put :: "('v \<Rightarrow> nat) \<Rightarrow> string \<Rightarrow> 'v \<Rightarrow> 'v Cache \<Rightarrow> 'v Cache" where
  "lru_put len key value c =
     (case lc_cache c key of
        Some ele \<Rightarrow>
          (case map_of (lc_ll c) ele of
             Some kv \<Rightarrow>
               c\<lparr>lc_ll := map (\<lambda>(i, e). (i, if i = ele then e\<lparr>le_value := value\<rparr> else e))
                    (MoveToFront ele (lc_ll c)),
                 lc_nbytes := lc_nbytes c + (int (len value) - int (len (le_value kv)))\<rparr>
           | None \<Rightarrow> c)
      | None \<Rightarrow>
          c\<lparr>lc_ll := (lc_fresh c, \<lparr>le_key = key, le_value = value\<rparr>) # lc_ll c,
            lc_cache := (lc_cache c)(key \<mapsto> lc_fresh c),
            lc_nbytes := lc_nbytes c + entry_size len key value,
            lc_fresh := Suc (lc_fresh c)\<rparr>)"

definition lru_Add :: "('v \<Rightarrow> nat) \<Rightarrow> string \<Rightarrow> 'v \<Rightarrow> 'v Cache \<Rightarrow> 'v Cache option" where
  "lru_Add len key value c = evict_loop len (lru_put len key value c)"

definition lru_Remove :: "('v \<Rightarrow> nat) \<Rightarrow> string \<Rightarrow> 'v Cache \<Rightarrow> 'v Cache \<times> bool" where
  "lru_Remove len key c =
     (case lc_cache c key of
        None \<Rightarrow> (c, False)
      | Some ele \<Rightarrow>
          (case map_of (lc_ll c) ele of
             Some kv \<Rightarrow> (drop_entry len ele key kv c, True)
           | None \<Rightarrow> (c, True)))"

definition lru_Len :: "'v Cache \<Rightarrow> int" where
  "lru_Len c = int (length (lc_ll c))"

section \<open>The invariant and the recency list\<close>

text \<open>What the cache holds: keys with values, most recently used first.\<close>

definition contents :: "'v Cache \<Rightarrow> (string \<times> 'v) list" where
  "contents c = map (\<lambda>(i, e). (le_key e, le_value e)) (lc_ll c)"

definition total_size :: "('v \<Rightarrow> nat) \<Rightarrow> (string \<times> 'v) list \<Rightarrow> int" where
  "total_size len xs = sum_list (map (\<lambda>(k, v). entry_size len k v) xs)"

text \<open>
  List and map describe the same entries: element pointers and keys are distinct, the map
  sends a key to the element that holds it, and the byte count is the size of the contents.
\<close>

definition lru_inv :: "('v \<Rightarrow> nat) \<Rightarrow> 'v Cache \<Rightarrow> bool" where
  "lru_inv len c =
     (distinct (map fst (lc_ll c)) \<and> distinct (map fst (contents c))
      \<and> (\<forall>k. lc_cache c k = map_of (map (\<lambda>(i, e). (le_key e, i)) (lc_ll c)) k)
      \<and> lc_nbytes c = total_size len (contents c)
      \<and> (\<forall>i \<in> fst ` set (lc_ll c). i < lc_fresh c))"

lemma total_size_simps [simp]:
  "total_size len [] = 0"
  "total_size len ((k, v) # xs) = entry_size len k v + total_size len xs"
  "total_size len (xs @ ys) = total_size len xs + total_size len ys"
  by (simp_all add: total_size_def)

lemma total_size_nonneg: "0 \<le> total_size len xs"
  by (induction xs) (auto simp: entry_size_def total_size_def)

lemma entry_split:
  assumes "distinct (map fst xs)" "(i, e) \<in> set xs"
  obtains ys zs where "xs = ys @ (i, e) # zs" "i \<notin> fst ` set ys" "i \<notin> fst ` set zs"
proof -
  obtain ys zs where "xs = ys @ (i, e) # zs" using assms(2) by (meson split_list)
  then show thesis using assms(1) that by simp
qed

lemma filter_fst_notin: "i \<notin> fst ` set xs \<Longrightarrow> filter (\<lambda>p. fst p \<noteq> i) xs = xs"
  "i \<notin> fst ` set xs \<Longrightarrow> filter (\<lambda>p. fst p = i) xs = []"
  by (auto simp: filter_id_conv filter_empty_conv)

lemma lru_inv_cacheD:
  assumes "lru_inv len c" "lc_cache c key = Some ele"
  obtains ys e zs where "lc_ll c = ys @ (ele, e) # zs" "le_key e = key"
    "ele \<notin> fst ` set ys" "ele \<notin> fst ` set zs" "map_of (lc_ll c) ele = Some e"
proof -
  have "map_of (map (\<lambda>(i, e). (le_key e, i)) (lc_ll c)) key = Some ele"
    using assms by (simp add: lru_inv_def)
  then obtain e where e: "(ele, e) \<in> set (lc_ll c)" "le_key e = key"
    using map_of_SomeD by fastforce
  have d: "distinct (map fst (lc_ll c))" using assms(1) by (simp add: lru_inv_def)
  obtain ys zs where "lc_ll c = ys @ (ele, e) # zs" "ele \<notin> fst ` set ys" "ele \<notin> fst ` set zs"
    using entry_split [OF d e(1)] .
  then show thesis using that e d by (metis map_of_eq_Some_iff)
qed

lemma lru_inv_cache_None:
  assumes "lru_inv len c" "lc_cache c key = None"
  shows "key \<notin> fst ` set (contents c)"
  using assms by (auto simp: lru_inv_def contents_def map_of_eq_None_iff image_iff split: prod.splits)

lemma map_of_contents:
  "lru_inv len c \<Longrightarrow> lc_cache c key = None \<Longrightarrow> map_of (contents c) key = None"
  using lru_inv_cache_None by (simp add: map_of_eq_None_iff)

lemma lru_inv_New [simp]: "lru_inv len (lru_New m b)"
  by (simp add: lru_inv_def lru_New_def contents_def)

lemma lru_New_max: "lc_maxBytes (lru_New m b) = m"
  by (simp add: lru_New_def)

text \<open>Dropping one element, wherever it stands.\<close>

lemma drop_entry_inv:
  assumes inv: "lru_inv len c" and ll: "lc_ll c = ys @ (ele, kv) # zs"
  shows "lru_inv len (drop_entry len ele (le_key kv) kv c)"
    and "contents (drop_entry len ele (le_key kv) kv c) =
      map (\<lambda>(i, e). (le_key e, le_value e)) (ys @ zs)"
    and "lc_maxBytes (drop_entry len ele (le_key kv) kv c) = lc_maxBytes c"
proof -
  have d: "distinct (map fst (lc_ll c))" "distinct (map fst (contents c))"
    using inv by (simp_all add: lru_inv_def)
  have keys: "le_key kv \<notin> (\<lambda>p. le_key (snd p)) ` set (ys @ zs)"
    using d(2) ll by (auto simp: contents_def image_iff split: prod.splits)
  have rm: "RemoveElement ele (lc_ll c) = ys @ zs"
    using d(1) ll by (simp add: RemoveElement_def filter_fst_notin)
  have key_map: "map_of (map (\<lambda>(i, e). (le_key e, i)) (ys @ zs)) (le_key kv) = None"
    using keys by (simp add: map_of_eq_None_iff image_image case_prod_beta image_Un)
  have fields: "lc_ll (drop_entry len ele (le_key kv) kv c) = ys @ zs"
    "lc_cache (drop_entry len ele (le_key kv) kv c) = (lc_cache c)(le_key kv := None)"
    "lc_nbytes (drop_entry len ele (le_key kv) kv c) =
      lc_nbytes c - entry_size len (le_key kv) (le_value kv)"
    "lc_fresh (drop_entry len ele (le_key kv) kv c) = lc_fresh c"
    using rm by (simp_all add: drop_entry_def Let_def)
  have "map_of (map (\<lambda>(i, e). (le_key e, i)) (ys @ zs)) k =
      ((\<lambda>k. map_of (map (\<lambda>(i, e). (le_key e, i)) (lc_ll c)) k)(le_key kv := None)) k" for k
    using key_map unfolding ll by (simp add: map_add_def split: option.splits)
  then show "lru_inv len (drop_entry len ele (le_key kv) kv c)"
    using inv ll unfolding lru_inv_def contents_def fields by simp
  show "contents (drop_entry len ele (le_key kv) kv c) =
      map (\<lambda>(i, e). (le_key e, le_value e)) (ys @ zs)"
    by (simp add: contents_def fields)
  show "lc_maxBytes (drop_entry len ele (le_key kv) kv c) = lc_maxBytes c"
    by (simp add: drop_entry_def Let_def)
qed

section \<open>Eviction\<close>

lemma RemoveOldest_inv:
  assumes "lru_inv len c"
  shows "lru_inv len (RemoveOldest len c) \<and> contents (RemoveOldest len c) = butlast (contents c)
    \<and> lc_maxBytes (RemoveOldest len c) = lc_maxBytes c"
proof (cases "lc_ll c" rule: rev_cases)
  case Nil
  then show ?thesis using assms by (simp add: RemoveOldest_def contents_def)
next
  case (snoc ys p)
  obtain ele kv where p: "p = (ele, kv)" by (cases p)
  then have ll: "lc_ll c = ys @ (ele, kv) # []" using snoc by simp
  have ro: "RemoveOldest len c = drop_entry len ele (le_key kv) kv c"
    using ll by (simp add: RemoveOldest_def)
  have "butlast (contents c) = map (\<lambda>(i, e). (le_key e, le_value e)) (ys @ [])"
    using ll by (simp add: contents_def map_butlast [symmetric])
  then show ?thesis unfolding ro using drop_entry_inv [OF assms ll] by simp
qed

text \<open>
  The part of a recency list that stays within a limit: all of it when the limit is 0, and
  otherwise the longest prefix whose size does not exceed the limit.
\<close>

definition maximal_fit ::
  "('v \<Rightarrow> nat) \<Rightarrow> int \<Rightarrow> (string \<times> 'v) list \<Rightarrow> (string \<times> 'v) list \<Rightarrow> bool" where
  "maximal_fit len m xs ys =
     (if m = 0 then ys = xs
      else \<exists>n \<le> length xs. ys = take n xs \<and> total_size len ys \<le> m
             \<and> (\<forall>j. n < j \<and> j \<le> length xs \<longrightarrow> m < total_size len (take j xs)))"

lemma maximal_fit_butlast:
  assumes "maximal_fit len m (butlast xs) ys" "m < total_size len xs" "m \<noteq> 0" "xs \<noteq> []"
  shows "maximal_fit len m xs ys"
proof -
  obtain n where n: "n \<le> length xs - 1" "ys = take n (butlast xs)" "total_size len ys \<le> m"
    "\<forall>j. n < j \<and> j \<le> length xs - 1 \<longrightarrow> m < total_size len (take j (butlast xs))"
    using assms(1,3) by (auto simp: maximal_fit_def)
  have bl: "j \<le> length xs - 1 \<Longrightarrow> take j (butlast xs) = take j xs" for j
    using assms(4) by (cases xs rule: rev_cases) auto
  have "m < total_size len (take j xs)" if "n < j" "j \<le> length xs" for j
  proof (cases "j = length xs")
    case True
    then show ?thesis using assms(2) by simp
  next
    case False
    then show ?thesis using n(4) that bl [of j] by auto
  qed
  then show ?thesis using n bl [of n] assms(3) by (auto simp: maximal_fit_def intro!: exI [of _ n])
qed

lemma evict_loop_result:
  assumes "lru_inv len c" "0 \<le> lc_maxBytes c"
  shows "\<exists>c'. evict_loop len c = Some c' \<and> lru_inv len c' \<and> lc_maxBytes c' = lc_maxBytes c
    \<and> maximal_fit len (lc_maxBytes c) (contents c) (contents c')"
  using assms
proof (induction "length (lc_ll c)" arbitrary: c)
  case 0
  then have "contents c = []" by (simp add: contents_def)
  then show ?case using 0 evict_loop.simps [of len c]
    by (simp add: lru_inv_def maximal_fit_def)
next
  case (Suc n)
  show ?case
  proof (cases "lc_maxBytes c \<noteq> 0 \<and> lc_maxBytes c < lc_nbytes c")
    case False
    then have "evict_loop len c = Some c" by (subst evict_loop.simps) auto
    moreover have "maximal_fit len (lc_maxBytes c) (contents c) (contents c)"
      using False Suc.prems by (auto simp: maximal_fit_def lru_inv_def)
    ultimately show ?thesis using Suc.prems by blast
  next
    case True
    let ?c = "RemoveOldest len c"
    have ro: "lru_inv len ?c" "contents ?c = butlast (contents c)" "lc_maxBytes ?c = lc_maxBytes c"
      using RemoveOldest_inv [OF Suc.prems(1)] by auto
    have "length (contents ?c) = length (contents c) - 1" by (simp add: ro(2))
    then have "n = length (lc_ll ?c)" using Suc.hyps(2) by (simp add: contents_def)
    then obtain c' where c': "evict_loop len ?c = Some c'" "lru_inv len c'"
      "lc_maxBytes c' = lc_maxBytes c" "maximal_fit len (lc_maxBytes c) (butlast (contents c)) (contents c')"
      using Suc.hyps(1) [of ?c] ro Suc.prems(2) by auto
    have "maximal_fit len (lc_maxBytes c) (contents c) (contents c')"
    proof (rule maximal_fit_butlast [OF c'(4)])
      show "lc_maxBytes c < total_size len (contents c)" using True Suc.prems(1) by (simp add: lru_inv_def)
      show "contents c \<noteq> []" using Suc.hyps(2) by (auto simp: contents_def)
    qed (use True in simp)
    moreover have "evict_loop len c = Some c'" using True c'(1) by (subst evict_loop.simps) simp
    ultimately show ?thesis using c' by blast
  qed
qed

text \<open>With a negative limit no number of removals ends the loop.\<close>

lemma evict_loop_negative:
  assumes "evict_loop len c = Some c'"
  shows "lru_inv len c \<longrightarrow> 0 \<le> lc_maxBytes c"
proof (rule evict_loop.raw_induct [of "\<lambda>len c c'. lru_inv len c \<longrightarrow> 0 \<le> lc_maxBytes c",
      OF _ assms], intro impI)
  fix loop :: "('a \<Rightarrow> nat) \<Rightarrow> 'a Cache \<Rightarrow> 'a Cache option" and len c c'
  assume IH: "\<And>len c c'. loop len c = Some c' \<Longrightarrow> lru_inv len c \<longrightarrow> 0 \<le> lc_maxBytes c"
    and step: "(if lc_maxBytes c \<noteq> 0 \<and> lc_maxBytes c < lc_nbytes c
      then loop len (RemoveOldest len c) else Some c) = Some c'" and inv: "lru_inv len c"
  show "0 \<le> lc_maxBytes c"
  proof (cases "lc_maxBytes c \<noteq> 0 \<and> lc_maxBytes c < lc_nbytes c")
    case True
    then have "loop len (RemoveOldest len c) = Some c'" using step by simp
    from IH [OF this] show ?thesis using RemoveOldest_inv [OF inv] by simp
  next
    case False
    then show ?thesis using inv total_size_nonneg [of len "contents c"] by (auto simp: lru_inv_def)
  qed
qed

section \<open>The operations on the recency list\<close>

definition lookup :: "'v Cache \<Rightarrow> string \<Rightarrow> 'v option" where
  "lookup c = map_of (contents c)"

definition without :: "string \<Rightarrow> (string \<times> 'v) list \<Rightarrow> (string \<times> 'v) list" where
  "without k xs = filter (\<lambda>p. fst p \<noteq> k) xs"

lemma without_notin: "k \<notin> fst ` set xs \<Longrightarrow> without k xs = xs"
  unfolding without_def by (rule filter_fst_notin(1))

lemma without_append: "without k (xs @ ys) = without k xs @ without k ys"
  by (simp add: without_def)

lemma map_of_without: "map_of (without k xs) = (map_of xs)(k := None)"
  by (induction xs) (auto simp: without_def fun_eq_iff)

text \<open>Splitting the recency list at a key that the map knows.\<close>

lemma contents_split:
  assumes "lru_inv len c" "lc_ll c = ys @ (ele, e) # zs"
  defines "view \<equiv> map (\<lambda>(i, e). (le_key e, le_value e))"
  shows "contents c = view ys @ (le_key e, le_value e) # view zs"
    and "without (le_key e) (contents c) = view (ys @ zs)"
    and "map_of (contents c) (le_key e) = Some (le_value e)"
proof -
  show c: "contents c = view ys @ (le_key e, le_value e) # view zs"
    using assms by (simp add: contents_def)
  have d: "distinct (map fst (contents c))" using assms(1) by (simp add: lru_inv_def)
  then have "without (le_key e) (view ys) = view ys" "without (le_key e) (view zs) = view zs"
    unfolding c by (auto intro!: without_notin)
  then show "without (le_key e) (contents c) = view (ys @ zs)"
    unfolding c by (simp add: without_append view_def) (simp add: without_def)
  show "map_of (contents c) (le_key e) = Some (le_value e)"
    unfolding map_of_eq_Some_iff [OF d] by (simp add: c)
qed

lemma MoveToFront_split:
  assumes "lc_ll c = ys @ (ele, e) # zs" "ele \<notin> fst ` set ys" "ele \<notin> fst ` set zs"
  shows "MoveToFront ele (lc_ll c) = (ele, e) # ys @ zs"
  using assms by (simp add: MoveToFront_def filter_fst_notin)

lemma lru_inv_reorder:
  assumes "lru_inv len c" "lc_ll c = ys @ (ele, e) # zs" "le_key e' = le_key e"
    "n = lc_nbytes c + (int (len (le_value e')) - int (len (le_value e)))"
  shows "lru_inv len (c\<lparr>lc_ll := (ele, e') # ys @ zs, lc_nbytes := n\<rparr>)"
proof -
  let ?key = "map (\<lambda>(i, e). (le_key e, i))"
  have d: "distinct (map fst (contents c))" using assms(1) by (simp add: lru_inv_def)
  then have "distinct (map fst (?key (lc_ll c)))" by (simp add: contents_def comp_def case_prod_beta)
  then have "map_of (?key (lc_ll c)) = map_of (?key ((ele, e') # ys @ zs))"
    using assms(2,3) by (intro map_of_inject_set [THEN iffD2]) (auto simp: comp_def case_prod_beta)
  moreover have "distinct (map fst (contents (c\<lparr>lc_ll := (ele, e') # ys @ zs, lc_nbytes := n\<rparr>)))"
    using d assms(2,3) by (auto simp: contents_def comp_def case_prod_beta)
  ultimately show ?thesis
    using assms by (auto simp: lru_inv_def contents_def entry_size_def)
qed

lemma lru_Get_spec:
  assumes inv: "lru_inv len c"
  shows "lru_inv len (fst (lru_Get k c))" and "snd (lru_Get k c) = lookup c k"
    and "contents (fst (lru_Get k c)) =
      (case lookup c k of None \<Rightarrow> contents c | Some v \<Rightarrow> (k, v) # without k (contents c))"
    and "lc_maxBytes (fst (lru_Get k c)) = lc_maxBytes c"
proof -
  have "lru_inv len (fst (lru_Get k c)) \<and> snd (lru_Get k c) = lookup c k
    \<and> contents (fst (lru_Get k c)) =
      (case lookup c k of None \<Rightarrow> contents c | Some v \<Rightarrow> (k, v) # without k (contents c))"
  proof (cases "lc_cache c k")
    case None
    then show ?thesis using inv map_of_contents [OF inv None] by (simp add: lru_Get_def lookup_def)
  next
    case (Some ele)
    obtain ys e zs where ll: "lc_ll c = ys @ (ele, e) # zs" and k: "le_key e = k"
      and notin: "ele \<notin> fst ` set ys" "ele \<notin> fst ` set zs" and m: "map_of (lc_ll c) ele = Some e"
      using lru_inv_cacheD [OF inv Some] by blast
    have get: "lru_Get k c = (c\<lparr>lc_ll := (ele, e) # ys @ zs\<rparr>, Some (le_value e))"
      using Some m MoveToFront_split [OF ll notin] by (simp add: lru_Get_def)
    have "lru_inv len (c\<lparr>lc_ll := (ele, e) # ys @ zs\<rparr>)"
      using lru_inv_reorder [OF inv ll refl refl] by simp
    then show ?thesis using contents_split [OF inv ll] k unfolding get
      by (simp add: lookup_def contents_def)
  qed
  then show "lru_inv len (fst (lru_Get k c))" "snd (lru_Get k c) = lookup c k"
    "contents (fst (lru_Get k c)) =
      (case lookup c k of None \<Rightarrow> contents c | Some v \<Rightarrow> (k, v) # without k (contents c))"
    by auto
  show "lc_maxBytes (fst (lru_Get k c)) = lc_maxBytes c"
    by (simp add: lru_Get_def split: option.split)
qed

lemma lru_put_spec:
  assumes inv: "lru_inv len c"
  shows "lru_inv len (lru_put len k v c)
    \<and> contents (lru_put len k v c) = (k, v) # without k (contents c)
    \<and> lc_maxBytes (lru_put len k v c) = lc_maxBytes c"
proof (cases "lc_cache c k")
  case None
  have k: "k \<notin> fst ` set (contents c)" by (rule lru_inv_cache_None [OF inv None])
  have fresh: "lc_fresh c \<notin> fst ` set (lc_ll c)" using inv by (auto simp: lru_inv_def)
  have put: "lru_put len k v c = c\<lparr>lc_ll := (lc_fresh c, \<lparr>le_key = k, le_value = v\<rparr>) # lc_ll c,
      lc_cache := (lc_cache c)(k \<mapsto> lc_fresh c), lc_nbytes := lc_nbytes c + entry_size len k v,
      lc_fresh := Suc (lc_fresh c)\<rparr>"
    using None by (simp add: lru_put_def)
  have "contents (lru_put len k v c) = (k, v) # contents c" by (simp add: put contents_def)
  moreover have "lru_inv len (lru_put len k v c)"
    using inv k fresh unfolding put lru_inv_def by (auto simp: contents_def)
  ultimately show ?thesis using without_notin [OF k] by (simp add: put)
next
  case (Some ele)
  obtain ys e zs where ll: "lc_ll c = ys @ (ele, e) # zs" and k: "le_key e = k"
    and notin: "ele \<notin> fst ` set ys" "ele \<notin> fst ` set zs" and m: "map_of (lc_ll c) ele = Some e"
    using lru_inv_cacheD [OF inv Some] by blast
  have id: "map (\<lambda>(i, d). (i, if i = ele then d\<lparr>le_value := v\<rparr> else d)) xs = xs"
    if "ele \<notin> fst ` set xs" for xs :: "(nat \<times> 'a lru_entry) list"
    using that by (induction xs) auto
  have put: "lru_put len k v c = c\<lparr>lc_ll := (ele, e\<lparr>le_value := v\<rparr>) # ys @ zs,
      lc_nbytes := lc_nbytes c + (int (len v) - int (len (le_value e)))\<rparr>"
    using Some m MoveToFront_split [OF ll notin] id [OF notin(1)] id [OF notin(2)]
    by (simp add: lru_put_def)
  have "lru_inv len (lru_put len k v c)"
    unfolding put by (rule lru_inv_reorder [OF inv ll]) simp_all
  then show ?thesis using contents_split(2) [OF inv ll] k by (simp add: put contents_def)
qed

lemma lru_Remove_spec:
  assumes inv: "lru_inv len c"
  shows "lru_inv len (fst (lru_Remove len k c))
    \<and> contents (fst (lru_Remove len k c)) = without k (contents c)
    \<and> lc_maxBytes (fst (lru_Remove len k c)) = lc_maxBytes c
    \<and> (snd (lru_Remove len k c) \<longleftrightarrow> lookup c k \<noteq> None)"
proof (cases "lc_cache c k")
  case None
  then show ?thesis
    using inv without_notin [OF lru_inv_cache_None [OF inv None]] map_of_contents [OF inv None]
    by (simp add: lru_Remove_def lookup_def)
next
  case (Some ele)
  obtain ys e zs where ll: "lc_ll c = ys @ (ele, e) # zs" and k: "le_key e = k"
    and m: "map_of (lc_ll c) ele = Some e"
    using lru_inv_cacheD [OF inv Some] by blast
  have "lru_Remove len k c = (drop_entry len ele (le_key e) e c, True)"
    using Some m k by (simp add: lru_Remove_def)
  then show ?thesis using drop_entry_inv [OF inv ll] contents_split [OF inv ll] k
    by (simp add: lookup_def)
qed

lemma lru_Add_spec:
  assumes "lru_inv len c" "0 \<le> lc_maxBytes c"
  shows "\<exists>c'. lru_Add len k v c = Some c' \<and> lru_inv len c' \<and> lc_maxBytes c' = lc_maxBytes c
    \<and> maximal_fit len (lc_maxBytes c) ((k, v) # without k (contents c)) (contents c')"
  using evict_loop_result [of len "lru_put len k v c"] lru_put_spec [OF assms(1), of k v] assms(2)
  by (simp add: lru_Add_def)

lemma maximal_fit_lookup:
  assumes "maximal_fit len m ((k, v) # xs) ys"
  shows "map_of ys \<subseteq>\<^sub>m map_of ((k, v) # xs)"
    and "m = 0 \<or> entry_size len k v \<le> m \<Longrightarrow> map_of ys k = Some v"
proof -
  obtain n where n: "ys = take n ((k, v) # xs)"
    using assms by (metis maximal_fit_def take_all_iff order_refl)
  have "map_of (take n zs) \<subseteq>\<^sub>m map_of zs" for zs :: "(string \<times> 'a) list"
    using map_le_map_add [of "map_of (take n zs)" "map_of (drop n zs)"]
    by (metis append_take_drop_id map_of_append map_add_def map_le_def option.simps(5) domIff not_None_eq)
  then show "map_of ys \<subseteq>\<^sub>m map_of ((k, v) # xs)" unfolding n .
  assume fits: "m = 0 \<or> entry_size len k v \<le> m"
  have "ys \<noteq> []"
  proof
    assume "ys = []"
    with assms have "m \<noteq> 0" "m < total_size len (take 1 ((k, v) # xs))"
      by (auto simp: maximal_fit_def split: if_splits)
    then show False using fits by simp
  qed
  then show "map_of ys k = Some v" using n by (cases n) auto
qed

section \<open>The contract of a bounded cache\<close>

text \<open>
  What a client may rely on. \<open>look\<close> is the map the cache holds, \<open>ok\<close> its invariant. A cache
  may forget, so \<open>look\<close> after an addition is only part of the updated map.
\<close>

locale bounded_cache =
  fixes empty :: "int \<Rightarrow> 'c"
    and get :: "string \<Rightarrow> 'c \<Rightarrow> 'c \<times> 'v option"
    and add :: "string \<Rightarrow> 'v \<Rightarrow> 'c \<Rightarrow> 'c option"
    and remove :: "string \<Rightarrow> 'c \<Rightarrow> 'c \<times> bool"
    and look :: "'c \<Rightarrow> string \<Rightarrow> 'v option"
    and ok :: "'c \<Rightarrow> bool"
  assumes empty_ok: "0 \<le> m \<Longrightarrow> ok (empty m) \<and> look (empty m) = Map.empty"
    and get_ok: "ok c \<Longrightarrow> ok (fst (get k c)) \<and> snd (get k c) = look c k
      \<and> look (fst (get k c)) = look c"
    and add_ok: "ok c \<Longrightarrow> \<exists>c'. add k v c = Some c' \<and> ok c' \<and> look c' \<subseteq>\<^sub>m (look c)(k \<mapsto> v)"
    and remove_ok: "ok c \<Longrightarrow> ok (fst (remove k c)) \<and> look (fst (remove k c)) = (look c)(k := None)"
begin

text \<open>
  A cache is coherent with the map \<open>L\<close> of the latest writes when it holds part of it. Each
  call keeps the two in step, and a lookup answers with the latest write or not at all.
\<close>

lemma get_coherent:
  assumes "ok c" "look c \<subseteq>\<^sub>m L" "get k c = (c', r)"
  shows "ok c' \<and> look c' \<subseteq>\<^sub>m L \<and> (r = None \<or> r = L k)"
  using get_ok [OF assms(1), of k] assms(2,3) by (auto simp: map_le_def)

lemma add_coherent:
  assumes "ok c" "look c \<subseteq>\<^sub>m L"
  shows "\<exists>c'. add k v c = Some c' \<and> ok c' \<and> look c' \<subseteq>\<^sub>m L(k \<mapsto> v)"
  using add_ok [OF assms(1), of k v] assms(2) map_le_trans map_le_upd by fast

lemma remove_coherent:
  assumes "ok c" "look c \<subseteq>\<^sub>m L"
  shows "ok (fst (remove k c)) \<and> look (fst (remove k c)) \<subseteq>\<^sub>m L(k := None)"
  using remove_ok [OF assms(1), of k] assms(2) by (auto simp: map_le_def)

end

definition lru_ok :: "('v \<Rightarrow> nat) \<Rightarrow> 'v Cache \<Rightarrow> bool" where
  "lru_ok len c = (lru_inv len c \<and> 0 \<le> lc_maxBytes c)"

interpretation lru_cache: bounded_cache "\<lambda>m. lru_New m False" lru_Get "lru_Add len"
  "lru_Remove len" lookup "lru_ok len" for len :: "'v \<Rightarrow> nat"
proof unfold_locales
  fix m :: int
  assume "0 \<le> m"
  then show "lru_ok len (lru_New m False) \<and> lookup (lru_New m False) = Map.empty"
    by (simp add: lru_ok_def lookup_def lru_New_def contents_def lru_inv_def)
next
  fix c :: "'v Cache" and k
  assume "lru_ok len c"
  then have inv: "lru_inv len c" and m: "0 \<le> lc_maxBytes c" by (simp_all add: lru_ok_def)
  have "map_of ((k, v) # without k (contents c)) = map_of (contents c)"
    if "map_of (contents c) k = Some v" for v
    using that by (simp add: map_of_without fun_upd_idem)
  then show "lru_ok len (fst (lru_Get k c)) \<and> snd (lru_Get k c) = lookup c k
      \<and> lookup (fst (lru_Get k c)) = lookup c"
    using lru_Get_spec [OF inv, of k] m by (simp add: lru_ok_def lookup_def split: option.splits)
  show "lru_ok len (fst (lru_Remove len k c))
      \<and> lookup (fst (lru_Remove len k c)) = (lookup c)(k := None)"
    using lru_Remove_spec [OF inv, of k] m by (simp add: lru_ok_def lookup_def map_of_without)
  show "\<exists>c'. lru_Add len k v c = Some c' \<and> lru_ok len c' \<and> lookup c' \<subseteq>\<^sub>m (lookup c)(k \<mapsto> v)" for v
    using lru_Add_spec [OF inv m, of k v]
      maximal_fit_lookup(1) [of len _ k v "without k (contents c)"] m
    by (auto simp: lru_ok_def lookup_def map_of_without)
qed

section \<open>Properties\<close>

text \<open>
  C5: \<^verbatim>\<open>Add\<close> with a limit that is not negative returns, and leaves the longest prefix of the new
  recency list (the added entry first, then the others in their old order) that stays within
  the limit, or all of it without a limit. The added value is found afterwards unless it alone
  exceeds the limit.
\<close>

theorem lru_Add_correct:
  assumes "lru_inv len c" and "0 \<le> lc_maxBytes c"
  shows "\<exists>c'. lru_Add len k v c = Some c' \<and> lru_inv len c' \<and> lc_maxBytes c' = lc_maxBytes c
    \<and> maximal_fit len (lc_maxBytes c) ((k, v) # without k (contents c)) (contents c')
    \<and> (lc_maxBytes c = 0 \<or> entry_size len k v \<le> lc_maxBytes c
        \<longrightarrow> snd (lru_Get k c') = Some v)"
proof -
  obtain c' where c': "lru_Add len k v c = Some c'" "lru_inv len c'" "lc_maxBytes c' = lc_maxBytes c"
    "maximal_fit len (lc_maxBytes c) ((k, v) # without k (contents c)) (contents c')"
    using lru_Add_spec [OF assms] by blast
  then show ?thesis
    using maximal_fit_lookup(2) [OF c'(4)] lru_Get_spec(2) [OF c'(2), of k] by (auto simp: lookup_def)
qed

definition two_entries :: "string Cache" where
  "two_entries = lru_put length ''b'' ''22'' (lru_put length ''a'' ''11'' (lru_New 6 True))"

lemma two_entries_ok: "lru_inv length two_entries" "lc_maxBytes two_entries = 6"
  unfolding two_entries_def by (simp_all add: lru_put_spec lru_New_max)

theorem lru_Add_correct_witness:
  "\<exists>c'. lru_Add length ''c'' ''3'' two_entries = Some c' \<and> lru_inv length c'
    \<and> snd (lru_Get ''c'' c') = Some ''3''"
  using lru_Add_correct [OF two_entries_ok(1), of "''c''" "''3''"]
  by (auto simp: two_entries_ok entry_size_def)

text \<open>
  \<^verbatim>\<open>Get\<close> and \<^verbatim>\<open>Remove\<close> implement their recency list operations: a hit returns the value and
  moves the key to the front, a miss changes nothing, and a removal takes out exactly the key
  and says whether it was there.
\<close>

theorem lru_Get_Remove_refine:
  assumes "lru_inv len c"
  shows "snd (lru_Get k c) = map_of (contents c) k
    \<and> contents (fst (lru_Get k c)) =
        (case map_of (contents c) k of None \<Rightarrow> contents c | Some v \<Rightarrow> (k, v) # without k (contents c))
    \<and> contents (fst (lru_Remove len k c)) = without k (contents c)
    \<and> (snd (lru_Remove len k c) \<longleftrightarrow> map_of (contents c) k \<noteq> None)
    \<and> lru_inv len (fst (lru_Get k c)) \<and> lru_inv len (fst (lru_Remove len k c))"
  using lru_Get_spec [OF assms, of k] lru_Remove_spec [OF assms, of k]
  unfolding lookup_def by blast

theorem lru_Get_Remove_refine_witness:
  "contents two_entries = [(''b'', ''22''), (''a'', ''11'')]
   \<and> contents (fst (lru_Get ''a'' two_entries)) = [(''a'', ''11''), (''b'', ''22'')]
   \<and> contents (fst (lru_Remove length ''b'' two_entries)) = [(''a'', ''11'')]"
proof -
  have "contents two_entries = [(''b'', ''22''), (''a'', ''11'')]"
    by (simp add: two_entries_def lru_put_spec without_def contents_def [of "lru_New 6 True"])
      (simp add: lru_New_def)
  then show ?thesis
    using lru_Get_Remove_refine [OF two_entries_ok(1), of "''a''"]
      lru_Get_Remove_refine [OF two_entries_ok(1), of "''b''"]
    by (simp add: without_def)
qed

text \<open>Sequences of calls; a call that does not return makes the sequence not return.\<close>

datatype 'v lru_call = CallAdd string 'v | CallGet string | CallRemove string | CallRemoveOldest

fun lru_do :: "('v \<Rightarrow> nat) \<Rightarrow> 'v lru_call \<Rightarrow> 'v Cache \<Rightarrow> 'v Cache option" where
  "lru_do len (CallAdd k v) c = lru_Add len k v c"
| "lru_do len (CallGet k) c = Some (fst (lru_Get k c))"
| "lru_do len (CallRemove k) c = Some (fst (lru_Remove len k c))"
| "lru_do len CallRemoveOldest c = Some (RemoveOldest len c)"

fun lru_run :: "('v \<Rightarrow> nat) \<Rightarrow> 'v lru_call list \<Rightarrow> 'v Cache \<Rightarrow> 'v Cache option" where
  "lru_run len [] c = Some c"
| "lru_run len (a # as) c = (case lru_do len a c of None \<Rightarrow> None | Some c' \<Rightarrow> lru_run len as c')"

definition within_limit :: "('v \<Rightarrow> nat) \<Rightarrow> 'v Cache \<Rightarrow> bool" where
  "within_limit len c = (lc_maxBytes c = 0 \<or> total_size len (contents c) \<le> lc_maxBytes c)"

lemma total_size_without: "total_size len (without k xs) \<le> total_size len xs"
  by (induction xs) (auto simp: without_def entry_size_def)

lemma total_size_promote:
  "map_of xs k = Some v \<Longrightarrow> entry_size len k v + total_size len (without k xs) \<le> total_size len xs"
proof (induction xs)
  case (Cons p xs)
  then show ?case using total_size_without [of len k xs]
    by (cases p) (auto simp: without_def split: if_splits)
qed simp

lemma total_size_butlast: "total_size len (butlast xs) \<le> total_size len xs"
proof (cases xs rule: rev_cases)
  case (snoc ys p)
  then show ?thesis by (cases p) (simp add: entry_size_def)
qed simp

lemma lru_do_ok:
  assumes inv: "lru_inv len c" and m: "0 \<le> lc_maxBytes c" and "within_limit len c"
  shows "\<exists>c'. lru_do len a c = Some c' \<and> lru_inv len c' \<and> lc_maxBytes c' = lc_maxBytes c
    \<and> within_limit len c'"
proof (cases a)
  case (CallAdd k v)
  obtain c' where c': "lru_Add len k v c = Some c'" "lru_inv len c'" "lc_maxBytes c' = lc_maxBytes c"
    "maximal_fit len (lc_maxBytes c) ((k, v) # without k (contents c)) (contents c')"
    using lru_Add_spec [OF inv m] by blast
  then have "within_limit len c'" by (auto simp: within_limit_def maximal_fit_def split: if_splits)
  then show ?thesis using CallAdd c' by simp
next
  case (CallGet k)
  have "total_size len (contents (fst (lru_Get k c))) \<le> total_size len (contents c)"
    using lru_Get_spec(3) [OF inv, of k] total_size_promote [of "contents c" k]
    by (simp add: lookup_def split: option.splits)
  then show ?thesis using CallGet assms lru_Get_spec(1,4) [OF inv, of k]
    by (auto simp: within_limit_def)
next
  case (CallRemove k)
  then show ?thesis
    using assms lru_Remove_spec [OF inv, of k] total_size_without [of len k "contents c"]
    by (auto simp: within_limit_def)
next
  case CallRemoveOldest
  then show ?thesis
    using assms RemoveOldest_inv [OF inv] total_size_butlast [of len "contents c"]
    by (auto simp: within_limit_def)
qed

text \<open>
  C26: from a new cache whose limit is not negative, every sequence of calls returns, the byte
  count is exactly the size of what is held, and with a limit it never exceeds it.
\<close>

theorem lru_run_bounded:
  assumes "0 \<le> m"
  shows "\<exists>c. lru_run len calls (lru_New m b) = Some c \<and> lc_nbytes c = total_size len (contents c)
    \<and> (m = 0 \<or> lc_nbytes c \<le> m)"
proof -
  have "\<exists>c'. lru_run len calls c = Some c' \<and> lru_inv len c' \<and> lc_maxBytes c' = lc_maxBytes c
      \<and> within_limit len c'"
    if "lru_inv len c" "0 \<le> lc_maxBytes c" "within_limit len c" for c :: "'a Cache"
    using that
  proof (induction calls arbitrary: c)
    case (Cons a as)
    obtain c1 where c1: "lru_do len a c = Some c1" "lru_inv len c1" "lc_maxBytes c1 = lc_maxBytes c"
      "within_limit len c1"
      using lru_do_ok [OF Cons.prems] by blast
    then show ?case using Cons.IH [of c1] Cons.prems(2) by simp
  qed simp
  moreover have "within_limit len (lru_New m b :: 'a Cache)"
    using assms by (simp add: within_limit_def lru_New_def contents_def)
  ultimately obtain c where "lru_run len calls (lru_New m b) = Some c" "lru_inv len c"
    "lc_maxBytes c = m" "within_limit len c"
    using assms lru_inv_New lru_New_max by metis
  then show ?thesis by (auto simp: lru_inv_def within_limit_def)
qed

theorem lru_run_bounded_witness:
  "\<exists>c. lru_run length [CallAdd ''a'' ''1'', CallGet ''b'', CallAdd ''c'' ''2''] (lru_New 3 False) = Some c
    \<and> lc_nbytes c \<le> 3"
  using lru_run_bounded [of 3 length "[CallAdd ''a'' ''1'', CallGet ''b'', CallAdd ''c'' ''2'']" False]
  by auto

text \<open>
  with a negative limit \<^verbatim>\<open>Add\<close> never returns: the loop keeps calling \<^verbatim>\<open>RemoveOldest\<close> on an
  empty list. The configuration admits such a limit.
\<close>

theorem lru_Add_negative_limit_diverges:
  assumes "lru_inv len c" and "lc_maxBytes c < 0"
  shows "lru_Add len k v c = None"
  using evict_loop_negative [of len "lru_put len k v c"] lru_put_spec [OF assms(1), of k v] assms(2)
  unfolding lru_Add_def by (metis linorder_not_less option.exhaust)

theorem lru_Add_negative_limit_diverges_witness:
  "lru_Add length ''a'' ''1'' (lru_New (-1) False) = None"
  by (rule lru_Add_negative_limit_diverges) (simp_all add: lru_New_max)

end
