(* ===== verification/Cache_Store.thy ===== *)
theory Cache_Store
  imports LRU
begin

text \<open>
  \<^verbatim>\<open>cache/cache.go\<close> and \<^verbatim>\<open>cache/byteView.go\<close>: the mutex-protected store of a cache group, an LRU
  cache of byte views with an optional expiry time, created on the first write. The time
  that \<^verbatim>\<open>time.Now\<close> reads is an argument. Each operation holds the lock from start to end, so a
  concurrent history is a sequence of operations. An operation whose LRU call does not return
  is \<^const>\<open>None\<close>.
\<close>

section \<open>Types\<close>

record ByteView =
  bv_b :: string

definition bv_Len :: "ByteView \<Rightarrow> nat" where
  "bv_Len v = length (bv_b v)"

definition cloneBytes :: "string \<Rightarrow> string" where
  "cloneBytes b = map (\<lambda>i. b ! i) [0..<length b]"

definition bv_ByteSlice :: "ByteView \<Rightarrow> string" where
  "bv_ByteSlice v = cloneBytes (bv_b v)"

definition bv_String :: "ByteView \<Rightarrow> string" where
  "bv_String v = bv_b v"

text \<open>The zero time, which means no expiry, is \<^const>\<open>None\<close>.\<close>

record cacheEntry =
  ce_value :: ByteView
  ce_expiresAt :: "int option"

definition ce_Len :: "cacheEntry \<Rightarrow> nat" where
  "ce_Len e = bv_Len (ce_value e)"

definition expired :: "int \<Rightarrow> cacheEntry \<Rightarrow> bool" where
  "expired now e = (case ce_expiresAt e of None \<Rightarrow> False | Some t \<Rightarrow> now > t)"

record cache =
  ca_lru :: "cacheEntry Cache option"
  ca_cacheBytes :: int

section \<open>Operations\<close>

definition newCache :: "int \<Rightarrow> cache" where
  "newCache maxBytes = \<lparr>ca_lru = None, ca_cacheBytes = maxBytes\<rparr>"

text \<open>The LRU cache in use, a new one if there is none yet.\<close>

definition the_lru :: "cache \<Rightarrow> cacheEntry Cache" where
  "the_lru c = (case ca_lru c of None \<Rightarrow> lru_New (ca_cacheBytes c) False | Some l \<Rightarrow> l)"

definition cache_add :: "string \<Rightarrow> ByteView \<Rightarrow> cache \<Rightarrow> cache option" where
  "cache_add key value c =
     (case lru_Add ce_Len key \<lparr>ce_value = value, ce_expiresAt = None\<rparr> (the_lru c) of
        None \<Rightarrow> None
      | Some l \<Rightarrow> Some (c\<lparr>ca_lru := Some l\<rparr>))"

definition cache_addWithTTL :: "int \<Rightarrow> string \<Rightarrow> ByteView \<Rightarrow> int \<Rightarrow> cache \<Rightarrow> cache option" where
  "cache_addWithTTL now key value ttl c =
     (case lru_Add ce_Len key \<lparr>ce_value = value, ce_expiresAt = Some (now + ttl)\<rparr> (the_lru c) of
        None \<Rightarrow> None
      | Some l \<Rightarrow> Some (c\<lparr>ca_lru := Some l\<rparr>))"

definition cache_get :: "int \<Rightarrow> string \<Rightarrow> cache \<Rightarrow> cache \<times> ByteView option" where
  "cache_get now key c =
     (case ca_lru c of
        None \<Rightarrow> (c, None)
      | Some l \<Rightarrow>
          (case lru_Get key l of
             (l1, None) \<Rightarrow> (c\<lparr>ca_lru := Some l1\<rparr>, None)
           | (l1, Some entry) \<Rightarrow>
               if expired now entry
               then (c\<lparr>ca_lru := Some (fst (lru_Remove ce_Len key l1))\<rparr>, None)
               else (c\<lparr>ca_lru := Some l1\<rparr>, Some (ce_value entry))))"

definition cache_delete :: "string \<Rightarrow> cache \<Rightarrow> cache" where
  "cache_delete key c =
     (case ca_lru c of
        None \<Rightarrow> c
      | Some l \<Rightarrow> c\<lparr>ca_lru := Some (fst (lru_Remove ce_Len key l))\<rparr>)"

definition cache_purge :: "cache \<Rightarrow> cache" where
  "cache_purge c = c\<lparr>ca_lru := None\<rparr>"

section \<open>Invariant and coherence\<close>

definition cache_ok :: "cache \<Rightarrow> bool" where
  "cache_ok c = (0 \<le> ca_cacheBytes c \<and> (\<forall>l. ca_lru c = Some l \<longrightarrow> lru_ok ce_Len l
     \<and> lc_maxBytes l = ca_cacheBytes c))"

definition cache_lookup :: "cache \<Rightarrow> string \<Rightarrow> cacheEntry option" where
  "cache_lookup c = (case ca_lru c of None \<Rightarrow> Map.empty | Some l \<Rightarrow> lookup l)"

lemma cache_ok_lru:
  assumes "cache_ok c"
  shows "lru_ok ce_Len (the_lru c)" "lookup (the_lru c) = cache_lookup c"
    "lc_maxBytes (the_lru c) = ca_cacheBytes c"
  using assms lru_cache.empty_ok [of "ca_cacheBytes c" ce_Len]
  by (auto simp: cache_ok_def the_lru_def cache_lookup_def lru_New_max split: option.splits)

lemma lru_Add_max:
  "lru_ok len l \<Longrightarrow> lru_Add len k v l = Some l' \<Longrightarrow> lc_maxBytes l' = lc_maxBytes l"
  using lru_Add_spec [of len l k v] by (auto simp: lru_ok_def)

text \<open>Adding any entry, with or without an expiry time.\<close>

lemma cache_put_coherent:
  assumes "cache_ok c" "cache_lookup c \<subseteq>\<^sub>m L"
  shows "\<exists>l. lru_Add ce_Len k e (the_lru c) = Some l \<and> cache_ok (c\<lparr>ca_lru := Some l\<rparr>)
    \<and> cache_lookup (c\<lparr>ca_lru := Some l\<rparr>) \<subseteq>\<^sub>m L(k \<mapsto> e)"
proof -
  have L: "lookup (the_lru c) \<subseteq>\<^sub>m L" using assms(2) cache_ok_lru(2) [OF assms(1)] by simp
  obtain l where "lru_Add ce_Len k e (the_lru c) = Some l" "lru_ok ce_Len l" "lookup l \<subseteq>\<^sub>m L(k \<mapsto> e)"
    using lru_cache.add_coherent [OF cache_ok_lru(1) [OF assms(1)] L] by blast
  then show ?thesis
    using lru_Add_max [OF cache_ok_lru(1) [OF assms(1)]] cache_ok_lru(3) [OF assms(1)] assms(1)
    by (auto simp: cache_ok_def cache_lookup_def)
qed

lemma lru_Remove_max:
  "lru_ok len l \<Longrightarrow> lc_maxBytes (fst (lru_Remove len k l)) = lc_maxBytes l"
  using lru_Remove_spec [of len l k] by (auto simp: lru_ok_def)

lemma cache_delete_coherent:
  assumes "cache_ok c" "cache_lookup c \<subseteq>\<^sub>m L"
  shows "cache_ok (cache_delete k c) \<and> cache_lookup (cache_delete k c) \<subseteq>\<^sub>m L(k := None)"
proof (cases "ca_lru c")
  case None
  then show ?thesis using assms by (simp add: cache_delete_def cache_lookup_def)
next
  case (Some l)
  then have l: "lru_ok ce_Len l" "lookup l \<subseteq>\<^sub>m L" "lc_maxBytes l = ca_cacheBytes c"
    using assms by (simp_all add: cache_ok_def cache_lookup_def)
  then show ?thesis
    using lru_cache.remove_coherent [OF l(1,2), of k] lru_Remove_max [OF l(1), of k] assms(1) Some
    by (simp add: cache_delete_def cache_ok_def cache_lookup_def)
qed

lemma cache_get_coherent:
  assumes "cache_ok c" "cache_lookup c \<subseteq>\<^sub>m L" "cache_get now k c = (c', r)"
  shows "cache_ok c' \<and> cache_lookup c' \<subseteq>\<^sub>m L
    \<and> (\<forall>v. r = Some v \<longrightarrow> (\<exists>e. L k = Some e \<and> \<not> expired now e \<and> v = ce_value e))"
proof (cases "ca_lru c")
  case None
  then show ?thesis using assms by (auto simp: cache_get_def)
next
  case (Some l)
  then have l: "lru_ok ce_Len l" "lookup l \<subseteq>\<^sub>m L" "lc_maxBytes l = ca_cacheBytes c"
    using assms(1,2) by (simp_all add: cache_ok_def cache_lookup_def)
  obtain l1 q where g: "lru_Get k l = (l1, q)" by fastforce
  have l1: "lru_ok ce_Len l1" "lookup l1 \<subseteq>\<^sub>m L" "q = None \<or> q = L k"
    using lru_cache.get_coherent [OF l(1,2) g] by auto
  have m1: "lc_maxBytes l1 = ca_cacheBytes c"
    using lru_Get_spec(4) [of ce_Len l k] l g by (simp add: lru_ok_def)
  have rm: "lru_ok ce_Len (fst (lru_Remove ce_Len k l1))" "lookup (fst (lru_Remove ce_Len k l1)) \<subseteq>\<^sub>m L"
    using lru_cache.remove_ok [OF l1(1), of k] l1(2) by (auto simp: map_le_def)
  show ?thesis
    using assms(1,3) Some g l1 m1 rm lru_Remove_max [OF l1(1), of k]
    by (auto simp: cache_get_def cache_ok_def cache_lookup_def split: option.splits if_splits) metis
qed

section \<open>Histories\<close>

datatype cache_call =
    CacheAdd string ByteView
  | CacheAddTTL string ByteView int
  | CacheGet string
  | CacheDelete string
  | CachePurge

fun cache_do :: "int \<Rightarrow> cache_call \<Rightarrow> cache \<Rightarrow> cache option" where
  "cache_do now (CacheAdd k v) c = cache_add k v c"
| "cache_do now (CacheAddTTL k v ttl) c = cache_addWithTTL now k v ttl c"
| "cache_do now (CacheGet k) c = Some (fst (cache_get now k c))"
| "cache_do now (CacheDelete k) c = Some (cache_delete k c)"
| "cache_do now CachePurge c = Some (cache_purge c)"

fun cache_run :: "(int \<times> cache_call) list \<Rightarrow> cache \<Rightarrow> cache option" where
  "cache_run [] c = Some c"
| "cache_run ((now, a) # h) c =
     (case cache_do now a c of None \<Rightarrow> None | Some c' \<Rightarrow> cache_run h c')"

text \<open>The specification: the latest write of each key since it was deleted or all was purged.\<close>

fun latest_do :: "int \<Rightarrow> cache_call \<Rightarrow> (string \<Rightarrow> cacheEntry option) \<Rightarrow> (string \<Rightarrow> cacheEntry option)" where
  "latest_do now (CacheAdd k v) L = L(k \<mapsto> \<lparr>ce_value = v, ce_expiresAt = None\<rparr>)"
| "latest_do now (CacheAddTTL k v ttl) L = L(k \<mapsto> \<lparr>ce_value = v, ce_expiresAt = Some (now + ttl)\<rparr>)"
| "latest_do now (CacheGet k) L = L"
| "latest_do now (CacheDelete k) L = L(k := None)"
| "latest_do now CachePurge L = Map.empty"

definition latest :: "(int \<times> cache_call) list \<Rightarrow> string \<Rightarrow> cacheEntry option" where
  "latest h = fold (\<lambda>(now, a). latest_do now a) h Map.empty"

lemma cache_do_coherent:
  assumes "cache_ok c" "cache_lookup c \<subseteq>\<^sub>m L"
  shows "\<exists>c'. cache_do now a c = Some c' \<and> cache_ok c' \<and> cache_lookup c' \<subseteq>\<^sub>m latest_do now a L"
proof (cases a)
  case (CacheAdd k v)
  then show ?thesis
    using cache_put_coherent [OF assms, of k "\<lparr>ce_value = v, ce_expiresAt = None\<rparr>"]
    by (auto simp: cache_add_def)
next
  case (CacheAddTTL k v ttl)
  then show ?thesis
    using cache_put_coherent [OF assms, of k "\<lparr>ce_value = v, ce_expiresAt = Some (now + ttl)\<rparr>"]
    by (auto simp: cache_addWithTTL_def)
next
  case (CacheGet k)
  then show ?thesis using cache_get_coherent [OF assms prod.collapse [symmetric], of now k] by simp
next
  case (CacheDelete k)
  then show ?thesis using cache_delete_coherent [OF assms, of k] by simp
next
  case CachePurge
  then show ?thesis using assms(1) by (simp add: cache_purge_def cache_ok_def cache_lookup_def)
qed

lemma cache_run_coherent:
  assumes "cache_ok c" "cache_lookup c \<subseteq>\<^sub>m L"
  shows "\<exists>c'. cache_run h c = Some c' \<and> cache_ok c'
    \<and> cache_lookup c' \<subseteq>\<^sub>m fold (\<lambda>(now, a). latest_do now a) h L"
  using assms
proof (induction h arbitrary: c L)
  case (Cons p h)
  obtain now a where p: "p = (now, a)" by (cases p)
  obtain c1 where "cache_do now a c = Some c1" "cache_ok c1" "cache_lookup c1 \<subseteq>\<^sub>m latest_do now a L"
    using cache_do_coherent [OF Cons.prems] by blast
  then show ?case using Cons.IH [of c1 "latest_do now a L"] p by auto
qed simp

lemma newCache_ok: "0 \<le> m \<Longrightarrow> cache_ok (newCache m) \<and> cache_lookup (newCache m) = Map.empty"
  by (simp add: cache_ok_def newCache_def cache_lookup_def)

section \<open>Properties\<close>

text \<open>
  C9: a store with a limit that is not negative never serves stale data. After any history of
  calls at any times, every call has returned, and a read answers with the value of the latest
  write of that key since its last deletion or purge, provided it has not expired, or misses.
\<close>

theorem cache_coherent:
  assumes "0 \<le> m"
  shows "\<exists>c. cache_run h (newCache m) = Some c \<and> (\<forall>now k v. snd (cache_get now k c) = Some v \<longrightarrow>
    (\<exists>e. latest h k = Some e \<and> \<not> expired now e \<and> v = ce_value e))"
proof -
  obtain c where c: "cache_run h (newCache m) = Some c" "cache_ok c" "cache_lookup c \<subseteq>\<^sub>m latest h"
    using cache_run_coherent [of "newCache m" Map.empty h] newCache_ok [OF assms]
    by (auto simp: latest_def)
  then show ?thesis using cache_get_coherent [OF c(2,3) prod.collapse [symmetric]] by blast
qed

theorem cache_coherent_witness:
  "\<exists>c. cache_run [(0, CacheAdd ''k'' \<lparr>bv_b = ''1''\<rparr>), (1, CacheDelete ''k'')] (newCache 10) = Some c
     \<and> snd (cache_get 2 ''k'' c) = None"
proof -
  let ?h = "[(0, CacheAdd ''k'' \<lparr>bv_b = ''1''\<rparr>), (1, CacheDelete ''k'')]"
  obtain c where c: "cache_run ?h (newCache 10) = Some c" "\<forall>now k v. snd (cache_get now k c) = Some v \<longrightarrow>
      (\<exists>e. latest ?h k = Some e \<and> \<not> expired now e \<and> v = ce_value e)"
    using cache_coherent [of 10 ?h] by auto
  have "latest ?h ''k'' = None" by (simp add: latest_def)
  then have "snd (cache_get 2 ''k'' c) = None" using c(2) by (metis not_None_eq option.distinct(1))
  then show ?thesis using c(1) by blast
qed

text \<open>
  a value written with a time to live is served up to and including its expiry time and not
  after, when it fits the store.
\<close>

theorem addWithTTL_get:
  assumes "cache_ok c"
    and "ca_cacheBytes c = 0 \<or> int (length key) + int (bv_Len value) \<le> ca_cacheBytes c"
  shows "\<exists>c'. cache_addWithTTL now key value ttl c = Some c'
    \<and> snd (cache_get t key c') = (if t \<le> now + ttl then Some value else None)"
proof -
  let ?e = "\<lparr>ce_value = value, ce_expiresAt = Some (now + ttl)\<rparr>"
  have ok: "lru_inv ce_Len (the_lru c)" "0 \<le> lc_maxBytes (the_lru c)"
    using cache_ok_lru(1) [OF assms(1)] by (simp_all add: lru_ok_def)
  obtain l where l: "lru_Add ce_Len key ?e (the_lru c) = Some l" "lru_inv ce_Len l"
      "maximal_fit ce_Len (lc_maxBytes (the_lru c)) ((key, ?e) # without key (contents (the_lru c))) (contents l)"
    using lru_Add_spec [OF ok] by blast
  have "map_of (contents l) key = Some ?e"
    using maximal_fit_lookup(2) [OF l(3)] assms(2) cache_ok_lru(3) [OF assms(1)]
    by (simp add: entry_size_def ce_Len_def)
  then have "snd (lru_Get key l) = Some ?e" using lru_Get_spec(2) [OF l(2), of key] by (simp add: lookup_def)
  then show ?thesis using l(1)
    by (auto simp: cache_addWithTTL_def cache_get_def expired_def split: prod.splits)
qed

theorem addWithTTL_get_witness:
  "\<exists>c'. cache_addWithTTL 5 ''k'' \<lparr>bv_b = ''v''\<rparr> 10 (newCache 2) = Some c'
     \<and> snd (cache_get 15 ''k'' c') = Some \<lparr>bv_b = ''v''\<rparr>"
  using addWithTTL_get [of "newCache 2" "''k''" "\<lparr>bv_b = ''v''\<rparr>" 5 10 15] newCache_ok [of 2]
  by (simp add: newCache_def bv_Len_def)

end
