(* ===== verification/Consistent_Hash.thy ===== *)
theory Consistent_Hash
  imports Go_Strings
begin

text \<open>
  The package \<^verbatim>\<open>cache/consistenthash\<close>: a ring of virtual nodes, each the hash of a replica
  number and a node address. The default hash function is CRC-32 with the IEEE polynomial,
  computed here on 32-bit words; \<^verbatim>\<open>sort.Search\<close> is the binary search of the Go library. A read of
  a missing map key gives the zero value, the empty string.
\<close>

unbundle bit_operations_syntax

section \<open>Library functions\<close>

definition crc32_poly :: "32 word" where
  "crc32_poly = 0xEDB88320"

definition crc32_shift :: "32 word \<Rightarrow> 32 word" where
  "crc32_shift c = (if bit c 0 then drop_bit 1 c XOR crc32_poly else drop_bit 1 c)"

definition crc32_byte :: "char \<Rightarrow> 32 word \<Rightarrow> 32 word" where
  "crc32_byte b c = (crc32_shift ^^ 8) (c XOR of_nat (of_char b))"

definition crc32_ChecksumIEEE :: "string \<Rightarrow> 32 word" where
  "crc32_ChecksumIEEE data = NOT (fold crc32_byte data (NOT 0))"

text \<open>The loop of \<^verbatim>\<open>sort.Search\<close> on the interval from \<open>i\<close> to \<open>j\<close>.\<close>

function search_loop :: "(nat \<Rightarrow> bool) \<Rightarrow> nat \<Rightarrow> nat \<Rightarrow> nat" where
  "search_loop f i j =
     (if i < j then
        let h = (i + j) div 2 in
        if \<not> f h then search_loop f (h + 1) j else search_loop f i h
      else i)"
  by auto
termination
  by (relation "measure (\<lambda>(f, i, j). j - i)") auto

declare search_loop.simps [simp del]

definition sort_Search :: "nat \<Rightarrow> (nat \<Rightarrow> bool) \<Rightarrow> nat" where
  "sort_Search n f = search_loop f 0 n"

section \<open>The ring\<close>

record ring =
  ch_hash :: "string \<Rightarrow> 32 word"
  ch_replicas :: int
  ch_keys :: "int list"
  ch_hashMap :: "int \<Rightarrow> string option"

definition ring_New :: "int \<Rightarrow> (string \<Rightarrow> 32 word) option \<Rightarrow> ring" where
  "ring_New replicas fn = \<lparr>ch_hash = (case fn of None \<Rightarrow> crc32_ChecksumIEEE | Some h \<Rightarrow> h),
     ch_replicas = replicas, ch_keys = [], ch_hashMap = (\<lambda>_. None)\<rparr>"

text \<open>The hash as the code's \<^verbatim>\<open>int\<close>, and the hashes of the virtual nodes of an address.\<close>

definition hash_of :: "ring \<Rightarrow> string \<Rightarrow> int" where
  "hash_of m s = uint (ch_hash m s)"

definition ring_add_replica :: "string \<Rightarrow> nat \<Rightarrow> ring \<Rightarrow> ring" where
  "ring_add_replica key i m =
     (let hash = hash_of m (strconv_Itoa (int i) @ key)
      in m\<lparr>ch_keys := ch_keys m @ [hash], ch_hashMap := (ch_hashMap m)(hash \<mapsto> key)\<rparr>)"

definition ring_add_node :: "string \<Rightarrow> ring \<Rightarrow> ring" where
  "ring_add_node key m = fold (ring_add_replica key) [0..<nat (ch_replicas m)] m"

definition ring_Add :: "string list \<Rightarrow> ring \<Rightarrow> ring" where
  "ring_Add keys m = (let m' = fold ring_add_node keys m in m'\<lparr>ch_keys := sort (ch_keys m')\<rparr>)"

definition ring_index :: "int \<Rightarrow> ring \<Rightarrow> nat" where
  "ring_index hash m = sort_Search (length (ch_keys m)) (\<lambda>i. ch_keys m ! i \<ge> hash)"

definition addr_at :: "ring \<Rightarrow> int \<Rightarrow> string" where
  "addr_at m h = (case ch_hashMap m h of None \<Rightarrow> [] | Some a \<Rightarrow> a)"

definition ring_Get :: "string \<Rightarrow> ring \<Rightarrow> string" where
  "ring_Get key m =
     (if ch_keys m = [] then []
      else let idx = ring_index (hash_of m key) m
           in addr_at m (ch_keys m ! (idx mod length (ch_keys m))))"

text \<open>The loop of \<^verbatim>\<open>GetN\<close>: the steps left, the index, and the result so far, whose elements are \<^verbatim>\<open>seen\<close>.\<close>

fun getn_loop :: "ring \<Rightarrow> nat \<Rightarrow> nat \<Rightarrow> int \<Rightarrow> string list \<Rightarrow> string list" where
  "getn_loop m 0 pos n result = result"
| "getn_loop m (Suc left) pos n result =
     (if int (length result) < n then
        let addr = addr_at m (ch_keys m ! (pos mod length (ch_keys m)))
        in if addr \<in> set result then getn_loop m left (pos + 1) n result
           else getn_loop m left (pos + 1) n (result @ [addr])
      else result)"

text \<open>A negative capacity makes \<^verbatim>\<open>make\<close> panic.\<close>

definition ring_GetN :: "string \<Rightarrow> int \<Rightarrow> ring \<Rightarrow> string list go_result" where
  "ring_GetN key n m =
     (if ch_keys m = [] then Inr []
      else let idx = ring_index (hash_of m key) m
           in if n < 0 then Inl (Panic ''makeslice: cap out of range'')
              else Inr (getn_loop m (length (ch_keys m)) idx n []))"

definition ring_Remove :: "string \<Rightarrow> ring \<Rightarrow> ring" where
  "ring_Remove addr m =
     m\<lparr>ch_keys := filter (\<lambda>h. addr_at m h \<noteq> addr) (ch_keys m),
       ch_hashMap := (\<lambda>h. if ch_hashMap m h = Some addr then None else ch_hashMap m h)\<rparr>"

section \<open>Binary search\<close>

lemma search_loop_correct:
  assumes "\<forall>a b. a \<le> b \<and> f a \<longrightarrow> f b" "i \<le> j" "\<forall>k < i. \<not> f k" "j < n \<longrightarrow> f j" "j \<le> n"
  shows "search_loop f i j \<le> n \<and> (\<forall>k < search_loop f i j. \<not> f k)
    \<and> (search_loop f i j < n \<longrightarrow> f (search_loop f i j))"
  using assms
proof (induction f i j rule: search_loop.induct)
  case (1 f i j)
  show ?case
  proof (cases "i < j")
    case False
    then have "search_loop f i j = i" by (simp add: search_loop.simps [of f i j])
    then show ?thesis using False 1(4-) by simp
  next
    case True
    let ?h = "(i + j) div 2"
    have h: "i \<le> ?h" "?h < j" using True by auto
    show ?thesis
    proof (cases "f ?h")
      case True
      have "search_loop f i j = search_loop f i ?h"
        using \<open>i < j\<close> True by (subst search_loop.simps) (simp add: Let_def)
      moreover have "\<not> \<not> f ?h" "?h < n \<longrightarrow> f ?h" "?h \<le> n" using True h 1(7) by simp_all
      ultimately show ?thesis using 1(2) [OF \<open>i < j\<close> refl _ 1(3) h(1) 1(5)] by simp
    next
      case False
      then have "\<forall>k < ?h + 1. \<not> f k" using 1(3) by (metis less_Suc_eq_le add.commute plus_1_eq_Suc)
      moreover have "search_loop f i j = search_loop f (?h + 1) j"
        using \<open>i < j\<close> False by (subst search_loop.simps) (simp add: Let_def)
      moreover have "?h + 1 \<le> j" using h by simp
      ultimately show ?thesis using 1(1) [OF \<open>i < j\<close> refl False 1(3) _ _ 1(6,7)] by simp
    qed
  qed
qed

text \<open>On a sorted list the search finds the first element that is not below the bound.\<close>

lemma sort_Search_sorted:
  fixes xs :: "int list" and h :: int
  assumes "sorted xs"
  defines "i \<equiv> sort_Search (length xs) (\<lambda>i. xs ! i \<ge> h)"
  shows "i \<le> length xs" "\<forall>k < i. xs ! k < h" "i < length xs \<Longrightarrow> h \<le> xs ! i"
proof -
  define g where "g k = (k < length xs \<longrightarrow> h \<le> xs ! k)" for k
  have eq: "search_loop (\<lambda>i. xs ! i \<ge> h) a b = search_loop g a b" if "b \<le> length xs" for a b
    using that
  proof (induction "\<lambda>i. xs ! i \<ge> h" a b rule: search_loop.induct)
    case (1 a b)
    let ?f = "\<lambda>i. xs ! i \<ge> h" and ?m = "(a + b) div 2"
    show ?case
    proof (cases "a < b")
      case True
      then have "?m < length xs" using 1(3) by linarith
      then have g: "g ?m = ?f ?m" by (simp add: g_def)
      show ?thesis
      proof (cases "?f ?m")
        case True
        then show ?thesis using 1(2) [OF \<open>a < b\<close> refl] 1(3) \<open>a < b\<close> g
          by (simp add: search_loop.simps [of ?f a b] search_loop.simps [of g a b])
      next
        case False
        then show ?thesis using 1(1) [OF \<open>a < b\<close> refl False 1(3)] \<open>a < b\<close> g
          by (simp add: search_loop.simps [of ?f a b] search_loop.simps [of g a b])
      qed
    qed (simp add: search_loop.simps [of ?f a b] search_loop.simps [of g a b])
  qed
  have mono: "\<forall>a b. a \<le> b \<and> g a \<longrightarrow> g b"
    using assms(1) by (auto simp: g_def dest: sorted_nth_mono order_trans)
  have "search_loop g 0 (length xs) \<le> length xs \<and> (\<forall>k < search_loop g 0 (length xs). \<not> g k)
      \<and> (search_loop g 0 (length xs) < length xs \<longrightarrow> g (search_loop g 0 (length xs)))"
    by (rule search_loop_correct [OF mono]) auto
  then show "i \<le> length xs" "\<forall>k < i. xs ! k < h" "i < length xs \<Longrightarrow> h \<le> xs ! i"
    unfolding i_def sort_Search_def eq [OF order_refl] by (auto simp: g_def)
qed

section \<open>The ring as a set of points\<close>

definition ring_inv :: "ring \<Rightarrow> bool" where
  "ring_inv m = (sorted (ch_keys m) \<and> set (ch_keys m) = dom (ch_hashMap m))"

text \<open>The point that a hash belongs to: the next one clockwise, and the first after the last.\<close>

definition successor :: "int set \<Rightarrow> int \<Rightarrow> int" where
  "successor S h = (if \<exists>k \<in> S. h \<le> k then Min {k \<in> S. h \<le> k} else Min S)"

lemma successor_mem: "finite S \<Longrightarrow> S \<noteq> {} \<Longrightarrow> successor S h \<in> S"
proof -
  assume S: "finite S" "S \<noteq> {}"
  show ?thesis
  proof (cases "\<exists>k \<in> S. h \<le> k")
    case True
    then have "Min {k \<in> S. h \<le> k} \<in> {k \<in> S. h \<le> k}" using S by (intro Min_in) auto
    then show ?thesis using True by (simp add: successor_def)
  next
    case False
    then show ?thesis using S by (simp add: successor_def)
  qed
qed

text \<open>A point of the smaller set that is the successor in the larger is so in the smaller.\<close>

lemma successor_subset:
  assumes "finite T" "S \<subseteq> T" "successor T h \<in> S"
  shows "successor S h = successor T h"
proof (cases "\<exists>k \<in> T. h \<le> k")
  case True
  then have eq: "successor T h = Min {k \<in> T. h \<le> k}" by (simp add: successor_def)
  have "Min {k \<in> T. h \<le> k} \<in> {k \<in> T. h \<le> k}" using True assms(1) by (intro Min_in) auto
  then have ge: "h \<le> successor T h" using eq by simp
  have "Min {k \<in> S. h \<le> k} = successor T h"
    using assms ge eq by (intro Min_eqI) (auto intro: finite_subset Min_le)
  then show ?thesis using assms(3) ge by (auto simp: successor_def)
next
  case False
  then have "successor T h = Min T" by (simp add: successor_def)
  moreover have "Min S = successor T h" "\<not> (\<exists>k \<in> S. h \<le> k)"
    using assms False calculation by (auto intro!: Min_eqI intro: finite_subset)
  ultimately show ?thesis unfolding successor_def [of S] by simp
qed

lemma ring_index_successor:
  assumes "sorted (ch_keys m)" "ch_keys m \<noteq> []"
  shows "ch_keys m ! (ring_index h m mod length (ch_keys m)) = successor (set (ch_keys m)) h"
proof -
  let ?xs = "ch_keys m" and ?i = "ring_index h m"
  have i: "?i \<le> length ?xs" "\<forall>k < ?i. ?xs ! k < h" "?i < length ?xs \<Longrightarrow> h \<le> ?xs ! ?i"
    using sort_Search_sorted [OF assms(1), of h] by (simp_all add: ring_index_def)
  show ?thesis
  proof (cases "?i < length ?xs")
    case True
    have "Min {k \<in> set ?xs. h \<le> k} = ?xs ! ?i"
    proof (rule Min_eqI)
      fix y assume "y \<in> {k \<in> set ?xs. h \<le> k}"
      then obtain j where j: "j < length ?xs" "y = ?xs ! j" "h \<le> y" by (auto simp: in_set_conv_nth)
      then have "?i \<le> j" using i(2) by (meson linorder_not_less)
      then show "?xs ! ?i \<le> y" using j assms(1) by (simp add: sorted_nth_mono)
    qed (use True i(3) in auto)
    then show ?thesis using True i(3) by (auto simp: successor_def)
  next
    case False
    then have all: "\<forall>k \<in> set ?xs. k < h" using i(1,2) by (auto simp: in_set_conv_nth)
    have "Min (set ?xs) = ?xs ! 0"
      using assms by (intro Min_eqI) (auto simp: in_set_conv_nth intro: sorted_nth_mono)
    then show ?thesis using all False i(1) by (auto simp: successor_def not_le)
  qed
qed

lemma ring_Get_successor:
  assumes "ring_inv m" "ch_keys m \<noteq> []"
  shows "ring_Get k m = addr_at m (successor (dom (ch_hashMap m)) (hash_of m k))"
  using assms ring_index_successor [of m "hash_of m k"] by (simp add: ring_Get_def ring_inv_def Let_def)

lemma ring_inv_finite: "ring_inv m \<Longrightarrow> finite (dom (ch_hashMap m))"
  by (metis List.finite_set ring_inv_def)

lemma ring_inv_Nil: "ring_inv m \<Longrightarrow> ch_keys m = [] \<longleftrightarrow> dom (ch_hashMap m) = {}"
  by (metis ring_inv_def set_empty)

section \<open>Adding and removing nodes\<close>

definition virtual_hashes :: "ring \<Rightarrow> string \<Rightarrow> int list" where
  "virtual_hashes m key = map (\<lambda>i. hash_of m (strconv_Itoa (int i) @ key)) [0..<nat (ch_replicas m)]"

lemma fold_add_replica:
  "fold (ring_add_replica key) is m =
     m\<lparr>ch_keys := ch_keys m @ map (\<lambda>i. hash_of m (strconv_Itoa (int i) @ key)) is,
       ch_hashMap := (\<lambda>h. if h \<in> (\<lambda>i. hash_of m (strconv_Itoa (int i) @ key)) ` set is
                         then Some key else ch_hashMap m h)\<rparr>"
  by (induction "is" arbitrary: m) (auto simp: ring_add_replica_def Let_def hash_of_def fun_eq_iff)

lemma ring_add_node_fields:
  "ch_keys (ring_add_node key m) = ch_keys m @ virtual_hashes m key"
  "ch_hashMap (ring_add_node key m) =
     (\<lambda>h. if h \<in> set (virtual_hashes m key) then Some key else ch_hashMap m h)"
  "ch_hash (ring_add_node key m) = ch_hash m" "ch_replicas (ring_add_node key m) = ch_replicas m"
  by (simp_all add: ring_add_node_def fold_add_replica virtual_hashes_def)

lemma ring_Add_one_fields:
  "ch_keys (ring_Add [key] m) = sort (ch_keys m @ virtual_hashes m key)"
  "ch_hashMap (ring_Add [key] m) =
     (\<lambda>h. if h \<in> set (virtual_hashes m key) then Some key else ch_hashMap m h)"
  "hash_of (ring_Add [key] m) = hash_of m"
  by (simp_all add: ring_Add_def ring_add_node_fields hash_of_def fun_eq_iff)

lemma fold_add_node_dom:
  "set (ch_keys m) = dom (ch_hashMap m) \<Longrightarrow>
   set (ch_keys (fold ring_add_node ks m)) = dom (ch_hashMap (fold ring_add_node ks m))"
proof (induction ks arbitrary: m)
  case (Cons a ks)
  have "set (ch_keys (ring_add_node a m)) = dom (ch_hashMap (ring_add_node a m))"
    using Cons.prems by (auto simp: ring_add_node_fields dom_def)
  then show ?case using Cons.IH by simp
qed simp

lemma ring_Add_inv: "ring_inv m \<Longrightarrow> ring_inv (ring_Add ks m)"
  using fold_add_node_dom by (simp add: ring_inv_def ring_Add_def Let_def)

lemma ring_New_inv: "ring_inv (ring_New r fn)"
  by (simp add: ring_inv_def ring_New_def)

lemma ring_Remove_inv: "ring_inv m \<Longrightarrow> ring_inv (ring_Remove a m)"
proof -
  assume inv: "ring_inv m"
  have "sorted (filter (\<lambda>h. addr_at m h \<noteq> a) (ch_keys m))"
    using inv by (simp add: ring_inv_def sorted_wrt_filter)
  moreover have "set (filter (\<lambda>h. addr_at m h \<noteq> a) (ch_keys m))
      = dom (\<lambda>h. if ch_hashMap m h = Some a then None else ch_hashMap m h)"
  proof (rule set_eqI)
    fix h
    have "h \<in> set (ch_keys m) \<longleftrightarrow> ch_hashMap m h \<noteq> None" using inv by (auto simp: ring_inv_def)
    then show "h \<in> set (filter (\<lambda>h. addr_at m h \<noteq> a) (ch_keys m)) \<longleftrightarrow>
        h \<in> dom (\<lambda>h. if ch_hashMap m h = Some a then None else ch_hashMap m h)"
      by (cases "ch_hashMap m h") (simp_all add: addr_at_def domIff)
  qed
  ultimately show ?thesis by (simp add: ring_inv_def ring_Remove_def)
qed

section \<open>The nodes of a ring\<close>

definition ring_nodes :: "ring \<Rightarrow> string set" where
  "ring_nodes m = ran (ch_hashMap m)"

lemma ring_nodes_addr: "ring_inv m \<Longrightarrow> ring_nodes m = addr_at m ` set (ch_keys m)"
  by (force simp: ring_nodes_def ring_inv_def addr_at_def ran_def image_iff)

lemma ring_Get_mem: "ring_inv m \<Longrightarrow> ring_nodes m \<noteq> {} \<Longrightarrow> ring_Get k m \<in> ring_nodes m"
proof -
  assume inv: "ring_inv m" and ne: "ring_nodes m \<noteq> {}"
  then have k: "ch_keys m \<noteq> []" by (auto simp: ring_nodes_addr)
  then have "successor (dom (ch_hashMap m)) (hash_of m k) \<in> set (ch_keys m)"
    using successor_mem [OF ring_inv_finite [OF inv]] inv ring_inv_Nil [OF inv] by (simp add: ring_inv_def)
  then show ?thesis using ring_Get_successor [OF inv k] ring_nodes_addr [OF inv] by simp
qed

lemma ring_Get_empty: "ring_inv m \<Longrightarrow> ring_nodes m = {} \<Longrightarrow> ring_Get k m = []"
  by (simp add: ring_nodes_addr ring_Get_def)

lemma ring_nodes_Add: "ring_nodes (ring_Add [a] m) \<subseteq> insert a (ring_nodes m)"
  by (auto simp: ring_nodes_def ring_Add_one_fields ran_def)

lemma ring_nodes_Remove: "ring_nodes (ring_Remove a m) = ring_nodes m - {a}"
proof -
  have "(\<exists>h. (if ch_hashMap m h = Some a then None else ch_hashMap m h) = Some b) \<longleftrightarrow>
      b \<noteq> a \<and> (\<exists>h. ch_hashMap m h = Some b)" for b
    by (metis option.distinct(1) option.inject)
  then show ?thesis by (auto simp: ring_nodes_def ring_Remove_def ran_def)
qed

text \<open>What the loop of \<^verbatim>\<open>GetN\<close> adds to its result.\<close>

definition walk :: "ring \<Rightarrow> nat \<Rightarrow> nat \<Rightarrow> string set" where
  "walk m left pos = (\<lambda>j. addr_at m (ch_keys m ! ((pos + j) mod length (ch_keys m)))) ` {..<left}"

lemma walk_Suc: "walk m (Suc left) pos =
  insert (addr_at m (ch_keys m ! (pos mod length (ch_keys m)))) (walk m left (pos + 1))"
  by (simp add: walk_def lessThan_Suc_eq_insert_0 image_image)

lemma getn_loop_spec:
  assumes "distinct result" "int (length result) \<le> n"
  shows "distinct (getn_loop m left pos n result) \<and> prefix result (getn_loop m left pos n result)
    \<and> set (getn_loop m left pos n result) \<subseteq> set result \<union> walk m left pos
    \<and> int (length (getn_loop m left pos n result)) \<le> n
    \<and> (int (length (getn_loop m left pos n result)) < n
        \<longrightarrow> walk m left pos \<subseteq> set (getn_loop m left pos n result))"
  using assms
proof (induction left arbitrary: pos result)
  case 0
  then show ?case by (simp add: walk_def)
next
  case (Suc left)
  let ?a = "addr_at m (ch_keys m ! (pos mod length (ch_keys m)))"
  consider "\<not> int (length result) < n" | "int (length result) < n" "?a \<in> set result"
    | "int (length result) < n" "?a \<notin> set result" by blast
  then show ?case
  proof cases
    case 1
    then show ?thesis using Suc.prems by simp
  next
    case 2
    have *: "getn_loop m (Suc left) pos n result = getn_loop m left (pos + 1) n result"
      using 2 by (simp add: Let_def)
    show ?thesis unfolding * walk_Suc using Suc.IH [OF Suc.prems, of "pos + 1"] 2
      by (auto simp: prefix_def)
  next
    case 3
    have *: "getn_loop m (Suc left) pos n result = getn_loop m left (pos + 1) n (result @ [?a])"
      using 3 by (simp add: Let_def)
    have p: "distinct (result @ [?a])" "int (length (result @ [?a])) \<le> n" using 3 Suc.prems by auto
    show ?thesis unfolding * walk_Suc using Suc.IH [OF p, of "pos + 1"]
      by (auto simp: prefix_def)
  qed
qed

lemma walk_all:
  assumes "ring_inv m"
  shows "walk m (length (ch_keys m)) pos = ring_nodes m"
proof (cases "ch_keys m = []")
  case True
  then show ?thesis using ring_nodes_addr [OF assms] by (simp add: walk_def)
next
  case False
  let ?n = "length (ch_keys m)"
  have "i \<in> (\<lambda>j. (pos + j) mod ?n) ` {..<?n}" if "i < ?n" for i
  proof
    have "pos mod ?n < ?n" using False by simp
    then have "pos mod ?n + (i + (?n - pos mod ?n)) = i + ?n" by linarith
    then have "(pos mod ?n + (i + (?n - pos mod ?n))) mod ?n = i" using that by simp
    then show "i = (pos + (i + (?n - pos mod ?n)) mod ?n) mod ?n"
      by (simp only: mod_add_left_eq mod_add_right_eq)
  qed (use False in simp)
  then have "(\<lambda>j. (pos + j) mod ?n) ` {..<?n} = {..<?n}" using False by auto
  then have "walk m ?n pos = (\<lambda>i. addr_at m (ch_keys m ! i)) ` {..<?n}"
    unfolding walk_def
    using image_image [of "\<lambda>i. addr_at m (ch_keys m ! i)" "\<lambda>j. (pos + j) mod ?n" "{..<?n}"] by simp
  also have "\<dots> = addr_at m ` set (ch_keys m)"
    by (auto simp: set_conv_nth)
  finally show ?thesis using ring_nodes_addr [OF assms] by simp
qed

lemma ring_GetN_result:
  assumes "ring_inv m" "0 \<le> n"
  shows "\<exists>xs. ring_GetN k n m = Inr xs \<and> distinct xs \<and> set xs \<subseteq> ring_nodes m
    \<and> length xs = min (nat n) (card (ring_nodes m)) \<and> (xs \<noteq> [] \<longrightarrow> hd xs = ring_Get k m)"
proof (cases "ch_keys m = []")
  case True
  then show ?thesis using ring_nodes_addr [OF assms(1)] by (simp add: ring_GetN_def)
next
  case False
  let ?len = "length (ch_keys m)" and ?idx = "ring_index (hash_of m k) m"
  define xs where "xs = getn_loop m ?len ?idx n []"
  have spec: "distinct xs" "set xs \<subseteq> ring_nodes m" "int (length xs) \<le> n"
      "int (length xs) < n \<Longrightarrow> ring_nodes m \<subseteq> set xs"
    using getn_loop_spec [of "[]" n m ?len ?idx] assms(2) walk_all [OF assms(1), of ?idx]
    unfolding xs_def by auto
  have fin: "finite (ring_nodes m)" using ring_nodes_addr [OF assms(1)] by simp
  have "length xs = min (nat n) (card (ring_nodes m))"
  proof (cases "int (length xs) < n")
    case True
    then have "set xs = ring_nodes m" using spec by blast
    then show ?thesis using True distinct_card [OF spec(1)] by simp
  next
    case False
    then have "length xs = nat n" using spec(3) by simp
    then show ?thesis using card_mono [OF fin spec(2)] distinct_card [OF spec(1)] by simp
  qed
  moreover have "hd xs = ring_Get k m" if "xs \<noteq> []"
  proof -
    obtain l where l: "?len = Suc l" using False by (cases ?len) auto
    have "0 < n" using that spec(3) by (cases xs) auto
    then have "xs = getn_loop m l (?idx + 1) n [ring_Get k m]"
      using False l unfolding xs_def l by (simp add: ring_Get_def Let_def)
    then show ?thesis using getn_loop_spec [of "[ring_Get k m]" n m l "?idx + 1"] \<open>0 < n\<close>
      by (auto simp: prefix_def)
  qed
  moreover have "ring_GetN k n m = Inr xs" using False assms(2) by (simp add: ring_GetN_def xs_def Let_def)
  ultimately show ?thesis using spec by blast
qed

section \<open>Owners after a membership change\<close>

lemma ring_keys_nonempty: "ring_inv m \<Longrightarrow> ring_nodes m \<noteq> {} \<longleftrightarrow> ch_keys m \<noteq> []"
  by (simp add: ring_nodes_addr)

lemma ring_Get_lookup:
  assumes "ring_inv m" "ring_nodes m \<noteq> {}"
  shows "ch_hashMap m (successor (dom (ch_hashMap m)) (hash_of m k)) = Some (ring_Get k m)"
proof -
  have k: "ch_keys m \<noteq> []" using assms ring_keys_nonempty by blast
  have "successor (dom (ch_hashMap m)) (hash_of m k) \<in> dom (ch_hashMap m)"
    using successor_mem [OF ring_inv_finite [OF assms(1)]] ring_inv_Nil [OF assms(1)] k by blast
  then show ?thesis using ring_Get_successor [OF assms(1) k] by (auto simp: addr_at_def)
qed

lemma ring_Get_Add:
  assumes "ring_inv m" "ring_nodes m \<noteq> {}"
  shows "ring_Get k (ring_Add [a] m) \<in> {a, ring_Get k m}"
proof -
  let ?D = "dom (ch_hashMap m)" and ?m = "ring_Add [a] m"
  have inv: "ring_inv ?m" by (rule ring_Add_inv [OF assms(1)])
  have dom: "dom (ch_hashMap ?m) = ?D \<union> set (virtual_hashes m a)"
    by (auto simp: ring_Add_one_fields dom_def)
  have "?D \<noteq> {}" using assms(2) by (auto simp: ring_nodes_def ran_def)
  then have "ring_nodes ?m \<noteq> {}"
    using dom ring_inv_Nil [OF inv] ring_keys_nonempty [OF inv] by blast
  then have get: "ch_hashMap ?m (successor (dom (ch_hashMap ?m)) (hash_of m k)) = Some (ring_Get k ?m)"
    using ring_Get_lookup [OF inv] by (simp add: ring_Add_one_fields(3))
  show ?thesis
  proof (cases "successor (dom (ch_hashMap ?m)) (hash_of m k) \<in> set (virtual_hashes m a)")
    case True
    then show ?thesis using get by (simp add: ring_Add_one_fields(2))
  next
    case False
    then have "successor ?D (hash_of m k) = successor (dom (ch_hashMap ?m)) (hash_of m k)"
      using get dom by (intro successor_subset [OF ring_inv_finite [OF inv]]) auto
    then show ?thesis using get False ring_Get_lookup [OF assms, of k] by (simp add: ring_Add_one_fields(2))
  qed
qed

lemma ring_Get_Remove:
  assumes "ring_inv m" "ring_nodes m \<noteq> {}" "ring_Get k m \<noteq> a"
  shows "ring_Get k (ring_Remove a m) = ring_Get k m"
proof -
  let ?D = "dom (ch_hashMap m)" and ?r = "ring_Remove a m" and ?h = "hash_of m k"
  have inv: "ring_inv ?r" by (rule ring_Remove_inv [OF assms(1)])
  have s: "ch_hashMap ?r (successor ?D ?h) = Some (ring_Get k m)"
    using ring_Get_lookup [OF assms(1,2), of k] assms(3) by (simp add: ring_Remove_def)
  have "successor (dom (ch_hashMap ?r)) ?h = successor ?D ?h"
    using s by (intro successor_subset [OF ring_inv_finite [OF assms(1)]])
      (auto simp: ring_Remove_def split: if_splits)
  moreover have "ring_nodes ?r \<noteq> {}" using s by (auto simp: ring_nodes_def ran_def)
  moreover have "hash_of ?r k = ?h" by (simp add: hash_of_def ring_Remove_def)
  ultimately show ?thesis using ring_Get_lookup [OF inv, of k] s by simp
qed

section \<open>The contract of a placement ring\<close>

text \<open>
  What a client of the ring relies on: which nodes a ring may answer with after nodes join
  and leave, and that every answer is one of them.
\<close>

locale placement =
  fixes ok :: "'r \<Rightarrow> bool"
    and nodes :: "'r \<Rightarrow> string set"
    and add :: "string \<Rightarrow> 'r \<Rightarrow> 'r"
    and remove :: "string \<Rightarrow> 'r \<Rightarrow> 'r"
    and get :: "string \<Rightarrow> 'r \<Rightarrow> string"
    and getn :: "string \<Rightarrow> int \<Rightarrow> 'r \<Rightarrow> string list go_result"
  assumes add_ok: "ok r \<Longrightarrow> ok (add a r) \<and> nodes (add a r) \<subseteq> insert a (nodes r)"
    and remove_ok: "ok r \<Longrightarrow> ok (remove a r) \<and> nodes (remove a r) = nodes r - {a}"
    and get_ok: "ok r \<Longrightarrow> get k r \<in> nodes r \<or> get k r = []"
    and getn_ok: "ok r \<Longrightarrow> 0 \<le> n \<Longrightarrow>
      \<exists>xs. getn k n r = Inr xs \<and> distinct xs \<and> set xs \<subseteq> nodes r"
begin

text \<open>A ring tracks a membership when it knows no node but the local one and the members.\<close>

lemma join_tracks:
  "ok r \<Longrightarrow> nodes r \<subseteq> insert l M \<Longrightarrow> ok (add a r) \<and> nodes (add a r) \<subseteq> insert l (insert a M)"
  using add_ok [of r a] by blast

lemma leave_tracks:
  "ok r \<Longrightarrow> nodes r \<subseteq> insert l M \<Longrightarrow> ok (remove a r) \<and> nodes (remove a r) \<subseteq> insert l (M - {a})"
  using remove_ok [of r a] by blast

lemma pick_member:
  "ok r \<Longrightarrow> nodes r \<subseteq> insert l M \<Longrightarrow> get k r \<noteq> [] \<Longrightarrow> get k r \<noteq> l \<Longrightarrow> get k r \<in> M"
  using get_ok [of r k] by blast

lemma candidates_member:
  "ok r \<Longrightarrow> nodes r \<subseteq> insert l M \<Longrightarrow> 0 \<le> n \<Longrightarrow>
   \<exists>xs. getn k n r = Inr xs \<and> distinct xs \<and> set xs \<subseteq> insert l M"
  using getn_ok [of r n k] by blast

end

interpretation hash_ring: placement ring_inv ring_nodes "\<lambda>a. ring_Add [a]" ring_Remove ring_Get ring_GetN
proof unfold_locales
  fix r a k and n :: int
  assume inv: "ring_inv r"
  show "ring_inv (ring_Add [a] r) \<and> ring_nodes (ring_Add [a] r) \<subseteq> insert a (ring_nodes r)"
    using ring_Add_inv [OF inv] ring_nodes_Add by blast
  show "ring_inv (ring_Remove a r) \<and> ring_nodes (ring_Remove a r) = ring_nodes r - {a}"
    using ring_Remove_inv [OF inv] ring_nodes_Remove by blast
  show "ring_Get k r \<in> ring_nodes r \<or> ring_Get k r = []"
    using ring_Get_mem [OF inv] ring_Get_empty [OF inv] by blast
  show "\<exists>xs. ring_GetN k n r = Inr xs \<and> distinct xs \<and> set xs \<subseteq> ring_nodes r" if "0 \<le> n"
    using ring_GetN_result [OF inv that] by blast
qed

section \<open>Properties\<close>

text \<open>
  C11: \<^verbatim>\<open>Get\<close> by binary search agrees with the definition of the ring: the owner of a key is the
  node whose virtual hash is the smallest one not below the hash of the key, or the smallest of
  all when the key lies behind the last.
\<close>

theorem ring_Get_clockwise:
  assumes "ring_inv m" and "ring_nodes m \<noteq> {}"
  shows "ch_hashMap m (successor (dom (ch_hashMap m)) (hash_of m k)) = Some (ring_Get k m)"
  by (rule ring_Get_lookup [OF assms])

definition digit_hash :: "string \<Rightarrow> 32 word" where
  "digit_hash s = of_nat (digits_val s)"

definition test_ring :: ring where
  "test_ring = ring_Add [''6'', ''4'', ''2''] (ring_New 3 (Some digit_hash))"

lemma test_ring_keys: "ch_keys test_ring = [2, 4, 6, 12, 14, 16, 22, 24, 26]"
  by code_simp

lemma test_ring_get: "map (\<lambda>k. ring_Get k test_ring) [''2'', ''11'', ''23'', ''27''] = [''2'', ''2'', ''4'', ''2'']"
  by code_simp

lemma test_ring_ok: "ring_inv test_ring" "ring_nodes test_ring \<noteq> {}"
proof -
  show inv: "ring_inv test_ring" unfolding test_ring_def by (intro ring_Add_inv ring_New_inv)
  show "ring_nodes test_ring \<noteq> {}" unfolding ring_nodes_addr [OF inv] test_ring_keys by simp
qed

theorem ring_Get_clockwise_witness:
  "ch_hashMap test_ring (successor (dom (ch_hashMap test_ring)) (hash_of test_ring ''23'')) = Some ''4''"
  using ring_Get_clockwise [OF test_ring_ok, of "''23''"] test_ring_get by simp

text \<open>
  C27: membership changes move no key between the other nodes. After a node joins, a key belongs
  to it or to its old owner; after a node leaves, the keys of the others stay where they were.
\<close>

theorem ring_rebalance:
  assumes "ring_inv m" and "ring_nodes m \<noteq> {}"
  shows "ring_Get k (ring_Add [a] m) \<in> {a, ring_Get k m}
    \<and> (ring_Get k m \<noteq> a \<longrightarrow> ring_Get k (ring_Remove a m) = ring_Get k m)"
  using ring_Get_Add [OF assms] ring_Get_Remove [OF assms] by blast

theorem ring_rebalance_witness:
  "ring_Get ''27'' (ring_Add [''8''] test_ring) \<in> {''8'', ''2''}
   \<and> ring_Get ''23'' (ring_Remove ''2'' test_ring) = ''4''"
  using ring_rebalance [OF test_ring_ok, of "''27''" "''8''"]
    ring_rebalance [OF test_ring_ok, of "''23''" "''2''"] test_ring_get by simp

text \<open>
  \<^verbatim>\<open>GetN\<close> with a count that is not negative returns that many nodes, or all of them if there are
  fewer; they are distinct nodes of the ring and the first is the owner of the key.
\<close>

theorem ring_GetN_owners:
  assumes "ring_inv m" and "0 \<le> n"
  shows "\<exists>xs. ring_GetN k n m = Inr xs \<and> distinct xs \<and> set xs \<subseteq> ring_nodes m
    \<and> length xs = min (nat n) (card (ring_nodes m)) \<and> (xs \<noteq> [] \<longrightarrow> hd xs = ring_Get k m)"
  by (rule ring_GetN_result [OF assms])

theorem ring_GetN_owners_witness:
  "\<exists>xs. ring_GetN ''23'' 2 test_ring = Inr xs \<and> distinct xs \<and> set xs \<subseteq> ring_nodes test_ring"
  using ring_GetN_owners [OF test_ring_ok(1), of 2 "''23''"] by auto

end
