(* ===== verification/Peer_TLS.thy ===== *)
theory Peer_TLS
  imports Prelude
begin

text \<open>
  \<^verbatim>\<open>cache/peer/tls.go\<close>: the transport credentials of the peer connections. The file system and the
  certificate parsers of the Go library are arguments: \<open>read_file\<close>, \<open>load_pair\<close> and \<open>parse_pem\<close> give
  the contents, the key pair or the pool for their input, or an error. A credential is the data
  that the code puts into \<^verbatim>\<open>tls.Config\<close>.
\<close>

section \<open>Types\<close>

datatype TLSOption = TLSInsecure | TLSServerOnly | TLSMutual

record TLSConfig =
  tc_Mode :: TLSOption
  tc_CertFile :: string
  tc_KeyFile :: string
  tc_CAFile :: string

text \<open>The files: contents by name, key pairs by certificate and key name, pools by contents.\<close>

record ('pair, 'pool) cert_files =
  read_file :: "string \<Rightarrow> string go_result"
  load_pair :: "string \<Rightarrow> string \<Rightarrow> 'pair go_result"
  parse_pem :: "string \<Rightarrow> 'pool option"

record ('pair, 'pool) tls_config =
  tls_Certificates :: "'pair list"
  tls_ClientAuth :: bool
  tls_ClientCAs :: "'pool option"
  tls_RootCAs :: "'pool option"

datatype ('pair, 'pool) credentials = Insecure | NewTLS "('pair, 'pool) tls_config"

section \<open>Operations\<close>

definition load_pool :: "('pair, 'pool) cert_files \<Rightarrow> string \<Rightarrow> 'pool go_result" where
  "load_pool fs CAFile =
     (case read_file fs CAFile of
        Inl err \<Rightarrow> Inl (ErrorfW ''read CA file'' err)
      | Inr caPEM \<Rightarrow>
          (case parse_pem fs caPEM of
             None \<Rightarrow> Inl (Errorf ''failed to parse CA certificate'')
           | Some pool \<Rightarrow> Inr pool))"

definition ServerCredentials ::
  "('pair, 'pool) cert_files \<Rightarrow> TLSConfig \<Rightarrow> ('pair, 'pool) credentials go_result" where
  "ServerCredentials fs cfg =
     (if tc_Mode cfg = TLSInsecure then Inr Insecure
      else case load_pair fs (tc_CertFile cfg) (tc_KeyFile cfg) of
        Inl err \<Rightarrow> Inl (ErrorfW ''load server cert/key'' err)
      | Inr cert \<Rightarrow>
          let tlsCfg = \<lparr>tls_Certificates = [cert], tls_ClientAuth = False, tls_ClientCAs = None,
                        tls_RootCAs = None\<rparr>
          in if tc_Mode cfg = TLSMutual \<and> tc_CAFile cfg \<noteq> [] then
               (case load_pool fs (tc_CAFile cfg) of
                  Inl err \<Rightarrow> Inl err
                | Inr pool \<Rightarrow> Inr (NewTLS (tlsCfg\<lparr>tls_ClientAuth := True, tls_ClientCAs := Some pool\<rparr>)))
             else Inr (NewTLS tlsCfg))"

definition ClientCredentials ::
  "('pair, 'pool) cert_files \<Rightarrow> TLSConfig \<Rightarrow> ('pair, 'pool) credentials go_result" where
  "ClientCredentials fs cfg =
     (if tc_Mode cfg = TLSInsecure then Inr Insecure
      else
        let tlsCfg = \<lparr>tls_Certificates = [], tls_ClientAuth = False, tls_ClientCAs = None,
                      tls_RootCAs = None\<rparr>;
            roots = (if tc_CAFile cfg \<noteq> [] then map_sum id Some (load_pool fs (tc_CAFile cfg)) else Inr None)
        in case roots of
             Inl err \<Rightarrow> Inl err
           | Inr pool \<Rightarrow>
               let tlsCfg1 = tlsCfg\<lparr>tls_RootCAs := pool\<rparr>
               in if tc_Mode cfg = TLSMutual \<and> tc_CertFile cfg \<noteq> [] \<and> tc_KeyFile cfg \<noteq> [] then
                    (case load_pair fs (tc_CertFile cfg) (tc_KeyFile cfg) of
                       Inl err \<Rightarrow> Inl (ErrorfW ''load client cert/key'' err)
                     | Inr cert \<Rightarrow> Inr (NewTLS (tlsCfg1\<lparr>tls_Certificates := tls_Certificates tlsCfg1 @ [cert]\<rparr>)))
                  else Inr (NewTLS tlsCfg1))"

section \<open>Properties\<close>

text \<open>
  with mutual TLS fully configured, a server that starts demands a client certificate
  against the configured authority, and the client of the same configuration presents its
  certificate and trusts the same authority: the two sides of a connection fit.
\<close>

theorem mutual_tls_matches:
  assumes "tc_Mode cfg = TLSMutual" and "tc_CAFile cfg \<noteq> []"
    and "tc_CertFile cfg \<noteq> []" and "tc_KeyFile cfg \<noteq> []"
    and "ServerCredentials fs cfg = Inr s"
  shows "\<exists>cert pool. ClientCredentials fs cfg = Inr (NewTLS \<lparr>tls_Certificates = [cert],
        tls_ClientAuth = False, tls_ClientCAs = None, tls_RootCAs = Some pool\<rparr>)
    \<and> s = NewTLS \<lparr>tls_Certificates = [cert], tls_ClientAuth = True, tls_ClientCAs = Some pool,
        tls_RootCAs = None\<rparr>"
  using assms
  by (auto simp: ServerCredentials_def ClientCredentials_def Let_def split: sum.splits)

definition one_pair :: "(nat, nat) cert_files" where
  "one_pair = \<lparr>read_file = (\<lambda>f. Inr f), load_pair = (\<lambda>c k. Inr 1), parse_pem = (\<lambda>s. Some 2)\<rparr>"

theorem mutual_tls_matches_witness:
  "\<exists>cert pool. ClientCredentials one_pair \<lparr>tc_Mode = TLSMutual, tc_CertFile = ''c'', tc_KeyFile = ''k'',
      tc_CAFile = ''a''\<rparr> = Inr (NewTLS \<lparr>tls_Certificates = [cert], tls_ClientAuth = False,
        tls_ClientCAs = None, tls_RootCAs = Some pool\<rparr>)"
  using mutual_tls_matches [of "\<lparr>tc_Mode = TLSMutual, tc_CertFile = ''c'', tc_KeyFile = ''k'',
      tc_CAFile = ''a''\<rparr>" one_pair]
  by (auto simp: ServerCredentials_def load_pool_def one_pair_def Let_def)

end
