(* ===== verification/Registry.thy ===== *)
theory Registry
  imports Consistent_Hash Peer_TLS
begin

text \<open>
  \<^verbatim>\<open>cache/peer/registry.go\<close> and \<^verbatim>\<open>cache/peer/grpc_client.go\<close>: the set of peers, fed by membership
  events, and the choice of the peer for a key. The gossip library and gRPC are external: the
  outcome of starting gossip and of creating a connection are arguments, and events arrive
  in the order of the channel. A method call on a peer is an argument where it is used.
\<close>

section \<open>Types\<close>

record GrpcGetter =
  gg_addr :: string

record Registry =
  rg_localAddr :: string
  rg_apiPort :: int
  rg_hashRing :: ring
  rg_grpcGetters :: "(string, GrpcGetter) gomap"
  rg_running :: bool
  rg_closed :: "string list"

record RegistryConfig =
  rc_BindAddr :: string
  rc_CachePort :: int
  rc_APIPort :: int
  rc_GossipBindPort :: int
  rc_SeedPeers :: "string list"
  rc_TLS :: TLSConfig

datatype NodeEvent = NodeJoin string | NodeLeave string | NodeUpdate string

definition defaultReplicas :: int where
  "defaultReplicas = 50"

section \<open>Connections\<close>

text \<open>\<open>creds\<close> is the outcome of \<^verbatim>\<open>ClientCredentials\<close>, \<open>dial\<close> the outcome of \<^verbatim>\<open>grpc.NewClient\<close> for an address.\<close>

definition NewGrpcGetter :: "go_err \<Rightarrow> (string \<Rightarrow> go_err) \<Rightarrow> string \<Rightarrow> GrpcGetter go_result" where
  "NewGrpcGetter creds dial addr =
     (case creds of
        Some err \<Rightarrow> Inl (ErrorfW ''tls client credentials'' err)
      | None \<Rightarrow>
          (case dial addr of
             Some err \<Rightarrow> Inl (ErrorfW ''dial'' err)
           | None \<Rightarrow> Inr \<lparr>gg_addr = addr\<rparr>))"

definition credentials_err :: "('pair, 'pool) cert_files \<Rightarrow> TLSConfig \<Rightarrow> go_err" where
  "credentials_err fs cfg = (case ClientCredentials fs cfg of Inl e \<Rightarrow> Some e | Inr _ \<Rightarrow> None)"

section \<open>Registry\<close>

definition net_JoinHostPort :: "string \<Rightarrow> string \<Rightarrow> string" where
  "net_JoinHostPort host port =
     (if CHR '':'' \<in> set host then ''['' @ host @ '']:'' @ port else host @ '':'' @ port)"

text \<open>\<open>create\<close> is the outcome of \<^verbatim>\<open>memberlist.Create\<close>; joining the seeds only logs.\<close>

definition NewRegistry :: "go_err \<Rightarrow> RegistryConfig \<Rightarrow> Registry go_result" where
  "NewRegistry create cfg =
     (let localCacheAddr = net_JoinHostPort (rc_BindAddr cfg) (strconv_Itoa (rc_CachePort cfg))
      in case create of
           Some err \<Rightarrow> Inl (ErrorfW ''create memberlist'' err)
         | None \<Rightarrow> Inr \<lparr>rg_localAddr = localCacheAddr, rg_apiPort = rc_APIPort cfg,
             rg_hashRing = ring_Add [localCacheAddr] (ring_New defaultReplicas None),
             rg_grpcGetters = [], rg_running = True, rg_closed = []\<rparr>)"

definition LocalAddr :: "Registry \<Rightarrow> string" where
  "LocalAddr r = rg_localAddr r"

definition PickPeer :: "string \<Rightarrow> Registry \<Rightarrow> GrpcGetter option" where
  "PickPeer key r =
     (let addr = ring_Get key (rg_hashRing r)
      in if addr = [] \<or> addr = rg_localAddr r then None
         else map_of (rg_grpcGetters r) addr)"

definition PickPeerWithFallback :: "string \<Rightarrow> int \<Rightarrow> Registry \<Rightarrow> GrpcGetter list go_result" where
  "PickPeerWithFallback key n r =
     (case ring_GetN key n (rg_hashRing r) of
        Inl e \<Rightarrow> Inl e
      | Inr candidates \<Rightarrow>
          Inr (List.map_filter (\<lambda>addr. if addr = rg_localAddr r then None
                                       else map_of (rg_grpcGetters r) addr) candidates))"

definition AllPeers :: "Registry \<Rightarrow> GrpcGetter list" where
  "AllPeers r = map snd (filter (\<lambda>(addr, _). addr \<noteq> rg_localAddr r) (rg_grpcGetters r))"

definition addToRing :: "(string \<Rightarrow> GrpcGetter go_result) \<Rightarrow> string \<Rightarrow> Registry \<Rightarrow> Registry" where
  "addToRing connect addr r =
     (if map_of (rg_grpcGetters r) addr \<noteq> None then r
      else case connect addr of
        Inl err \<Rightarrow> r
      | Inr getter \<Rightarrow>
          r\<lparr>rg_hashRing := ring_Add [addr] (rg_hashRing r),
            rg_grpcGetters := AList.update addr getter (rg_grpcGetters r)\<rparr>)"

definition removeFromRing :: "string \<Rightarrow> Registry \<Rightarrow> Registry" where
  "removeFromRing addr r =
     (let r1 = (case map_of (rg_grpcGetters r) addr of
                  None \<Rightarrow> r
                | Some getter \<Rightarrow> r\<lparr>rg_closed := gg_addr getter # rg_closed r\<rparr>)
      in r1\<lparr>rg_hashRing := ring_Remove addr (rg_hashRing r1),
            rg_grpcGetters := AList.delete addr (rg_grpcGetters r1)\<rparr>)"

definition handleJoin :: "(string \<Rightarrow> GrpcGetter go_result) \<Rightarrow> string \<Rightarrow> Registry \<Rightarrow> Registry" where
  "handleJoin connect name r = addToRing connect name r"

definition handleLeave :: "string \<Rightarrow> Registry \<Rightarrow> Registry" where
  "handleLeave name r = removeFromRing name r"

fun processEvent :: "(string \<Rightarrow> GrpcGetter go_result) \<Rightarrow> NodeEvent \<Rightarrow> Registry \<Rightarrow> Registry" where
  "processEvent connect (NodeJoin a) r = handleJoin connect a r"
| "processEvent connect (NodeLeave a) r = handleLeave a r"
| "processEvent connect (NodeUpdate a) r = r"

definition processEvents :: "(string \<Rightarrow> GrpcGetter go_result) \<Rightarrow> NodeEvent list \<Rightarrow> Registry \<Rightarrow> Registry" where
  "processEvents connect evs r = fold (processEvent connect) evs r"

text \<open>\<open>leave\<close> is the outcome of leaving the gossip cluster.\<close>

definition StopRegistry :: "go_err \<Rightarrow> Registry \<Rightarrow> Registry \<times> go_err" where
  "StopRegistry leave r =
     (r\<lparr>rg_running := False, rg_closed := map (gg_addr \<circ> snd) (rg_grpcGetters r) @ rg_closed r\<rparr>, leave)"

section \<open>The registry follows the membership\<close>

text \<open>The specification: the peers that joined, could be connected and have not left since.\<close>

fun live_step :: "(string \<Rightarrow> GrpcGetter go_result) \<Rightarrow> NodeEvent \<Rightarrow> string set \<Rightarrow> string set" where
  "live_step connect (NodeJoin a) M = (case connect a of Inl _ \<Rightarrow> M | Inr _ \<Rightarrow> insert a M)"
| "live_step connect (NodeLeave a) M = M - {a}"
| "live_step connect (NodeUpdate a) M = M"

definition live_peers :: "(string \<Rightarrow> GrpcGetter go_result) \<Rightarrow> NodeEvent list \<Rightarrow> string set" where
  "live_peers connect evs = fold (live_step connect) evs {}"

text \<open>
  The invariant: the connections are exactly those of the live peers, each to its own address,
  and the ring knows no node but these and the local one.
\<close>

definition registry_inv :: "string set \<Rightarrow> Registry \<Rightarrow> bool" where
  "registry_inv M r = (gomap_wf (rg_grpcGetters r) \<and> ring_inv (rg_hashRing r)
     \<and> ring_nodes (rg_hashRing r) \<subseteq> insert (rg_localAddr r) M
     \<and> map_of (rg_grpcGetters r) = (\<lambda>a. if a \<in> M then Some \<lparr>gg_addr = a\<rparr> else None))"

definition connects :: "(string \<Rightarrow> GrpcGetter go_result) \<Rightarrow> bool" where
  "connects connect = (\<forall>a g. connect a = Inr g \<longrightarrow> g = \<lparr>gg_addr = a\<rparr>)"

lemma connects_NewGrpcGetter: "connects (NewGrpcGetter creds dial)"
  by (auto simp: connects_def NewGrpcGetter_def split: option.splits)

lemma addToRing_inv:
  assumes inv: "registry_inv M r" and c: "connects connect"
  shows "registry_inv (case connect a of Inl _ \<Rightarrow> M | Inr _ \<Rightarrow> insert a M) (addToRing connect a r)"
proof (cases "a \<in> M")
  case True
  then have "map_of (rg_grpcGetters r) a \<noteq> None" using inv by (simp add: registry_inv_def)
  then show ?thesis using inv True by (auto simp: addToRing_def insert_absorb split: sum.splits)
next
  case False
  then have none: "map_of (rg_grpcGetters r) a = None" using inv by (simp add: registry_inv_def)
  show ?thesis
  proof (cases "connect a")
    case (Inl e)
    then show ?thesis using inv none by (simp add: addToRing_def)
  next
    case (Inr g)
    then have g: "g = \<lparr>gg_addr = a\<rparr>" using c by (simp add: connects_def)
    have ring: "ring_inv (rg_hashRing r)" "ring_nodes (rg_hashRing r) \<subseteq> insert (rg_localAddr r) M"
      using inv by (simp_all add: registry_inv_def)
    show ?thesis using inv none Inr g hash_ring.join_tracks [OF ring, of a]
      by (auto simp: registry_inv_def addToRing_def fun_eq_iff)
  qed
qed

lemma removeFromRing_inv:
  assumes inv: "registry_inv M r"
  shows "registry_inv (M - {a}) (removeFromRing a r)"
proof -
  have ring: "ring_inv (rg_hashRing r)" "ring_nodes (rg_hashRing r) \<subseteq> insert (rg_localAddr r) M"
    using inv by (simp_all add: registry_inv_def)
  show ?thesis using inv hash_ring.leave_tracks [OF ring, of a]
    by (auto simp: registry_inv_def removeFromRing_def Let_def fun_eq_iff split: option.splits)
qed

lemma processEvent_inv:
  "registry_inv M r \<Longrightarrow> connects connect \<Longrightarrow>
   registry_inv (live_step connect ev M) (processEvent connect ev r)"
  by (cases ev) (simp_all add: handleJoin_def handleLeave_def addToRing_inv removeFromRing_inv)

lemma processEvents_inv:
  "registry_inv M r \<Longrightarrow> connects connect \<Longrightarrow>
   registry_inv (fold (live_step connect) evs M) (processEvents connect evs r)"
  unfolding processEvents_def by (induction evs arbitrary: M r) (simp_all add: processEvent_inv)

lemma processEvents_local: "rg_localAddr (processEvents connect evs r) = rg_localAddr r"
proof -
  have "rg_localAddr (processEvent connect ev r) = rg_localAddr r" for ev r
    by (cases ev) (auto simp: handleJoin_def handleLeave_def addToRing_def removeFromRing_def Let_def
        split: sum.split option.split)
  then show ?thesis unfolding processEvents_def by (induction evs arbitrary: r) simp_all
qed

lemma NewRegistry_inv:
  assumes "NewRegistry create cfg = Inr r"
  shows "registry_inv {} r"
proof -
  have ring: "rg_hashRing r = ring_Add [rg_localAddr r] (ring_New defaultReplicas None)"
    "rg_grpcGetters r = []"
    using assms by (auto simp: NewRegistry_def Let_def split: option.splits)
  have "ring_nodes (ring_New defaultReplicas None) = {}" by (simp add: ring_nodes_def ring_New_def)
  then show ?thesis
    using hash_ring.join_tracks [OF ring_New_inv, of defaultReplicas None _ "{}" "rg_localAddr r"] ring
    by (auto simp: registry_inv_def)
qed

lemma PickPeer_cases:
  assumes inv: "registry_inv M r"
  shows "case PickPeer k r of
      Some g \<Rightarrow> gg_addr g = ring_Get k (rg_hashRing r) \<and> gg_addr g \<in> M - {rg_localAddr r}
    | None \<Rightarrow> ring_Get k (rg_hashRing r) \<in> {[], rg_localAddr r}"
proof (cases "ring_Get k (rg_hashRing r) \<in> {[], rg_localAddr r}")
  case True
  then show ?thesis by (auto simp: PickPeer_def)
next
  case False
  have "ring_inv (rg_hashRing r)" "ring_nodes (rg_hashRing r) \<subseteq> insert (rg_localAddr r) M"
    using inv by (simp_all add: registry_inv_def)
  from hash_ring.pick_member [OF this, of k] False have "ring_Get k (rg_hashRing r) \<in> M" by simp
  then show ?thesis using inv False by (simp add: PickPeer_def registry_inv_def)
qed

lemma map_filter_peers:
  assumes "map_of gs = (\<lambda>a. if a \<in> M then Some \<lparr>gg_addr = a\<rparr> else None)"
  shows "List.map_filter (\<lambda>a. if a = l then None else map_of gs a) xs =
    map (\<lambda>a. \<lparr>gg_addr = a\<rparr>) (filter (\<lambda>a. a \<in> M - {l}) xs)"
  by (induction xs) (auto simp: map_filter_simps assms)

lemma PickPeerWithFallback_result:
  assumes inv: "registry_inv M r" and "0 \<le> n"
  shows "\<exists>as. PickPeerWithFallback k n r = Inr (map (\<lambda>a. \<lparr>gg_addr = a\<rparr>) as) \<and> distinct as
    \<and> set as \<subseteq> M - {rg_localAddr r} \<and> length as \<le> nat n"
proof -
  have ring: "ring_inv (rg_hashRing r)" and m: "map_of (rg_grpcGetters r) =
      (\<lambda>a. if a \<in> M then Some \<lparr>gg_addr = a\<rparr> else None)"
    using inv by (simp_all add: registry_inv_def)
  obtain xs where xs: "ring_GetN k n (rg_hashRing r) = Inr xs" "distinct xs" "length xs \<le> nat n"
    using ring_GetN_result [OF ring assms(2), of k] by auto
  let ?as = "filter (\<lambda>a. a \<in> M - {rg_localAddr r}) xs"
  have "PickPeerWithFallback k n r = Inr (map (\<lambda>a. \<lparr>gg_addr = a\<rparr>) ?as)"
    using xs(1) map_filter_peers [OF m] by (simp add: PickPeerWithFallback_def)
  moreover have "length ?as \<le> nat n" using xs(3) length_filter_le le_trans by blast
  ultimately show ?thesis using xs(2) by (intro exI [of _ ?as]) auto
qed

lemma AllPeers_live:
  assumes inv: "registry_inv M r"
  shows "gg_addr ` set (AllPeers r) = M - {rg_localAddr r}"
proof -
  have "(a, g) \<in> set (rg_grpcGetters r) \<longleftrightarrow> a \<in> M \<and> g = \<lparr>gg_addr = a\<rparr>" for a g
    using inv gomap_mem_iff [of "rg_grpcGetters r" a g] by (auto simp: registry_inv_def)
  then have "set (rg_grpcGetters r) = (\<lambda>a. (a, \<lparr>gg_addr = a\<rparr>)) ` M" by auto
  then show ?thesis by (auto simp: AllPeers_def image_iff)
qed

section \<open>Properties\<close>

text \<open>
  C20: after any sequence of membership events a key is routed to the owner on the ring, and
  that owner is a peer that joined and has not left, never the local node; the registry answers
  that there is no peer only when the ring does not name a remote one. Fallback candidates are
  distinct live remote peers, at most as many as asked for, and \<^verbatim>\<open>All\<close> is exactly the live
  remote peers.
\<close>

theorem registry_routes:
  assumes "NewRegistry create cfg = Inr r0" and "r = processEvents (NewGrpcGetter creds dial) evs r0"
    and "M = live_peers (NewGrpcGetter creds dial) evs - {rg_localAddr r0}" and "0 \<le> n"
  shows "(case PickPeer k r of
        Some g \<Rightarrow> gg_addr g = ring_Get k (rg_hashRing r) \<and> gg_addr g \<in> M
      | None \<Rightarrow> ring_Get k (rg_hashRing r) \<in> {[], rg_localAddr r0})
    \<and> (\<exists>as. PickPeerWithFallback k n r = Inr (map (\<lambda>a. \<lparr>gg_addr = a\<rparr>) as) \<and> distinct as
        \<and> set as \<subseteq> M \<and> length as \<le> nat n)
    \<and> gg_addr ` set (AllPeers r) = M"
proof -
  have inv: "registry_inv (live_peers (NewGrpcGetter creds dial) evs) r"
    using processEvents_inv [OF NewRegistry_inv [OF assms(1)] connects_NewGrpcGetter]
    unfolding assms(2) live_peers_def .
  have l: "rg_localAddr r0 = rg_localAddr r" unfolding assms(2) by (simp add: processEvents_local)
  show ?thesis
    using PickPeer_cases [OF inv, of k] PickPeerWithFallback_result [OF inv assms(4), of k]
      AllPeers_live [OF inv] unfolding assms(3) l by blast
qed

definition sample_config :: RegistryConfig where
  "sample_config = \<lparr>rc_BindAddr = ''10.0.0.1'', rc_CachePort = 8001, rc_APIPort = 9999,
     rc_GossipBindPort = 7946, rc_SeedPeers = [],
     rc_TLS = \<lparr>tc_Mode = TLSInsecure, tc_CertFile = [], tc_KeyFile = [], tc_CAFile = []\<rparr>\<rparr>"

theorem registry_routes_witness:
  "\<exists>r0. NewRegistry None sample_config = Inr r0 \<and>
    gg_addr ` set (AllPeers (processEvents (NewGrpcGetter None (\<lambda>_. None))
      [NodeJoin ''10.0.0.2:8001'', NodeJoin ''10.0.0.3:8001'', NodeLeave ''10.0.0.2:8001''] r0))
    = {''10.0.0.3:8001''} - {rg_localAddr r0}"
proof -
  obtain r0 where r0: "NewRegistry None sample_config = Inr r0" by (simp add: NewRegistry_def Let_def)
  let ?evs = "[NodeJoin ''10.0.0.2:8001'', NodeJoin ''10.0.0.3:8001'', NodeLeave ''10.0.0.2:8001'']"
  have "live_peers (NewGrpcGetter None (\<lambda>_. None)) ?evs = {''10.0.0.3:8001''}"
    by (auto simp: live_peers_def NewGrpcGetter_def)
  then show ?thesis using registry_routes [OF r0 refl refl, of 0 "[]" None "\<lambda>_. None" ?evs] r0 by auto
qed

end
