(* ===== verification/Hot_Key.thy ===== *)
theory Hot_Key
  imports Registry
begin

text \<open>
  \<^verbatim>\<open>cache/hotkey.go\<close>: counters per key and the set of hot keys with the time they were last seen
  above the threshold. The time that \<^verbatim>\<open>time.Now\<close> reads is an argument; recording and pruning
  take effect one after the other. A nil tracker is \<^const>\<open>None\<close>. A counter is an integer: an
  \<^verbatim>\<open>int64\<close> that is reset every sampling window does not overflow.
\<close>

section \<open>Types\<close>

record HotKeyConfig =
  hk_Threshold :: int
  hk_SampleWindow :: int
  hk_CoolDown :: int
  hk_Replicas :: int

record HotKeyTracker =
  ht_counters :: "(string, int) gomap"
  ht_hotKeys :: "(string, int) gomap"
  ht_threshold :: int
  ht_sampleWindow :: int
  ht_cooldown :: int
  ht_replicas :: int
  ht_registry :: "Registry option"
  ht_localAddr :: string

text \<open>Durations are in seconds.\<close>

definition DefaultHotKeyConfig :: HotKeyConfig where
  "DefaultHotKeyConfig = \<lparr>hk_Threshold = 100, hk_SampleWindow = 10, hk_CoolDown = 60, hk_Replicas = 2\<rparr>"

section \<open>Operations\<close>

definition NewHotKeyTracker :: "HotKeyConfig \<Rightarrow> Registry option \<Rightarrow> string \<Rightarrow> HotKeyTracker" where
  "NewHotKeyTracker cfg registry localAddr = \<lparr>ht_counters = [], ht_hotKeys = [],
     ht_threshold = hk_Threshold cfg, ht_sampleWindow = hk_SampleWindow cfg,
     ht_cooldown = hk_CoolDown cfg, ht_replicas = hk_Replicas cfg,
     ht_registry = registry, ht_localAddr = localAddr\<rparr>"

definition checkHot :: "int \<Rightarrow> string \<Rightarrow> int \<Rightarrow> HotKeyTracker \<Rightarrow> HotKeyTracker \<times> bool" where
  "checkHot now key count t =
     (case map_of (ht_counters t) key of
        None \<Rightarrow> (t, False)
      | Some c \<Rightarrow>
          if count \<ge> ht_threshold t
          then (t\<lparr>ht_hotKeys := AList.update key now (ht_hotKeys t)\<rparr>, map_of (ht_hotKeys t) key = None)
          else (t, False))"

definition RecordKey :: "int \<Rightarrow> string \<Rightarrow> HotKeyTracker \<Rightarrow> HotKeyTracker \<times> bool" where
  "RecordKey now key t =
     (let n = (case map_of (ht_counters t) key of None \<Rightarrow> 0 | Some c \<Rightarrow> c) + 1;
          t1 = t\<lparr>ht_counters := AList.update key n (ht_counters t)\<rparr>
      in if n mod 64 \<noteq> 0 then (t1, False) else checkHot now key n t1)"

text \<open>The methods guard against a nil tracker.\<close>

definition RecordAccess :: "int \<Rightarrow> string \<Rightarrow> HotKeyTracker option \<Rightarrow> HotKeyTracker option \<times> bool" where
  "RecordAccess now key ot =
     (case ot of None \<Rightarrow> (None, False) | Some t \<Rightarrow> (let (t', b) = RecordKey now key t in (Some t', b)))"

definition IsHot :: "string \<Rightarrow> HotKeyTracker option \<Rightarrow> bool" where
  "IsHot key ot = (case ot of None \<Rightarrow> False | Some t \<Rightarrow> map_of (ht_hotKeys t) key \<noteq> None)"

definition ReplicateCandidates :: "string \<Rightarrow> HotKeyTracker option \<Rightarrow> string list go_result" where
  "ReplicateCandidates key ot =
     (case ot of
        None \<Rightarrow> Inr []
      | Some t \<Rightarrow>
          (case ht_registry t of
             None \<Rightarrow> Inr []
           | Some r \<Rightarrow>
               (case PickPeerWithFallback key (ht_replicas t + 1) r of
                  Inl e \<Rightarrow> Inl e
                | Inr peers \<Rightarrow> Inr (filter (\<lambda>addr. addr \<noteq> ht_localAddr t) (map gg_addr peers)))))"

definition prune :: "int \<Rightarrow> HotKeyTracker \<Rightarrow> HotKeyTracker" where
  "prune now t =
     (let cs = filter (\<lambda>(k, c). map_of (ht_hotKeys t) k \<noteq> None) (map (\<lambda>(k, c). (k, 0)) (ht_counters t));
          hs = filter (\<lambda>(k, lastSeen). \<not> now - lastSeen > ht_cooldown t) (ht_hotKeys t)
      in t\<lparr>ht_counters := cs, ht_hotKeys := hs\<rparr>)"

text \<open>The goroutine of a tracker: the ticks of its timer with the time they occur, until the channel is closed.\<close>

datatype prune_event = Tick int | Stopped

fun pruneLoop :: "prune_event list \<Rightarrow> HotKeyTracker \<Rightarrow> HotKeyTracker" where
  "pruneLoop [] t = t"
| "pruneLoop (Tick now # es) t = pruneLoop es (prune now t)"
| "pruneLoop (Stopped # es) t = t"

section \<open>Detection\<close>

text \<open>The first count at which the tracker looks and finds the threshold reached.\<close>

definition detection_point :: "int \<Rightarrow> int" where
  "detection_point th = (if th \<le> 64 then 64 else 64 * ((th + 63) div 64))"

lemma detection_point_least:
  assumes "n mod 64 = 0" "0 < n"
  shows "th \<le> n \<longleftrightarrow> detection_point th \<le> n"
proof -
  have "64 dvd n" using assms(1) by (rule mod_0_imp_dvd)
  then obtain q where q: "n = 64 * q" by (rule dvdE)
  then have "0 < q" using assms(2) by simp
  then show ?thesis unfolding q detection_point_def by (auto; presburger)
qed

lemma detection_point_pos: "0 < detection_point th" "detection_point th mod 64 = 0"
  by (auto simp: detection_point_def)

text \<open>
  Between two prunings: every counter is the number of records of its key, and a key is hot
  exactly when that number has reached the detection point.
\<close>

definition counting :: "string list \<Rightarrow> HotKeyTracker \<Rightarrow> bool" where
  "counting ks t = (\<forall>k. (case map_of (ht_counters t) k of None \<Rightarrow> 0 | Some c \<Rightarrow> c) = int (count_list ks k)
     \<and> (map_of (ht_hotKeys t) k \<noteq> None \<longleftrightarrow> detection_point (ht_threshold t) \<le> int (count_list ks k)))"

lemma RecordKey_counting:
  assumes "counting ks t"
  shows "counting (ks @ [k]) (fst (RecordKey now k t))
    \<and> ht_threshold (fst (RecordKey now k t)) = ht_threshold t
    \<and> (snd (RecordKey now k t) \<longleftrightarrow> int (count_list ks k) + 1 = detection_point (ht_threshold t))"
proof -
  let ?n = "int (count_list ks k) + 1" and ?th = "ht_threshold t"
  let ?t1 = "t\<lparr>ht_counters := AList.update k ?n (ht_counters t)\<rparr>"
  have n: "(case map_of (ht_counters t) k of None \<Rightarrow> 0 | Some c \<Rightarrow> c) = int (count_list ks k)"
    and hot: "\<And>x. (map_of (ht_hotKeys t) x \<noteq> None) = (detection_point ?th \<le> int (count_list ks x))"
    using assms by (simp_all add: counting_def)
  have rest: "(case map_of (ht_counters ?t1) x of None \<Rightarrow> 0 | Some c \<Rightarrow> c) = int (count_list (ks @ [k]) x)" for x
    using assms by (simp add: counting_def)
  show ?thesis
  proof (cases "?n mod 64 = 0")
    case True
    then have le: "?th \<le> ?n \<longleftrightarrow> detection_point ?th \<le> ?n" by (intro detection_point_least) auto
    have "RecordKey now k t = checkHot now k ?n ?t1" using n True by (simp add: RecordKey_def Let_def)
    moreover have "map_of (ht_hotKeys t) k = None \<longleftrightarrow> int (count_list ks k) < detection_point ?th"
      using hot [of k] by auto
    ultimately show ?thesis using rest le hot by (auto simp: checkHot_def counting_def split: if_splits)
  next
    case False
    then have "?n \<noteq> detection_point ?th" using detection_point_pos(2) [of ?th] by metis
    moreover have "RecordKey now k t = (?t1, False)" using n False by (simp add: RecordKey_def Let_def)
    ultimately show ?thesis using rest hot by (auto simp: counting_def)
  qed
qed

fun record_all :: "(int \<times> string) list \<Rightarrow> HotKeyTracker \<Rightarrow> HotKeyTracker" where
  "record_all [] t = t"
| "record_all ((now, k) # h) t = record_all h (fst (RecordKey now k t))"

lemma record_all_counting:
  "counting ks t \<Longrightarrow> counting (ks @ map snd h) (record_all h t)
    \<and> ht_threshold (record_all h t) = ht_threshold t"
proof (induction h arbitrary: ks t)
  case (Cons p h)
  obtain now k where p: "p = (now, k)" by (cases p)
  note step = RecordKey_counting [OF Cons.prems, of k now]
  show ?case using Cons.IH [of "ks @ [k]" "fst (RecordKey now k t)"] step p by auto
qed simp

lemma record_all_new:
  "counting (map snd h) (record_all h (NewHotKeyTracker cfg reg l))"
  "ht_threshold (record_all h (NewHotKeyTracker cfg reg l)) = hk_Threshold cfg"
proof -
  have "counting [] (NewHotKeyTracker cfg reg l)"
    using detection_point_pos(1) [of "hk_Threshold cfg"] by (simp add: counting_def NewHotKeyTracker_def)
  from record_all_counting [OF this, of h]
  show "counting (map snd h) (record_all h (NewHotKeyTracker cfg reg l))"
    "ht_threshold (record_all h (NewHotKeyTracker cfg reg l)) = hk_Threshold cfg"
    by (simp_all add: NewHotKeyTracker_def)
qed

text \<open>The default threshold of 100 is noticed at the request number 128.\<close>

lemma default_detection_point: "detection_point (hk_Threshold DefaultHotKeyConfig) = 128"
  by (simp add: detection_point_def DefaultHotKeyConfig_def)

section \<open>Properties\<close>


text \<open>
  pruning bounds the tracker: afterwards it counts only keys that were hot before, all
  counters are zero, and the hot keys left are those seen above the threshold within the
  cooldown.
\<close>

theorem prune_bounds:
  assumes "gomap_wf (ht_hotKeys t)" and "gomap_wf (ht_counters t)"
  shows "map_of (ht_counters (prune now t)) k =
      (if map_of (ht_counters t) k \<noteq> None \<and> map_of (ht_hotKeys t) k \<noteq> None then Some 0 else None)
    \<and> (map_of (ht_hotKeys (prune now t)) k = Some s \<longleftrightarrow>
        map_of (ht_hotKeys t) k = Some s \<and> now - s \<le> ht_cooldown t)"
proof -
  have "map_of (map (\<lambda>(k, c). (k, 0 :: int)) cs) k = map_option (\<lambda>_. 0) (map_of cs k)" for cs :: "(string \<times> int) list"
    by (induction cs) auto
  then have 1: "map_of (ht_counters (prune now t)) k =
      (if map_of (ht_counters t) k \<noteq> None \<and> map_of (ht_hotKeys t) k \<noteq> None then Some 0 else None)"
    by (simp add: prune_def Let_def map_of_filter_key)
  have "gomap_wf (filter P (ht_hotKeys t))" for P
    using assms(1) unfolding gomap_wf_def by (rule distinct_map_filter)
  then have "map_of (ht_hotKeys (prune now t)) k = Some s \<longleftrightarrow> (k, s) \<in> set (ht_hotKeys (prune now t))"
    by (intro gomap_mem_iff [symmetric]) (simp add: prune_def Let_def)
  also have "\<dots> \<longleftrightarrow> (k, s) \<in> set (ht_hotKeys t) \<and> now - s \<le> ht_cooldown t"
    by (auto simp: prune_def Let_def)
  finally show ?thesis using 1 gomap_mem_iff [OF assms(1)] by simp
qed

theorem prune_bounds_witness:
  "map_of (ht_hotKeys (prune 100 ((NewHotKeyTracker DefaultHotKeyConfig None [])
      \<lparr>ht_hotKeys := [(''a'', 30), (''b'', 90)], ht_counters := [(''a'', 5)]\<rparr>))) ''b'' = Some 90"
  using prune_bounds [of "(NewHotKeyTracker DefaultHotKeyConfig None [])
      \<lparr>ht_hotKeys := [(''a'', 30), (''b'', 90)], ht_counters := [(''a'', 5)]\<rparr>" 100 "''b''" 90]
  by (simp add: gomap_wf_def NewHotKeyTracker_def DefaultHotKeyConfig_def)

end
