(* ===== verification/Single_Flight.thy ===== *)
theory Single_Flight
  imports Prelude
begin

text \<open>
  The package \<^verbatim>\<open>cache/singleflight\<close>. Any number of goroutines call \<^verbatim>\<open>Do\<close>; a step is one of
  them passing one of the points where the code takes or releases the lock, runs \<^verbatim>\<open>fn\<close> or waits.
  The result of \<^verbatim>\<open>fn\<close> is arbitrary. A call value is a number; it is finished when it has a result,
  which is when its wait group lets the waiters pass.
\<close>

section \<open>State\<close>

datatype 'v sf_pc =
    SfIdle
  | SfEnter string
  | SfWait nat
  | SfRun nat string
  | SfClean nat string
  | SfReturned "'v go_result"

record 'v sf_state =
  sf_m :: "string \<Rightarrow> nat option"
  sf_calls :: "nat \<Rightarrow> 'v go_result option"
  sf_next :: nat
  sf_pcs :: "nat \<Rightarrow> 'v sf_pc"

definition sf_init :: "'v sf_state" where
  "sf_init = \<lparr>sf_m = Map.empty, sf_calls = Map.empty, sf_next = 0, sf_pcs = (\<lambda>_. SfIdle)\<rparr>"

section \<open>Steps of \<open>Do\<close>\<close>

text \<open>
  The rules follow the code from top to bottom: a caller arrives; under the lock it finds a
  call for its key and waits, or makes a new call value; \<^verbatim>\<open>fn\<close> returns and the wait group is
  released; the key is deleted from the map and the caller returns; a waiter is released.
\<close>

inductive sf_step :: "'v sf_state \<Rightarrow> 'v sf_state \<Rightarrow> bool" where
  arrive: "sf_pcs s i = SfIdle \<Longrightarrow> sf_step s (s\<lparr>sf_pcs := (sf_pcs s)(i := SfEnter key)\<rparr>)"
| found: "sf_pcs s i = SfEnter key \<Longrightarrow> sf_m s key = Some c \<Longrightarrow>
    sf_step s (s\<lparr>sf_pcs := (sf_pcs s)(i := SfWait c)\<rparr>)"
| fresh: "sf_pcs s i = SfEnter key \<Longrightarrow> sf_m s key = None \<Longrightarrow>
    sf_step s (s\<lparr>sf_next := Suc (sf_next s), sf_pcs := (sf_pcs s)(i := SfRun (sf_next s) key)\<rparr>)"
| finish: "sf_pcs s i = SfRun c key \<Longrightarrow>
    sf_step s (s\<lparr>sf_calls := (sf_calls s)(c \<mapsto> r), sf_pcs := (sf_pcs s)(i := SfClean c key)\<rparr>)"
| clean: "sf_pcs s i = SfClean c key \<Longrightarrow> sf_calls s c = Some r \<Longrightarrow>
    sf_step s (s\<lparr>sf_m := (sf_m s)(key := None), sf_pcs := (sf_pcs s)(i := SfReturned r)\<rparr>)"
| wake: "sf_pcs s i = SfWait c \<Longrightarrow> sf_calls s c = Some r \<Longrightarrow>
    sf_step s (s\<lparr>sf_pcs := (sf_pcs s)(i := SfReturned r)\<rparr>)"

inductive sf_reachable :: "'v sf_state \<Rightarrow> bool" where
  init: "sf_reachable sf_init"
| step: "sf_reachable s \<Longrightarrow> sf_step s s' \<Longrightarrow> sf_reachable s'"

section \<open>Invariants\<close>

text \<open>No step registers a call, so the map stays empty and nobody waits for another caller.\<close>

definition unshared :: "'v sf_state \<Rightarrow> bool" where
  "unshared s = (sf_m s = Map.empty \<and> (\<forall>i c. sf_pcs s i \<noteq> SfWait c))"

lemma sf_step_unshared: "sf_step s s' \<Longrightarrow> unshared s \<Longrightarrow> unshared s'"
  by (induction rule: sf_step.induct) (auto simp: unshared_def)

lemma sf_reachable_unshared: "sf_reachable s \<Longrightarrow> unshared s"
  by (induction rule: sf_reachable.induct) (simp_all add: sf_step_unshared, simp add: unshared_def sf_init_def)

text \<open>The call of a caller is its own, and it is finished exactly from its last step on.\<close>

fun pc_call :: "'v sf_pc \<Rightarrow> nat option" where
  "pc_call (SfRun c key) = Some c"
| "pc_call (SfClean c key) = Some c"
| "pc_call _ = None"

definition own_calls :: "'v sf_state \<Rightarrow> bool" where
  "own_calls s = ((\<forall>i c. pc_call (sf_pcs s i) = Some c \<longrightarrow> c < sf_next s)
     \<and> (\<forall>i j c. pc_call (sf_pcs s i) = Some c \<and> pc_call (sf_pcs s j) = Some c \<longrightarrow> i = j)
     \<and> (\<forall>i c key. sf_pcs s i = SfClean c key \<longrightarrow> sf_calls s c \<noteq> None))"

lemma sf_step_own_calls: "sf_step s s' \<Longrightarrow> own_calls s \<Longrightarrow> own_calls s'"
proof (induction rule: sf_step.induct)
  case (fresh s i key)
  then have "\<forall>j c. pc_call (sf_pcs s j) = Some c \<longrightarrow> c \<noteq> sf_next s" by (auto simp: own_calls_def)
  then show ?case using fresh by (auto simp: own_calls_def less_Suc_eq)
next
  case (finish s i c key r)
  then have "\<forall>j. pc_call (sf_pcs s j) = Some c \<longrightarrow> j = i" "c < sf_next s"
    unfolding own_calls_def by (metis pc_call.simps(1))+
  then show ?case using finish by (auto simp: own_calls_def)
qed (auto simp: own_calls_def)

lemma sf_reachable_own_calls: "sf_reachable s \<Longrightarrow> own_calls s"
  by (induction rule: sf_reachable.induct) (simp_all add: sf_step_own_calls, simp add: own_calls_def sf_init_def)

section \<open>Properties\<close>

text \<open>
  in every reachable state no goroutine is blocked: whatever point of \<^verbatim>\<open>Do\<close> a caller has
  reached, it can take its next step. In particular nobody waits on another caller's wait group.
\<close>

theorem sf_no_deadlock:
  assumes "sf_reachable s" and "\<forall>r. sf_pcs s i \<noteq> SfReturned r"
  shows "\<exists>s'. sf_step s s' \<and> sf_pcs s' i \<noteq> sf_pcs s i"
proof (cases "sf_pcs s i")
  case SfIdle
  then show ?thesis using arrive [of s i "[]"] by fastforce
next
  case (SfEnter key)
  then show ?thesis using fresh [of s i key] sf_reachable_unshared [OF assms(1)]
    by (fastforce simp: unshared_def)
next
  case (SfWait c)
  then show ?thesis using sf_reachable_unshared [OF assms(1)] by (auto simp: unshared_def)
next
  case (SfRun c key)
  then show ?thesis using finish [of s i c key] by fastforce
next
  case (SfClean c key)
  then obtain r where "sf_calls s c = Some r"
    using sf_reachable_own_calls [OF assms(1)] unfolding own_calls_def by blast
  then show ?thesis using clean [OF SfClean] SfClean by fastforce
next
  case (SfReturned r)
  then show ?thesis using assms(2) by simp
qed

theorem sf_no_deadlock_witness:
  "\<exists>s'. sf_step (sf_init :: nat sf_state) s' \<and> sf_pcs s' 0 \<noteq> sf_pcs sf_init 0"
  by (rule sf_no_deadlock [OF sf_reachable.init]) (simp add: sf_init_def)

text \<open>
  concurrent calls for one key are not merged: for every key a state is reachable in which
  two callers run \<^verbatim>\<open>fn\<close> for it at the same time, since \<^verbatim>\<open>Do\<close> never stores the call it makes in
  the map that it looks calls up in.
\<close>

theorem sf_duplicate_calls:
  "\<exists>s :: 'v sf_state. sf_reachable s \<and> sf_pcs s 0 = SfRun 0 key \<and> sf_pcs s 1 = SfRun 1 key"
proof -
  let ?pc = "sf_pcs sf_init"
  define s1 where "s1 = (sf_init :: 'v sf_state)\<lparr>sf_pcs := (sf_pcs sf_init)(0 := SfEnter key)\<rparr>"
  define s2 where "s2 = s1\<lparr>sf_pcs := (sf_pcs s1)(1 := SfEnter key)\<rparr>"
  define s3 where "s3 = s2\<lparr>sf_next := Suc (sf_next s2), sf_pcs := (sf_pcs s2)(0 := SfRun (sf_next s2) key)\<rparr>"
  define s4 where "s4 = s3\<lparr>sf_next := Suc (sf_next s3), sf_pcs := (sf_pcs s3)(1 := SfRun (sf_next s3) key)\<rparr>"
  note defs = s1_def s2_def s3_def s4_def sf_init_def
  have "sf_reachable s1"
    unfolding s1_def by (rule sf_reachable.step [OF sf_reachable.init sf_step.arrive]) (simp add: sf_init_def)
  then have "sf_reachable s2"
    unfolding s2_def by (rule sf_reachable.step [OF _ sf_step.arrive]) (simp add: defs)
  then have "sf_reachable s3"
    unfolding s3_def by (rule sf_reachable.step [OF _ sf_step.fresh]) (simp_all add: defs)
  then have "sf_reachable s4"
    unfolding s4_def by (rule sf_reachable.step [OF _ sf_step.fresh]) (simp_all add: defs)
  then show ?thesis by (intro exI [of _ s4]) (simp add: defs)
qed

end
