(* ===== verification/Node_Manager.thy ===== *)
theory Node_Manager
  imports Node_Data
begin

text \<open>
  \<^verbatim>\<open>cluster/backend/base.go\<close>: the nodes that a backend tracks and its three indexes. A node is not
  changed after it has been added, so the indexes hold the node itself.
\<close>

section \<open>State and operations\<close>

record baseNodeManager =
  bn_IPToNode :: "string \<Rightarrow> RuntimeNode option"
  bn_HostToNode :: "string \<Rightarrow> RuntimeNode option"
  bn_IDToNode :: "string \<Rightarrow> RuntimeNode option"
  bn_Nodes :: "RuntimeNode list"
  bn_Num :: int

definition resetMaps :: "baseNodeManager \<Rightarrow> baseNodeManager" where
  "resetMaps b = b\<lparr>bn_IPToNode := Map.empty, bn_HostToNode := Map.empty, bn_IDToNode := Map.empty,
     bn_Nodes := [], bn_Num := 0\<rparr>"

definition addNode :: "RuntimeNode \<Rightarrow> baseNodeManager \<Rightarrow> baseNodeManager" where
  "addNode node b =
     b\<lparr>bn_Nodes := bn_Nodes b @ [node],
       bn_Num := bn_Num b + 1,
       bn_IPToNode := (bn_IPToNode b)(rn_ConIp node \<mapsto> node),
       bn_IDToNode := (bn_IDToNode b)(rn_ID node \<mapsto> node),
       bn_HostToNode := (if rn_Hostname node \<noteq> [] then (bn_HostToNode b)(rn_Hostname node \<mapsto> node)
                         else bn_HostToNode b)\<rparr>"

definition hasCluster :: "string \<Rightarrow> baseNodeManager \<Rightarrow> bool" where
  "hasCluster clusterName b = list_ex (\<lambda>n. rn_ClusterName n = clusterName) (bn_Nodes b)"

definition getNodes :: "baseNodeManager \<Rightarrow> RuntimeNode list" where
  "getNodes b = bn_Nodes b"

definition getNodeByIP :: "string \<Rightarrow> baseNodeManager \<Rightarrow> RuntimeNode option" where
  "getNodeByIP ip b = bn_IPToNode b ip"

definition getNodeByHost :: "string \<Rightarrow> baseNodeManager \<Rightarrow> RuntimeNode option" where
  "getNodeByHost host b =
     (case bn_HostToNode b host of Some node \<Rightarrow> Some node | None \<Rightarrow> bn_IPToNode b host)"

definition getNodeCount :: "baseNodeManager \<Rightarrow> int" where
  "getNodeCount b = bn_Num b"

definition countByCluster :: "string \<Rightarrow> baseNodeManager \<Rightarrow> int" where
  "countByCluster name b = int (length (filter (\<lambda>n. rn_ClusterName n = name) (bn_Nodes b)))"

section \<open>Invariant\<close>

text \<open>
  The count is the number of nodes, and an index entry is a tracked node with that key; every
  tracked node's address has an entry.
\<close>

definition base_inv :: "baseNodeManager \<Rightarrow> bool" where
  "base_inv b =
     (bn_Num b = int (length (bn_Nodes b))
      \<and> (\<forall>ip n. bn_IPToNode b ip = Some n \<longrightarrow> n \<in> set (bn_Nodes b) \<and> rn_ConIp n = ip)
      \<and> (\<forall>h n. bn_HostToNode b h = Some n \<longrightarrow> n \<in> set (bn_Nodes b) \<and> rn_Hostname n = h)
      \<and> (\<forall>n \<in> set (bn_Nodes b). bn_IPToNode b (rn_ConIp n) \<noteq> None))"

lemma base_inv_reset [simp, wf_intros]: "base_inv (resetMaps b)"
  by (simp add: base_inv_def resetMaps_def)

lemma base_inv_add [wf_intros]: "base_inv b \<Longrightarrow> base_inv (addNode n b)"
  by (auto simp: base_inv_def addNode_def)

lemma getNodeByHost_mem:
  "base_inv b \<Longrightarrow> getNodeByHost h b = Some n \<Longrightarrow>
   n \<in> set (bn_Nodes b) \<and> (rn_Hostname n = h \<or> rn_ConIp n = h)"
  by (auto simp: base_inv_def getNodeByHost_def split: option.splits)

lemma hasCluster_iff: "hasCluster c b \<longleftrightarrow> 0 < countByCluster c b"
  by (auto simp: hasCluster_def countByCluster_def list_ex_iff filter_empty_conv)

lemma addNode_nodes [simp]:
  "bn_Nodes (addNode n b) = bn_Nodes b @ [n]" "bn_Num (addNode n b) = bn_Num b + 1"
  by (simp_all add: addNode_def)

text \<open>With distinct container addresses the index by address is exact.\<close>

lemma IPToNode_exact:
  assumes "base_inv b" "distinct (map rn_ConIp (bn_Nodes b))" "n \<in> set (bn_Nodes b)"
  shows "bn_IPToNode b (rn_ConIp n) = Some n"
proof -
  obtain m where m: "bn_IPToNode b (rn_ConIp n) = Some m" "m \<in> set (bn_Nodes b)" "rn_ConIp m = rn_ConIp n"
    using assms(1,3) by (auto simp: base_inv_def)
  have "inj_on rn_ConIp (set (bn_Nodes b))" using assms(2) by (simp add: distinct_map)
  then have "m = n" using m(2,3) assms(3) by (auto dest: inj_onD)
  then show ?thesis using m(1) by simp
qed

end
