(* ===== verification/Go_Paths.thy ===== *)
theory Go_Paths
  imports Go_Strings
begin

text \<open>
  The lexical path functions of the Go library that the configuration uses, on Unix:
  \<^verbatim>\<open>filepath.Clean\<close>, \<^verbatim>\<open>filepath.Join\<close>, \<^verbatim>\<open>filepath.IsAbs\<close> and \<^verbatim>\<open>path.Dir\<close>.
\<close>

definition filepath_IsAbs :: "string \<Rightarrow> bool" where
  "filepath_IsAbs p = (p \<noteq> [] \<and> hd p = CHR ''/'')"

text \<open>One path element on the stack of kept elements, the last one first.\<close>

fun clean_element :: "bool \<Rightarrow> string \<Rightarrow> string list \<Rightarrow> string list" where
  "clean_element rooted e st =
     (if e = [] \<or> e = ''.'' then st
      else if e = ''..'' then
        (case st of
           [] \<Rightarrow> if rooted then [] else [''..'']
         | t # ts \<Rightarrow> if t = ''..'' then ''..'' # st else ts)
      else e # st)"

definition filepath_Clean :: "string \<Rightarrow> string" where
  "filepath_Clean p =
     (let rooted = filepath_IsAbs p;
          es = rev (fold (clean_element rooted) (strings_Split p (CHR ''/'')) []);
          body = strings_Join es (CHR ''/'')
      in if rooted then CHR ''/'' # body else if body = [] then ''.'' else body)"

definition filepath_Join :: "string list \<Rightarrow> string" where
  "filepath_Join es =
     (case dropWhile (\<lambda>e. e = []) es of
        [] \<Rightarrow> []
      | es' \<Rightarrow> filepath_Clean (strings_Join es' (CHR ''/'')))"

definition path_Dir :: "string \<Rightarrow> string" where
  "path_Dir p =
     filepath_Clean (case strings_LastIndex p (CHR ''/'') of None \<Rightarrow> [] | Some i \<Rightarrow> take (Suc i) p)"

lemma filepath_IsAbs_Clean: "filepath_IsAbs p \<Longrightarrow> filepath_IsAbs (filepath_Clean p)"
  by (simp add: filepath_Clean_def Let_def) (simp add: filepath_IsAbs_def)

lemma filepath_IsAbs_not_Nil: "filepath_IsAbs p \<Longrightarrow> p \<noteq> []"
  by (auto simp: filepath_IsAbs_def)

lemma filepath_IsAbs_Join: "filepath_IsAbs p \<Longrightarrow> filepath_IsAbs (filepath_Join (p # ps))"
proof -
  assume p: "filepath_IsAbs p"
  then have "p \<noteq> []" by (auto simp: filepath_IsAbs_def)
  moreover have "filepath_IsAbs (strings_Join (p # ps) (CHR ''/''))"
    using p by (cases ps) (auto simp: filepath_IsAbs_def)
  ultimately show ?thesis by (simp add: filepath_Join_def filepath_IsAbs_Clean)
qed

lemma strings_LastIndex_Some: "c \<in> set s \<Longrightarrow> \<exists>i. strings_LastIndex s c = Some i"
  by (induction s) (auto split: option.splits)

lemma filepath_IsAbs_Dir: "filepath_IsAbs p \<Longrightarrow> filepath_IsAbs (path_Dir p)"
proof -
  assume p: "filepath_IsAbs p"
  then have "CHR ''/'' \<in> set p" by (cases p) (auto simp: filepath_IsAbs_def)
  then obtain i where "strings_LastIndex p (CHR ''/'') = Some i" using strings_LastIndex_Some by blast
  moreover have "filepath_IsAbs (take (Suc i) p)" using p by (cases p) (auto simp: filepath_IsAbs_def)
  ultimately show ?thesis by (simp add: path_Dir_def filepath_IsAbs_Clean)
qed

lemma filepath_Join_examples:
  "filepath_Join [''/srv/app'', ''runtime''] = ''/srv/app/runtime''"
  "filepath_Join [''/srv/app'', ''../x'', ''y''] = ''/srv/x/y''"
  "path_Dir ''/srv/app/config/config.go'' = ''/srv/app/config''"
  by code_simp+

end
