(* ===== verification/Runtime_Config.thy ===== *)
theory Runtime_Config
  imports Go_Paths
begin

text \<open>
  \<^verbatim>\<open>cluster/config/config.go\<close>: reading the configuration. The process environment is a function
  from names to values, empty when unset; the YAML file is the configuration it decodes to, or
  the error of reading it; the source file name that \<^verbatim>\<open>runtime.Caller\<close> reports and the operating
  system are arguments. Printing is left out.
\<close>

section \<open>Types\<close>

record CacheConfig =
  cc_Enabled :: bool
  cc_MaxBytes :: int
  cc_TTL :: int
  cc_HotKeyThreshold :: int
  cc_HotReplicas :: int
  cc_DBRateLimit :: int
  cc_ServerIP :: string
  cc_ServerPort :: int
  cc_GossipPort :: int
  cc_APIGateway :: bool
  cc_CacheGroupName :: string
  cc_Seeds :: "string list"
  cc_TLSMode :: string
  cc_TLSCertFile :: string
  cc_TLSKeyFile :: string
  cc_TLSCAFile :: string

record DNSConfig =
  dn_Enabled :: bool
  dn_Domain :: string
  dn_NamingTemplate :: string

text \<open>The record \<^verbatim>\<open>Config\<close> with the fields of its nested structs \<^verbatim>\<open>Paths\<close> and \<^verbatim>\<open>Configs\<close>.\<close>

record Config =
  cf_Backend :: string
  cf_DBPath :: string
  cf_ContainerdSocket :: string
  cf_RedisHostConfigPath :: string
  cf_RedisConfigPath :: string
  cf_RedisHostDataPath :: string
  cf_RedisConfigDataPath :: string
  cf_RuntimeStateDir :: string
  cf_SaveFileName :: string
  cf_ImageName :: string
  cf_RedisPort :: "16 word"
  cf_Cache :: CacheConfig
  cf_DNS :: DNSConfig

record RuntimeConfig =
  rt_ProjectRoot :: string
  rt_RedisHostConfigPath :: string
  rt_RedisConfigPath :: string
  rt_RedisHostDataPath :: string
  rt_RedisConfigDataPath :: string
  rt_RuntimeStateDir :: string
  rt_ConfigSaveFileName :: string
  rt_Backend :: string
  rt_DBPath :: string
  rt_ContainerdSocket :: string
  rt_ImageName :: string
  rt_RedisContainerPort :: "16 word"
  rt_Cache :: "CacheConfig option"
  rt_DNS :: "DNSConfig option"

record RedisClusterConfig =
  rcc_NodesPerShard :: int
  rcc_Port :: "16 word"

definition EffectiveNodesPerShard :: "RedisClusterConfig \<Rightarrow> int" where
  "EffectiveNodesPerShard c = rcc_NodesPerShard c"

section \<open>Paths\<close>

definition isUnixStyleAbsPath :: "string \<Rightarrow> bool" where
  "isUnixStyleAbsPath p = (length p > 0 \<and> p ! 0 = CHR ''/'')"

definition resolveLocalAbsPath :: "string \<Rightarrow> string \<Rightarrow> string" where
  "resolveLocalAbsPath root p = (if filepath_IsAbs p \<or> p = [] then p else filepath_Join [root, p])"

definition resolveContainerHostPath :: "string \<Rightarrow> string \<Rightarrow> string" where
  "resolveContainerHostPath root p = (if isUnixStyleAbsPath p then p else resolveLocalAbsPath root p)"

definition resolveStateFilePath :: "string \<Rightarrow> string \<Rightarrow> string" where
  "resolveStateFilePath root name = (if filepath_IsAbs name then name else filepath_Join [root, name])"

definition defaultContainerdSocket :: "string \<Rightarrow> string" where
  "defaultContainerdSocket goos =
     (if goos = ''windows'' then [CHR 0x5C, CHR 0x5C] @ ''.'' @ [CHR 0x5C] @ ''pipe'' @ [CHR 0x5C] @ ''containerd-containerd''
      else ''/run/containerd/containerd.sock'')"

section \<open>Reading the configuration\<close>

text \<open>A string variable that is set replaces the value; a number or flag does if it parses.\<close>

definition env_string :: "(string \<Rightarrow> string) \<Rightarrow> string \<Rightarrow> string \<Rightarrow> string" where
  "env_string env key old = (if env key \<noteq> [] then env key else old)"

definition env_parsed :: "(string \<Rightarrow> string) \<Rightarrow> string \<Rightarrow> (string \<Rightarrow> 'a go_result) \<Rightarrow> 'a \<Rightarrow> 'a" where
  "env_parsed env key parse old =
     (if env key \<noteq> [] then (case parse (env key) of Inr v \<Rightarrow> v | Inl _ \<Rightarrow> old) else old)"

definition parse_port :: "string \<Rightarrow> 16 word go_result" where
  "parse_port s = (case strconv_ParseUint s 16 of Inl e \<Rightarrow> Inl e | Inr n \<Rightarrow> Inr (of_nat n))"

definition loadFromEnv :: "(string \<Rightarrow> string) \<Rightarrow> Config \<Rightarrow> Config" where
  "loadFromEnv env c =
     c\<lparr>cf_RedisHostConfigPath := env_string env ''REDIS_HOST_CONFIG_PATH'' (cf_RedisHostConfigPath c),
       cf_RedisConfigPath := env_string env ''REDIS_CONFIG_PATH'' (cf_RedisConfigPath c),
       cf_RedisHostDataPath := env_string env ''REDIS_HOST_DATA_PATH'' (cf_RedisHostDataPath c),
       cf_RedisConfigDataPath := env_string env ''REDIS_CONFIG_DATA_PATH'' (cf_RedisConfigDataPath c),
       cf_SaveFileName := env_string env ''CLUSTER_SAVE_FILE_NAME'' (cf_SaveFileName c),
       cf_ImageName := env_string env ''CLUSTER_IMAGE_NAME'' (cf_ImageName c),
       cf_RuntimeStateDir := env_string env ''CLUSTER_STATE_DIR'' (cf_RuntimeStateDir c),
       cf_RedisPort := env_parsed env ''CLUSTER_REDIS_PORT'' parse_port (cf_RedisPort c),
       cf_Backend := env_string env ''CLUSTER_BACKEND'' (cf_Backend c),
       cf_ContainerdSocket := env_string env ''CLUSTER_CONTAINERD_SOCKET'' (cf_ContainerdSocket c),
       cf_DBPath := env_string env ''CLUSTER_DB_PATH'' (cf_DBPath c),
       cf_DNS := (cf_DNS c)\<lparr>
         dn_Enabled := env_parsed env ''CLUSTER_DNS_ENABLED'' strconv_ParseBool (dn_Enabled (cf_DNS c)),
         dn_Domain := env_string env ''CLUSTER_DNS_DOMAIN'' (dn_Domain (cf_DNS c)),
         dn_NamingTemplate := env_string env ''CLUSTER_DNS_NAMING_TEMPLATE'' (dn_NamingTemplate (cf_DNS c))\<rparr>,
       cf_Cache := (cf_Cache c)\<lparr>
         cc_MaxBytes := env_parsed env ''CACHE_MAX_BYTES'' strconv_Atoi (cc_MaxBytes (cf_Cache c)),
         cc_TTL := env_parsed env ''CACHE_TTL'' strconv_Atoi (cc_TTL (cf_Cache c)),
         cc_ServerPort := env_parsed env ''CACHE_PORT'' strconv_Atoi (cc_ServerPort (cf_Cache c)),
         cc_GossipPort := env_parsed env ''CACHE_GOSSIP_PORT'' strconv_Atoi (cc_GossipPort (cf_Cache c)),
         cc_TLSMode := env_string env ''CACHE_TLS_MODE'' (cc_TLSMode (cf_Cache c))\<rparr>\<rparr>"

definition resolvePaths :: "string \<Rightarrow> Config \<Rightarrow> Config" where
  "resolvePaths root c =
     c\<lparr>cf_RedisHostConfigPath := resolveContainerHostPath root (cf_RedisHostConfigPath c),
       cf_RedisHostDataPath := resolveContainerHostPath root (cf_RedisHostDataPath c),
       cf_RuntimeStateDir := resolveLocalAbsPath root (cf_RuntimeStateDir c)\<rparr>"

definition int_or :: "int \<Rightarrow> int \<Rightarrow> int" where
  "int_or d x = (if x = 0 then d else x)"

definition string_or :: "string \<Rightarrow> string \<Rightarrow> string" where
  "string_or d x = (if x = [] then d else x)"

definition resolveCacheDefaults :: "CacheConfig \<Rightarrow> CacheConfig" where
  "resolveCacheDefaults c =
     c\<lparr>cc_MaxBytes := int_or (2 ^ 30) (cc_MaxBytes c),
       cc_TTL := int_or 3600 (cc_TTL c),
       cc_HotKeyThreshold := int_or 100 (cc_HotKeyThreshold c),
       cc_HotReplicas := int_or 2 (cc_HotReplicas c),
       cc_DBRateLimit := int_or 200 (cc_DBRateLimit c),
       cc_ServerPort := int_or 8001 (cc_ServerPort c),
       cc_GossipPort := int_or 9001 (cc_GossipPort c),
       cc_CacheGroupName := string_or ''default'' (cc_CacheGroupName c),
       cc_TLSMode := string_or ''insecure'' (cc_TLSMode c)\<rparr>"

definition default_template :: string where
  "default_template = ''{{.ClusterName}}-redis-{{.Index}}.{{.ClusterName}}-svc.{{.Namespace}}''"

definition resolveDNSDefaults :: "DNSConfig \<Rightarrow> DNSConfig" where
  "resolveDNSDefaults d = d\<lparr>dn_NamingTemplate := string_or default_template (dn_NamingTemplate d)\<rparr>"

definition ReadConfig ::
  "string \<Rightarrow> string \<Rightarrow> (string \<Rightarrow> string) \<Rightarrow> Config go_result \<Rightarrow> RuntimeConfig go_result" where
  "ReadConfig filename goos env yaml =
     (let root = path_Dir (path_Dir filename) in
      case yaml of
        Inl err \<Rightarrow> Inl (ErrorfW ''failed to read YAML file'' err)
      | Inr c0 \<Rightarrow>
          let c = resolvePaths root (loadFromEnv env c0);
              stateDir = (if cf_RuntimeStateDir c = [] then filepath_Join [root, ''runtime'']
                          else cf_RuntimeStateDir c)
          in if cf_RedisHostConfigPath c = [] then Inl (Errorf ''redis host config path is empty'')
             else if cf_RedisHostDataPath c = [] then Inl (Errorf ''redis host data path is empty'')
             else if cf_ImageName c = [] then Inl (Errorf ''image name is empty'')
             else Inr \<lparr>rt_ProjectRoot = root,
               rt_RedisHostConfigPath = cf_RedisHostConfigPath c,
               rt_RedisConfigPath = string_or ''/data/redis/config'' (cf_RedisConfigPath c),
               rt_RedisHostDataPath = cf_RedisHostDataPath c,
               rt_RedisConfigDataPath = string_or ''/data/redis/data'' (cf_RedisConfigDataPath c),
               rt_RuntimeStateDir = stateDir,
               rt_ConfigSaveFileName =
                 resolveStateFilePath stateDir (string_or ''run_time_config.yaml'' (cf_SaveFileName c)),
               rt_Backend = string_or ''podman'' (cf_Backend c),
               rt_DBPath = (if cf_DBPath c = [] then filepath_Join [stateDir, ''cluster.db''] else cf_DBPath c),
               rt_ContainerdSocket = string_or (defaultContainerdSocket goos) (cf_ContainerdSocket c),
               rt_ImageName = cf_ImageName c,
               rt_RedisContainerPort = (if cf_RedisPort c \<noteq> 0 then cf_RedisPort c else 6379),
               rt_Cache = Some (resolveCacheDefaults (cf_Cache c)),
               rt_DNS = Some (resolveDNSDefaults (cf_DNS c))\<rparr>)"

definition InitConfig ::
  "string \<Rightarrow> string \<Rightarrow> (string \<Rightarrow> string) \<Rightarrow> Config go_result \<Rightarrow> RuntimeConfig go_result" where
  "InitConfig filename goos env yaml =
     (case ReadConfig filename goos env yaml of
        Inl err \<Rightarrow> Inl (ErrorfW ''failed to initialize config'' err)
      | Inr cfg \<Rightarrow> Inr cfg)"

section \<open>Accessors\<close>

definition ClusterStateDir :: "RuntimeConfig \<Rightarrow> string \<Rightarrow> string" where
  "ClusterStateDir cfg clusterName = filepath_Join [rt_RuntimeStateDir cfg, clusterName]"

definition ClusterRuntimeConfigPath :: "RuntimeConfig \<Rightarrow> string \<Rightarrow> string" where
  "ClusterRuntimeConfigPath cfg clusterName =
     resolveStateFilePath (ClusterStateDir cfg clusterName) (rt_ConfigSaveFileName cfg)"

text \<open>An accessor of the cache settings, with the default for a missing cache section.\<close>

definition cache_field :: "'a \<Rightarrow> (CacheConfig \<Rightarrow> 'a) \<Rightarrow> RuntimeConfig \<Rightarrow> 'a" where
  "cache_field d f cfg = (case rt_Cache cfg of None \<Rightarrow> d | Some c \<Rightarrow> f c)"

definition CacheGroupName :: "RuntimeConfig \<Rightarrow> string" where
  "CacheGroupName = cache_field ''default'' cc_CacheGroupName"

definition CacheMaxBytes :: "RuntimeConfig \<Rightarrow> int" where
  "CacheMaxBytes = cache_field (2 ^ 30) cc_MaxBytes"

definition CacheTTL :: "RuntimeConfig \<Rightarrow> int" where
  "CacheTTL = cache_field 3600 cc_TTL"

definition CacheHotKeyThreshold :: "RuntimeConfig \<Rightarrow> int" where
  "CacheHotKeyThreshold = cache_field 100 cc_HotKeyThreshold"

definition CacheHotReplicas :: "RuntimeConfig \<Rightarrow> int" where
  "CacheHotReplicas = cache_field 2 cc_HotReplicas"

definition CacheDBRateLimit :: "RuntimeConfig \<Rightarrow> int" where
  "CacheDBRateLimit = cache_field 200 cc_DBRateLimit"

definition CachePort :: "RuntimeConfig \<Rightarrow> int" where
  "CachePort = cache_field 8001 cc_ServerPort"

definition CacheGossipPort :: "RuntimeConfig \<Rightarrow> int" where
  "CacheGossipPort = cache_field 9001 cc_GossipPort"

definition CacheSeeds :: "RuntimeConfig \<Rightarrow> string list" where
  "CacheSeeds = cache_field [] cc_Seeds"

definition CacheTLSMode :: "RuntimeConfig \<Rightarrow> string" where
  "CacheTLSMode = cache_field ''insecure'' cc_TLSMode"

definition CacheAPIAddr :: "RuntimeConfig \<Rightarrow> string" where
  "CacheAPIAddr cfg =
     (case rt_Cache cfg of
        None \<Rightarrow> '':9999''
      | Some c \<Rightarrow> if cc_ServerIP c = [] then '':9999'' else cc_ServerIP c @ '':9999'')"

definition DNSEnabled :: "RuntimeConfig \<Rightarrow> bool" where
  "DNSEnabled cfg = (case rt_DNS cfg of None \<Rightarrow> False | Some d \<Rightarrow> dn_Enabled d)"

definition DNSDomain :: "RuntimeConfig \<Rightarrow> string" where
  "DNSDomain cfg =
     (case rt_DNS cfg of None \<Rightarrow> ''svc.cluster.local''
      | Some d \<Rightarrow> if dn_Domain d = [] then ''svc.cluster.local'' else dn_Domain d)"

definition DNSNamingTemplate :: "RuntimeConfig \<Rightarrow> string" where
  "DNSNamingTemplate cfg = (case rt_DNS cfg of None \<Rightarrow> [] | Some d \<Rightarrow> dn_NamingTemplate d)"

definition BuildHostname :: "RuntimeConfig \<Rightarrow> string \<Rightarrow> int \<Rightarrow> string" where
  "BuildHostname cfg clusterName index =
     (case rt_DNS cfg of
        None \<Rightarrow> []
      | Some d \<Rightarrow>
          if \<not> dn_Enabled d then []
          else if dn_NamingTemplate d = [] then clusterName @ ''-redis-'' @ strconv_Itoa index
          else
            let n1 = strings_ReplaceAll (dn_NamingTemplate d) ''{{.ClusterName}}'' clusterName;
                n2 = strings_ReplaceAll n1 ''{{.Index}}'' (strconv_Itoa index)
            in strings_ReplaceAll n2 ''{{.Namespace}}'' ''default'')"

section \<open>Facts about a configuration that was read\<close>

lemma string_or_ne [simp]: "d \<noteq> [] \<Longrightarrow> string_or d x \<noteq> []"
  by (simp add: string_or_def)

lemma int_or_ne [simp]: "d \<noteq> 0 \<Longrightarrow> int_or d x \<noteq> 0"
  by (simp add: int_or_def)

lemma resolveLocalAbsPath_abs:
  "filepath_IsAbs root \<Longrightarrow> p \<noteq> [] \<Longrightarrow> filepath_IsAbs (resolveLocalAbsPath root p)"
  by (simp add: resolveLocalAbsPath_def filepath_IsAbs_Join)

lemma resolveStateFilePath_abs:
  "filepath_IsAbs root \<Longrightarrow> filepath_IsAbs (resolveStateFilePath root name)"
  by (simp add: resolveStateFilePath_def filepath_IsAbs_Join)

lemma resolveLocalAbsPath_Nil: "resolveLocalAbsPath root [] = []"
  by (simp add: resolveLocalAbsPath_def)

lemma state_dir_abs:
  assumes "filepath_IsAbs root"
  shows "filepath_IsAbs (if resolveLocalAbsPath root p = [] then filepath_Join [root, ''runtime'']
    else resolveLocalAbsPath root p)"
  using assms filepath_IsAbs_Join [of root] resolveLocalAbsPath_abs [OF assms, of p]
  by (cases "p = []") (auto simp: resolveLocalAbsPath_Nil)

lemma ReadConfig_fields:
  assumes "ReadConfig filename goos env yaml = Inr cfg"
  obtains c0 where "yaml = Inr c0"
    "rt_RuntimeStateDir cfg = (let root = path_Dir (path_Dir filename);
        p = resolveLocalAbsPath root (cf_RuntimeStateDir (loadFromEnv env c0))
      in if p = [] then filepath_Join [root, ''runtime''] else p)"
    "rt_ConfigSaveFileName cfg = resolveStateFilePath (rt_RuntimeStateDir cfg)
      (string_or ''run_time_config.yaml'' (cf_SaveFileName (loadFromEnv env c0)))"
    "rt_ImageName cfg = cf_ImageName (loadFromEnv env c0)" "rt_ImageName cfg \<noteq> []"
    "rt_Backend cfg = string_or ''podman'' (cf_Backend (loadFromEnv env c0))"
    "rt_RedisContainerPort cfg = (if cf_RedisPort (loadFromEnv env c0) \<noteq> 0
      then cf_RedisPort (loadFromEnv env c0) else 6379)"
    "rt_DBPath cfg = (if cf_DBPath (loadFromEnv env c0) = []
      then filepath_Join [rt_RuntimeStateDir cfg, ''cluster.db''] else cf_DBPath (loadFromEnv env c0))"
    "rt_Cache cfg = Some (resolveCacheDefaults (cf_Cache (loadFromEnv env c0)))"
    "rt_RedisHostConfigPath cfg \<noteq> []" "rt_RedisHostDataPath cfg \<noteq> []"
proof -
  obtain c0 where c0: "yaml = Inr c0" using assms by (cases yaml) (simp_all add: ReadConfig_def)
  show thesis
    by (rule that [OF c0]; use assms c0 in
        \<open>simp add: ReadConfig_def Let_def resolvePaths_def split: if_split_asm; auto\<close>)
qed

section \<open>Properties\<close>


definition no_cache :: CacheConfig where
  "no_cache = \<lparr>cc_Enabled = False, cc_MaxBytes = 0, cc_TTL = 0, cc_HotKeyThreshold = 0,
     cc_HotReplicas = 0, cc_DBRateLimit = 0, cc_ServerIP = [], cc_ServerPort = 0, cc_GossipPort = 0,
     cc_APIGateway = False, cc_CacheGroupName = [], cc_Seeds = [], cc_TLSMode = [],
     cc_TLSCertFile = [], cc_TLSKeyFile = [], cc_TLSCAFile = []\<rparr>"

definition small_config :: Config where
  "small_config = \<lparr>cf_Backend = [], cf_DBPath = [], cf_ContainerdSocket = [],
     cf_RedisHostConfigPath = ''/etc/redis'', cf_RedisConfigPath = [], cf_RedisHostDataPath = ''data'',
     cf_RedisConfigDataPath = [], cf_RuntimeStateDir = [], cf_SaveFileName = [],
     cf_ImageName = ''redis:7'', cf_RedisPort = 0, cf_Cache = no_cache,
     cf_DNS = \<lparr>dn_Enabled = False, dn_Domain = [], dn_NamingTemplate = []\<rparr>\<rparr>"

lemma small_config_read:
  "\<exists>cfg. ReadConfig ''/srv/cluster/config/config.go'' ''linux'' (\<lambda>_. []) (Inr small_config) = Inr cfg"
  by (simp add: ReadConfig_def Let_def resolvePaths_def loadFromEnv_def env_string_def small_config_def
      resolveContainerHostPath_def isUnixStyleAbsPath_def resolveLocalAbsPath_def filepath_IsAbs_def
      path_Dir_def filepath_Join_def filepath_Clean_def)


text \<open>
  every cluster gets the same runtime configuration file. Reading the configuration already
  makes the file name absolute, and an absolute name is taken as it is, so the state directory
  of the cluster plays no part: what one cluster saves, another overwrites or deletes.
\<close>

theorem ClusterRuntimeConfigPath_shared:
  assumes "ReadConfig filename goos env yaml = Inr cfg" and "filepath_IsAbs filename"
  shows "ClusterRuntimeConfigPath cfg a = ClusterRuntimeConfigPath cfg b"
proof (rule ReadConfig_fields [OF assms(1)])
  fix c0
  assume sd: "rt_RuntimeStateDir cfg = (let root = path_Dir (path_Dir filename);
        p = resolveLocalAbsPath root (cf_RuntimeStateDir (loadFromEnv env c0))
      in if p = [] then filepath_Join [root, ''runtime''] else p)"
    and save: "rt_ConfigSaveFileName cfg = resolveStateFilePath (rt_RuntimeStateDir cfg)
      (string_or ''run_time_config.yaml'' (cf_SaveFileName (loadFromEnv env c0)))"
  have "filepath_IsAbs (rt_RuntimeStateDir cfg)"
    unfolding sd Let_def by (intro state_dir_abs filepath_IsAbs_Dir assms(2))
  then have "filepath_IsAbs (rt_ConfigSaveFileName cfg)"
    unfolding save by (rule resolveStateFilePath_abs)
  then show ?thesis by (simp add: ClusterRuntimeConfigPath_def resolveStateFilePath_def)
qed

theorem ClusterRuntimeConfigPath_shared_witness:
  "\<exists>cfg. ReadConfig ''/srv/cluster/config/config.go'' ''linux'' (\<lambda>_. []) (Inr small_config) = Inr cfg
    \<and> ClusterRuntimeConfigPath cfg ''a'' = ClusterRuntimeConfigPath cfg ''b''"
proof -
  obtain cfg where r: "ReadConfig ''/srv/cluster/config/config.go'' ''linux'' (\<lambda>_. []) (Inr small_config) = Inr cfg"
    using small_config_read by blast
  then show ?thesis using ClusterRuntimeConfigPath_shared [OF r, of "''a''" "''b''"]
    by (simp add: filepath_IsAbs_def)
qed

end
