(* ===== verification/Podman.thy ===== *)
theory Podman
  imports Node_Manager Runtime_Config
begin

text \<open>
  \<^verbatim>\<open>cluster/backend/podman.go\<close>. Everything outside the process is a record of functions on an
  external state: the \<^verbatim>\<open>podman\<close> command by its arguments with its output, the creation of a
  directory, the state of the context, the clock and sleeping. The arguments are those of the
  code. A function whose wait loop does not end is \<^const>\<open>None\<close>; a slice out of range is a panic.
\<close>

section \<open>The environment\<close>

record 'w podman_api =
  pa_exec :: "string list \<Rightarrow> 'w \<Rightarrow> 'w \<times> string go_result"
  pa_mkdir :: "string \<Rightarrow> 'w \<Rightarrow> 'w \<times> go_err"
  pa_ctx :: "'w \<Rightarrow> go_err"
  pa_now :: "'w \<Rightarrow> int"
  pa_sleep :: "int \<Rightarrow> 'w \<Rightarrow> 'w"

record PodmanNodeManager =
  pm_config :: RuntimeConfig
  pm_base :: baseNodeManager

definition NewPodmanNodeManager :: "RuntimeConfig \<Rightarrow> PodmanNodeManager" where
  "NewPodmanNodeManager cfg = \<lparr>pm_config = cfg, pm_base = \<lparr>bn_IPToNode = Map.empty,
     bn_HostToNode = Map.empty, bn_IDToNode = Map.empty, bn_Nodes = [], bn_Num = 0\<rparr>\<rparr>"

definition AddRuntimeNode :: "RuntimeNode \<Rightarrow> PodmanNodeManager \<Rightarrow> PodmanNodeManager" where
  "AddRuntimeNode node c =
     (let node' = (if na_ClientAddr (rn_Address node) = [] then
                     node\<lparr>rn_Address := \<lparr>na_ClusterAddr = host_port (rn_ConIp node) (rn_ConPort node),
                                        na_ClientAddr = host_port (rn_HostIP node) (rn_HostPort node)\<rparr>\<rparr>
                   else node)
      in c\<lparr>pm_base := addNode node' (pm_base c)\<rparr>)"

definition pm_HasCluster :: "PodmanNodeManager \<Rightarrow> string \<Rightarrow> bool" where
  "pm_HasCluster c clusterName = hasCluster clusterName (pm_base c)"

definition pm_GetNodes :: "PodmanNodeManager \<Rightarrow> RuntimeNode list" where
  "pm_GetNodes c = getNodes (pm_base c)"

definition pm_GetNodeByIP :: "PodmanNodeManager \<Rightarrow> string \<Rightarrow> RuntimeNode option" where
  "pm_GetNodeByIP c ip = getNodeByIP ip (pm_base c)"

definition pm_GetNodeByHost :: "PodmanNodeManager \<Rightarrow> string \<Rightarrow> RuntimeNode option" where
  "pm_GetNodeByHost c host = getNodeByHost host (pm_base c)"

definition pm_GetNodeCount :: "PodmanNodeManager \<Rightarrow> int" where
  "pm_GetNodeCount c = getNodeCount (pm_base c)"

definition pm_CountByCluster :: "PodmanNodeManager \<Rightarrow> string \<Rightarrow> int" where
  "pm_CountByCluster c clusterName = countByCluster clusterName (pm_base c)"

text \<open>
  \<^verbatim>\<open>NewNodeManager\<close> of \<^verbatim>\<open>backend.go\<close>, in the default build: the build tag that compiles the
  containerd backend in is not set, so \<^verbatim>\<open>containerd_stub.go\<close> answers for it.
\<close>

definition newContainerdOrError :: "RuntimeConfig \<Rightarrow> PodmanNodeManager go_result" where
  "newContainerdOrError cfg = Inl (Errorf ''containerd backend not compiled in: rebuild with -tags containerd'')"

definition NewNodeManager :: "RuntimeConfig \<Rightarrow> PodmanNodeManager go_result" where
  "NewNodeManager cfg =
     (if rt_Backend cfg = ''podman'' then Inr (NewPodmanNodeManager cfg)
      else if rt_Backend cfg = ''containerd'' then newContainerdOrError cfg
      else Inl (Errorf (''unsupported backend: '' @ rt_Backend cfg)))"

section \<open>Inspecting a container\<close>

definition getContainerIP :: "'w podman_api \<Rightarrow> string \<Rightarrow> 'w \<Rightarrow> 'w \<times> string go_result" where
  "getContainerIP api containerID w =
     (case pa_exec api [''inspect'', ''-f'',
          ''{{range .NetworkSettings.Networks}}{{.IPAddress}}{{end}}'', containerID] w of
        (w1, Inl err) \<Rightarrow> (w1, Inl err)
      | (w1, Inr out) \<Rightarrow>
          (let ip = strings_TrimSpace out
           in (w1, if ip = ''<nil>'' then Inl (Errorf ''container IP is nil'') else Inr ip)))"

definition parse_port_output :: "string \<Rightarrow> 16 word go_result" where
  "parse_port_output out =
     (let line = strings_TrimSpace out
      in case strings_LastIndex line (CHR '':'') of
           None \<Rightarrow> Inl (Errorf ''unexpected port output'')
         | Some idx \<Rightarrow>
             (case strconv_ParseUint (strings_TrimSpace (drop (idx + 1) line)) 16 of
                Inl err \<Rightarrow> Inl (ErrorfW ''failed to parse port from'' err)
              | Inr portVal \<Rightarrow> Inr (of_nat portVal)))"

definition getContainerHostPort ::
  "'w podman_api \<Rightarrow> string \<Rightarrow> int \<Rightarrow> 'w \<Rightarrow> 'w \<times> 16 word go_result" where
  "getContainerHostPort api containerID containerPort w =
     (case pa_exec api [''port'', containerID, strconv_Itoa containerPort] w of
        (w1, Inl err) \<Rightarrow> (w1, Inl err)
      | (w1, Inr out) \<Rightarrow> (w1, parse_port_output out))"

definition getContainerFullID :: "'w podman_api \<Rightarrow> string \<Rightarrow> 'w \<Rightarrow> 'w \<times> string go_result" where
  "getContainerFullID api name w =
     (case pa_exec api [''inspect'', ''-f'', ''{{.Id}}'', name] w of
        (w1, Inl err) \<Rightarrow> (w1, Inl err)
      | (w1, Inr out) \<Rightarrow> (w1, Inr (strings_TrimSpace out)))"

section \<open>Creating containers\<close>

definition containerName :: "string \<Rightarrow> int \<Rightarrow> string" where
  "containerName clusterName i = clusterName @ ''-redis-'' @ strconv_Itoa i"

text \<open>The removal of the containers with the indexes in a list; errors are printed.\<close>

definition cleanupContainers :: "'w podman_api \<Rightarrow> string \<Rightarrow> int \<Rightarrow> int \<Rightarrow> 'w \<Rightarrow> 'w" where
  "cleanupContainers api clusterName fromIdx toIdx w =
     fold (\<lambda>i u. fst (pa_exec api [''rm'', ''-f'', containerName clusterName i] u)) [fromIdx..toIdx] w"

definition run_args :: "RuntimeConfig \<Rightarrow> string \<Rightarrow> int \<Rightarrow> string list" where
  "run_args cfg clusterName i =
     (let port = uint (rt_RedisContainerPort cfg);
          busPort = port + 10000;
          dataHostPath = filepath_Join [rt_RedisHostDataPath cfg, clusterName];
          args = [''run'', ''-d'', ''--name'', containerName clusterName i,
            ''-p'', strconv_Itoa port, ''-p'', strconv_Itoa busPort,
            ''-v'', rt_RedisHostConfigPath cfg @ '':'' @ rt_RedisConfigPath cfg,
            ''-v'', dataHostPath @ '':'' @ rt_RedisConfigDataPath cfg,
            rt_ImageName cfg, ''redis-server'', rt_RedisConfigPath cfg @ ''/redis.conf'',
            ''--port'', strconv_Itoa port, ''--cluster-announce-bus-port'', strconv_Itoa busPort]
      in if DNSEnabled cfg then args @ [''--cluster-announce-ip'', containerName clusterName i] else args)"

text \<open>The wait loop: the address and host port, or the error of the deadline or the context.\<close>

partial_function (option) wait_ready ::
  "'w podman_api \<Rightarrow> string \<Rightarrow> int \<Rightarrow> int \<Rightarrow> 'w \<Rightarrow> ('w \<times> (string \<times> 16 word) go_result) option" where
  "wait_ready api containerID port deadline w =
     (if pa_now api w > deadline
      then Some (w, Inl (Errorf ''timed out waiting for container to be ready''))
      else case pa_ctx api w of
        Some e \<Rightarrow> Some (w, Inl e)
      | None \<Rightarrow>
          let (w1, r) = getContainerIP api containerID w
          in case r of
               Inl _ \<Rightarrow> wait_ready api containerID port deadline (pa_sleep api 2 w1)
             | Inr containerIP \<Rightarrow>
                 if containerIP = [] then wait_ready api containerID port deadline (pa_sleep api 2 w1)
                 else
                   let (w2, q) = getContainerHostPort api containerID port w1
                   in case q of
                        Inl _ \<Rightarrow> wait_ready api containerID port deadline (pa_sleep api 2 w2)
                      | Inr hostPort \<Rightarrow>
                          if hostPort = 0
                          then wait_ready api containerID port deadline (pa_sleep api 2 w2)
                          else Some (w2, Inr (containerIP, hostPort)))"

definition new_node :: "RuntimeConfig \<Rightarrow> string \<Rightarrow> int \<Rightarrow> string \<Rightarrow> string \<Rightarrow> 16 word \<Rightarrow> RuntimeNode" where
  "new_node cfg clusterName i containerID containerIP hostPort =
     \<lparr>rn_HostIP = ''127.0.0.1'', rn_HostPort = hostPort, rn_ConIp = containerIP,
      rn_ConPort = rt_RedisContainerPort cfg,
      rn_Hostname = (if DNSEnabled cfg then BuildHostname cfg clusterName i else []),
      rn_Name = containerName clusterName i, rn_ID = take 12 containerID,
      rn_ClusterName = clusterName, rn_Address = \<lparr>na_ClusterAddr = [], na_ClientAddr = []\<rparr>\<rparr>"

text \<open>One round of the loop of \<^verbatim>\<open>CreatePods\<close>; \<open>start\<close> is the first index of the call.\<close>

definition create_pod ::
  "'w podman_api \<Rightarrow> string \<Rightarrow> int \<Rightarrow> int \<Rightarrow> PodmanNodeManager \<times> 'w \<Rightarrow>
     ((PodmanNodeManager \<times> 'w) \<times> go_err) option" where
  "create_pod api clusterName start i = (\<lambda>(c, w).
     case pa_ctx api w of
       Some e \<Rightarrow> Some ((c, w), Some e)
     | None \<Rightarrow>
         (case pa_mkdir api (filepath_Join [rt_RedisHostDataPath (pm_config c), clusterName]) w of
            (w1, Some err) \<Rightarrow> Some ((c, w1), Some (ErrorfW ''failed to create data dir'' err))
          | (w1, None) \<Rightarrow>
              (case pa_exec api (run_args (pm_config c) clusterName i) w1 of
                 (w2, Inl err) \<Rightarrow> Some ((c, w2), Some (ErrorfW ''failed to run container'' err))
               | (w2, Inr out) \<Rightarrow>
                   let containerID = strings_TrimSpace out in
                   if length containerID < 12 then Some ((c, w2), Some (Panic ''slice bounds out of range''))
                   else case wait_ready api containerID (uint (rt_RedisContainerPort (pm_config c)))
                               (pa_now api w2 + 120) w2 of
                     None \<Rightarrow> None
                   | Some (w3, Inl e) \<Rightarrow> Some ((c, cleanupContainers api clusterName start i w3), Some e)
                   | Some (w3, Inr (containerIP, hostPort)) \<Rightarrow>
                       Some ((AddRuntimeNode (new_node (pm_config c) clusterName i containerID containerIP hostPort) c,
                              w3), None))))"

fun create_pods_loop ::
  "'w podman_api \<Rightarrow> string \<Rightarrow> int \<Rightarrow> int list \<Rightarrow> PodmanNodeManager \<times> 'w \<Rightarrow>
     ((PodmanNodeManager \<times> 'w) \<times> go_err) option" where
  "create_pods_loop api clusterName start [] s = Some (s, None)"
| "create_pods_loop api clusterName start (i # is) s =
     (case create_pod api clusterName start i s of
        None \<Rightarrow> None
      | Some (s', Some e) \<Rightarrow> Some (s', Some e)
      | Some (s', None) \<Rightarrow> create_pods_loop api clusterName start is s')"

definition CreatePods ::
  "'w podman_api \<Rightarrow> int \<Rightarrow> string \<Rightarrow> PodmanNodeManager \<times> 'w \<Rightarrow>
     ((PodmanNodeManager \<times> 'w) \<times> go_err) option" where
  "CreatePods api nodeNum clusterName s =
     (let start = bn_Num (pm_base (fst s)) + 1; end' = bn_Num (pm_base (fst s)) + nodeNum
      in create_pods_loop api clusterName start [start..end'] s)"

section \<open>Listing and deleting\<close>

definition listed_names :: "string \<Rightarrow> string list" where
  "listed_names out =
     filter (\<lambda>n. n \<noteq> []) (map strings_TrimSpace (strings_Split (strings_TrimSpace out) (CHR 0x0A)))"

text \<open>One listed container: skipped when one of the three queries fails.\<close>

definition list_container ::
  "'w podman_api \<Rightarrow> string \<Rightarrow> string \<Rightarrow> PodmanNodeManager \<times> 'w \<Rightarrow> (PodmanNodeManager \<times> 'w) \<times> go_err" where
  "list_container api clusterName name = (\<lambda>(c, w).
     case getContainerIP api name w of
       (w1, Inl _) \<Rightarrow> ((c, w1), None)
     | (w1, Inr containerIP) \<Rightarrow>
         (case getContainerHostPort api name (uint (rt_RedisContainerPort (pm_config c))) w1 of
            (w2, Inl _) \<Rightarrow> ((c, w2), None)
          | (w2, Inr hostPort) \<Rightarrow>
              (case getContainerFullID api name w2 of
                 (w3, Inl _) \<Rightarrow> ((c, w3), None)
               | (w3, Inr fullID) \<Rightarrow>
                   if length fullID < 12 then ((c, w3), Some (Panic ''slice bounds out of range''))
                   else
                     let idxStr = strings_TrimPrefix name (clusterName @ ''-redis-'');
                         nodeIndex = atoi_value idxStr;
                         node = (new_node (pm_config c) clusterName nodeIndex fullID containerIP hostPort)
                                  \<lparr>rn_Name := name\<rparr>
                     in ((c\<lparr>pm_base := addNode node (pm_base c)\<rparr>, w3), None))))"

fun list_loop ::
  "'w podman_api \<Rightarrow> string \<Rightarrow> string list \<Rightarrow> PodmanNodeManager \<times> 'w \<Rightarrow> (PodmanNodeManager \<times> 'w) \<times> go_err" where
  "list_loop api clusterName [] s = (s, None)"
| "list_loop api clusterName (n # ns) s =
     (case list_container api clusterName n s of
        (s', Some e) \<Rightarrow> (s', Some e)
      | (s', None) \<Rightarrow> list_loop api clusterName ns s')"

definition ListPodsByCluster ::
  "'w podman_api \<Rightarrow> string \<Rightarrow> PodmanNodeManager \<times> 'w \<Rightarrow> (PodmanNodeManager \<times> 'w) \<times> go_err" where
  "ListPodsByCluster api clusterName s =
     (let c = (fst s)\<lparr>pm_base := resetMaps (pm_base (fst s))\<rparr>
      in case pa_exec api [''ps'', ''--filter'', ''name='' @ clusterName @ ''-redis'', ''--format'', ''{{.Names}}''] (snd s) of
           (w1, Inl err) \<Rightarrow> ((c, w1), Some (ErrorfW ''failed to list containers'' err))
         | (w1, Inr out) \<Rightarrow> list_loop api clusterName (listed_names out) (c, w1))"

definition DeleteResources :: "'w podman_api \<Rightarrow> string \<Rightarrow> 'w \<Rightarrow> 'w \<times> go_err" where
  "DeleteResources api clusterName w =
     (case pa_exec api [''ps'', ''-a'', ''--filter'', ''name='' @ clusterName @ ''-redis'', ''--format'', ''{{.Names}}''] w of
        (w1, Inl err) \<Rightarrow> (w1, Some (ErrorfW ''failed to list containers'' err))
      | (w1, Inr out) \<Rightarrow> (fold (\<lambda>n u. fst (pa_exec api [''rm'', ''-f'', n] u)) (listed_names out) w1, None))"

section \<open>Termination of the wait loop\<close>

text \<open>
  The clock of the environment: a command does not turn it back, and sleeping for \<open>d\<close> seconds
  advances it by \<open>d\<close> at least.
\<close>

definition clock_runs :: "'w podman_api \<Rightarrow> bool" where
  "clock_runs api =
     ((\<forall>args w. pa_now api w \<le> pa_now api (fst (pa_exec api args w)))
      \<and> (\<forall>d w. pa_now api w + d \<le> pa_now api (pa_sleep api d w)))"

lemma clock_exec: "clock_runs api \<Longrightarrow> pa_exec api args w = (w1, r) \<Longrightarrow> pa_now api w \<le> pa_now api w1"
  unfolding clock_runs_def by (metis fst_conv)

lemma clock_sleep: "clock_runs api \<Longrightarrow> pa_now api w + d \<le> pa_now api (pa_sleep api d w)"
  by (simp add: clock_runs_def)

lemma clock_getContainerIP:
  "clock_runs api \<Longrightarrow> getContainerIP api cid w = (w1, r) \<Longrightarrow> pa_now api w \<le> pa_now api w1"
  by (auto simp: getContainerIP_def Let_def split: prod.splits sum.splits dest: clock_exec)

lemma clock_getContainerHostPort:
  "clock_runs api \<Longrightarrow> getContainerHostPort api cid p w = (w1, r) \<Longrightarrow> pa_now api w \<le> pa_now api w1"
  by (auto simp: getContainerHostPort_def split: prod.splits sum.splits dest: clock_exec)

lemma wait_ready_returns:
  assumes clk: "clock_runs api"
  shows "\<exists>r. wait_ready api cid port deadline w = Some r"
proof (induction "nat (deadline - pa_now api w + 1)" arbitrary: w rule: less_induct)
  case less
  have again: "\<exists>r. wait_ready api cid port deadline (pa_sleep api 2 u) = Some r"
    if "pa_now api w \<le> deadline" "pa_now api w \<le> pa_now api u" for u
  proof (rule less)
    show "nat (deadline - pa_now api (pa_sleep api 2 u) + 1) < nat (deadline - pa_now api w + 1)"
      using that clock_sleep [OF clk, of u 2] by linarith
  qed
  obtain w1 r where g: "getContainerIP api cid w = (w1, r)" by fastforce
  obtain w2 q where h: "getContainerHostPort api cid port w1 = (w2, q)" by fastforce
  have le1: "pa_now api w \<le> pa_now api w1" by (rule clock_getContainerIP [OF clk g])
  have le2: "pa_now api w \<le> pa_now api w2"
    using le1 clock_getContainerHostPort [OF clk h] by linarith
  show ?case
    using again [OF _ le1] again [OF _ le2]
    by (subst wait_ready.simps) (auto simp: g h Let_def not_less split: option.split sum.split)
qed

section \<open>Creating pods\<close>

lemma containerName_inj: "containerName c i = containerName c j \<Longrightarrow> i = j"
  by (auto simp: containerName_def dest: strconv_Itoa_inj)

lemma wait_ready_result:
  assumes "wait_ready api cid port deadline w = Some (w', Inr (ip, hp))"
  shows "ip \<noteq> [] \<and> hp \<noteq> 0"
proof -
  have "\<forall>ip' hp'. snd (w', Inr (ip, hp) :: (string \<times> 16 word) go_result) = Inr (ip', hp') \<longrightarrow> ip' \<noteq> [] \<and> hp' \<noteq> 0"
  proof (rule wait_ready.raw_induct [of "\<lambda>api cid port deadline w res.
      \<forall>ip' hp'. snd res = Inr (ip', hp') \<longrightarrow> ip' \<noteq> [] \<and> hp' \<noteq> 0", OF _ assms])
  qed (auto simp: Let_def split: if_splits option.splits sum.splits prod.splits)
  then show ?thesis by simp
qed

text \<open>The node that round \<open>i\<close> of \<^verbatim>\<open>CreatePods\<close> adds.\<close>

definition pod_of :: "string \<Rightarrow> int \<Rightarrow> RuntimeNode \<Rightarrow> bool" where
  "pod_of clusterName i n =
     (rn_Name n = containerName clusterName i \<and> rn_ClusterName n = clusterName
      \<and> rn_ConIp n \<noteq> [] \<and> rn_HostPort n \<noteq> 0 \<and> length (rn_ID n) = 12
      \<and> na_ClientAddr (rn_Address n) = host_port ''127.0.0.1'' (rn_HostPort n)
      \<and> na_ClusterAddr (rn_Address n) = host_port (rn_ConIp n) (rn_ConPort n))"

lemma AddRuntimeNode_new:
  assumes "ip \<noteq> []" "hp \<noteq> 0" "12 \<le> length cid"
  obtains n where "pod_of cn i n" "AddRuntimeNode (new_node cfg cn i cid ip hp) c = c\<lparr>pm_base := addNode n (pm_base c)\<rparr>"
proof (rule that)
  let ?n = "new_node cfg cn i cid ip hp"
  show "AddRuntimeNode ?n c = c\<lparr>pm_base := addNode (?n\<lparr>rn_Address := \<lparr>na_ClusterAddr =
      host_port (rn_ConIp ?n) (rn_ConPort ?n), na_ClientAddr = host_port (rn_HostIP ?n) (rn_HostPort ?n)\<rparr>\<rparr>) (pm_base c)\<rparr>"
    by (simp add: AddRuntimeNode_def new_node_def)
qed (use assms in \<open>simp add: pod_of_def new_node_def\<close>)

lemma create_pod_cases:
  assumes "create_pod api cn start i (c, w) = Some ((c', w'), e)"
  shows "(e \<noteq> None \<and> c' = c) \<or>
         (e = None \<and> (\<exists>n. pod_of cn i n \<and> c' = c\<lparr>pm_base := addNode n (pm_base c)\<rparr>))"
proof (cases "e = None")
  case True
  then obtain w1 w2 w3 out ip hp where
    out: "12 \<le> length (strings_TrimSpace out)"
    and wait: "wait_ready api (strings_TrimSpace out) (uint (rt_RedisContainerPort (pm_config c)))
        (pa_now api w2 + 120) w2 = Some (w3, Inr (ip, hp))"
    and c': "c' = AddRuntimeNode (new_node (pm_config c) cn i (strings_TrimSpace out) ip hp) c"
    using assms unfolding create_pod_def
    by (auto simp: Let_def not_less split: option.splits prod.splits sum.splits if_splits)
  obtain n where "pod_of cn i n" "c' = c\<lparr>pm_base := addNode n (pm_base c)\<rparr>"
    using AddRuntimeNode_new [of ip hp, OF _ _ out] wait_ready_result [OF wait] c' by metis
  then show ?thesis using True by blast
next
  case False
  then have "c' = c" using assms unfolding create_pod_def
    by (auto simp: Let_def split: option.splits prod.splits sum.splits if_splits)
  then show ?thesis using False by blast
qed

lemma create_pod_returns: "clock_runs api \<Longrightarrow> \<exists>r. create_pod api cn start i s = Some r"
proof -
  assume clk: "clock_runs api"
  have "wait_ready api cid port deadline w = None \<longleftrightarrow> False" for cid port deadline w
    using wait_ready_returns [OF clk, of cid port deadline w] by force
  note no = this [simp]
  show ?thesis
    unfolding create_pod_def by (cases s) (auto simp: Let_def split: option.split prod.split sum.split)
qed

lemma create_pods_loop_returns: "clock_runs api \<Longrightarrow> \<exists>r. create_pods_loop api cn start is s = Some r"
proof (induction "is" arbitrary: s)
  case (Cons i "is")
  obtain s' e where "create_pod api cn start i s = Some (s', e)"
    using create_pod_returns [OF Cons.prems, of cn start i s] by fastforce
  then show ?case using Cons by (cases e) auto
qed simp

lemma create_pods_loop_nodes:
  "create_pods_loop api cn start is (c, w) = Some ((c', w'), e) \<Longrightarrow> base_inv (pm_base c) \<Longrightarrow>
   \<exists>ns. bn_Nodes (pm_base c') = bn_Nodes (pm_base c) @ ns \<and> length ns \<le> length is
     \<and> list_all2 (pod_of cn) (take (length ns) is) ns
     \<and> (e = None \<longleftrightarrow> length ns = length is) \<and> base_inv (pm_base c')"
proof (induction "is" arbitrary: c w)
  case (Cons i "is")
  obtain c1 w1 e1 where p: "create_pod api cn start i (c, w) = Some ((c1, w1), e1)"
    using Cons.prems(1) by (cases "create_pod api cn start i (c, w)") auto
  show ?case
  proof (cases e1)
    case None
    then obtain n where n: "pod_of cn i n" "c1 = c\<lparr>pm_base := addNode n (pm_base c)\<rparr>"
      using create_pod_cases [OF p] by auto
    have inv: "base_inv (pm_base c1)" using Cons.prems(2) n(2) by (simp add: base_inv_add)
    have "create_pods_loop api cn start is (c1, w1) = Some ((c', w'), e)" using Cons.prems(1) p None by simp
    from Cons.IH [OF this inv] obtain ns where
      "bn_Nodes (pm_base c') = bn_Nodes (pm_base c1) @ ns" "length ns \<le> length is"
      "list_all2 (pod_of cn) (take (length ns) is) ns" "e = None \<longleftrightarrow> length ns = length is"
      "base_inv (pm_base c')" by (elim exE conjE)
    then show ?thesis using n by (intro exI [of _ "n # ns"]) simp
  next
    case (Some x)
    then have "c' = c" "e = Some x" using create_pod_cases [OF p] Cons.prems(1) p by simp_all
    then show ?thesis using Cons.prems(2) by (intro exI [of _ "[]"]) simp
  qed
qed simp

lemma take_upto: "int k \<le> n \<Longrightarrow> take k [a + 1..a + n] = [a + 1..a + int k]"
  by (rule nth_equalityI) (auto simp: nth_upto)

lemma pod_names_distinct:
  "list_all2 (pod_of cn) is ns \<Longrightarrow> distinct is \<Longrightarrow> distinct (map rn_Name ns)"
proof -
  assume a: "list_all2 (pod_of cn) is ns" "distinct is"
  have "map rn_Name ns = map (containerName cn) is"
    using a(1) by (induction rule: list_all2_induct) (auto simp: pod_of_def)
  then show ?thesis using a(2) containerName_inj by (auto simp: distinct_map inj_on_def)
qed

text \<open>An environment for the examples: every container is ready at once.\<close>

definition demo_api :: "int podman_api" where
  "demo_api = \<lparr>pa_exec = (\<lambda>args w. (w, Inr (if hd args = ''run'' then ''0123456789abcdef''
       else if hd args = ''inspect'' then ''10.0.0.2'' else ''0.0.0.0:4321''))),
     pa_mkdir = (\<lambda>p w. (w, None)), pa_ctx = (\<lambda>w. None), pa_now = (\<lambda>w. w), pa_sleep = (\<lambda>d w. w + d)\<rparr>"

lemma demo_wait: "wait_ready demo_api cid port 120 0 = Some (0, Inr (''10.0.0.2'', 4321))"
proof -
  have "strings_TrimSpace ''10.0.0.2'' = ''10.0.0.2''" by (simp add: strings_TrimSpace_def is_space_def)
  moreover have "strings_TrimSpace ''0.0.0.0:4321'' = ''0.0.0.0:4321''" "strings_TrimSpace ''4321'' = ''4321''"
    by (simp_all add: strings_TrimSpace_def is_space_def)
  then have "parse_port_output ''0.0.0.0:4321'' = Inr 4321"
    by (simp add: parse_port_output_def strconv_ParseUint_def parse_digits_def is_digit_def digits_val_def
        digit_val_def)
  ultimately show ?thesis
    by (subst wait_ready.simps) (simp add: demo_api_def getContainerIP_def getContainerHostPort_def)
qed

lemma demo_create:
  "\<exists>c' w'. CreatePods demo_api 1 ''c1'' (NewPodmanNodeManager cfg, 0) = Some ((c', w'), None)"
proof -
  have "strings_TrimSpace ''0123456789abcdef'' = ''0123456789abcdef''"
    by (simp add: strings_TrimSpace_def is_space_def)
  moreover have "pa_exec demo_api (run_args cf cn i) w = (w, Inr ''0123456789abcdef'')"
    "pa_ctx demo_api w = None" "pa_mkdir demo_api p w = (w, None)" "pa_now demo_api w = w" for cf cn i w p
    by (simp_all add: demo_api_def run_args_def Let_def)
  ultimately show ?thesis
    using demo_wait by (simp add: CreatePods_def NewPodmanNodeManager_def create_pod_def)
qed

section \<open>Properties\<close>

text \<open>\<^verbatim>\<open>CreatePods\<close> always returns when the clock runs: a container that never becomes ready is
  given up at the deadline.\<close>

theorem CreatePods_returns:
  assumes "clock_runs api"
  shows "\<exists>s' e. CreatePods api nodeNum clusterName s = Some (s', e)"
proof -
  obtain r where "CreatePods api nodeNum clusterName s = Some r"
    using create_pods_loop_returns [OF assms] unfolding CreatePods_def Let_def by metis
  then show ?thesis by (cases r) simp
qed

theorem CreatePods_returns_witness:
  "\<forall>cfg. \<exists>s' e. CreatePods demo_api 3 ''c1'' (NewPodmanNodeManager cfg, 0) = Some (s', e)"
  using CreatePods_returns [of demo_api] by (simp add: clock_runs_def demo_api_def)

text \<open>C28: \<^verbatim>\<open>CreatePods\<close> tracks one ready node per container, named by consecutive indexes that start
  after the nodes already tracked; it reports success exactly when all the requested nodes
  were added, on failure the nodes added before it stay tracked, and the indexes of the node
  manager stay consistent.\<close>

theorem CreatePods_nodes:
  assumes "CreatePods api nodeNum clusterName (c, w) = Some ((c', w'), e)"
    and "base_inv (pm_base c)" and "0 \<le> nodeNum"
  shows "base_inv (pm_base c') \<and> (\<exists>ns. pm_GetNodes c' = pm_GetNodes c @ ns
     \<and> list_all2 (pod_of clusterName)
          [pm_GetNodeCount c + 1..pm_GetNodeCount c + int (length ns)] ns
     \<and> distinct (map rn_Name ns)
     \<and> int (length ns) \<le> nodeNum \<and> (e = None \<longleftrightarrow> int (length ns) = nodeNum))"
proof -
  let ?k = "bn_Num (pm_base c)"
  have "create_pods_loop api clusterName (?k + 1) [?k + 1..?k + nodeNum] (c, w) = Some ((c', w'), e)"
    using assms(1) unfolding CreatePods_def Let_def fst_conv .
  from create_pods_loop_nodes [OF this assms(2)]
  obtain ns where ns: "bn_Nodes (pm_base c') = bn_Nodes (pm_base c) @ ns"
    "length ns \<le> length [?k + 1..?k + nodeNum]"
    "list_all2 (pod_of clusterName) (take (length ns) [?k + 1..?k + nodeNum]) ns"
    "e = None \<longleftrightarrow> length ns = length [?k + 1..?k + nodeNum]" "base_inv (pm_base c')"
    by (elim exE conjE)
  have len: "length [?k + 1..?k + nodeNum] = nat nodeNum" by simp
  have le: "int (length ns) \<le> nodeNum" using ns(2) assms(3) unfolding len by linarith
  have l2: "list_all2 (pod_of clusterName) [?k + 1..?k + int (length ns)] ns"
    using ns(3) unfolding take_upto [OF le] .
  have e: "e = None \<longleftrightarrow> int (length ns) = nodeNum" using ns(4) assms(3) unfolding len by linarith
  show ?thesis
    unfolding pm_GetNodes_def pm_GetNodeCount_def getNodes_def getNodeCount_def
    by (intro conjI exI [of _ ns] ns(1,5) l2 le e pod_names_distinct [OF l2 distinct_upto])
qed

theorem CreatePods_nodes_witness:
  "\<forall>cfg. \<exists>c' w'. CreatePods demo_api 1 ''c1'' (NewPodmanNodeManager cfg, 0) = Some ((c', w'), None)
     \<and> base_inv (pm_base c') \<and> map rn_Name (pm_GetNodes c') = [''c1-redis-1'']"
proof
  fix cfg
  obtain c' w' where r: "CreatePods demo_api 1 ''c1'' (NewPodmanNodeManager cfg, 0) = Some ((c', w'), None)"
    using demo_create by blast
  have "base_inv (pm_base (NewPodmanNodeManager cfg))" by (simp add: base_inv_def NewPodmanNodeManager_def)
  from CreatePods_nodes [OF r this] obtain ns where ns: "base_inv (pm_base c')"
    "pm_GetNodes c' = pm_GetNodes (NewPodmanNodeManager cfg) @ ns" "length ns = 1"
    "list_all2 (pod_of ''c1'') [pm_GetNodeCount (NewPodmanNodeManager cfg) + 1..
       pm_GetNodeCount (NewPodmanNodeManager cfg) + int (length ns)] ns" by auto
  have "containerName ''c1'' 1 = ''c1-redis-1''"
    by (simp add: containerName_def strconv_Itoa_def itoa_nat.simps char_of_def bit_0)
  then have "map rn_Name (pm_GetNodes c') = [''c1-redis-1'']"
    using ns(2,3,4) by (auto simp: pm_GetNodeCount_def pm_GetNodes_def getNodes_def getNodeCount_def
        NewPodmanNodeManager_def pod_of_def length_Suc_conv)
  then show "\<exists>c' w'. CreatePods demo_api 1 ''c1'' (NewPodmanNodeManager cfg, 0) = Some ((c', w'), None)
     \<and> base_inv (pm_base c') \<and> map rn_Name (pm_GetNodes c') = [''c1-redis-1'']" 
    using r ns(1) by (intro exI conjI)
qed

end
