(* ===== verification/Cluster_Topology.thy ===== *)
theory Cluster_Topology
  imports Podman
begin

text \<open>
  The first part of \<^verbatim>\<open>cluster/model/manager.go\<close>: the state of the cluster manager and the
  operations that read the topology from a Redis node.

  The code shares \<^verbatim>\<open>*data.ClusterNode\<close> pointers between its index by id, its list and its empty
  masters, and changes slot counts through them, so the nodes live in a store: a pointer is an
  address and nil is \<^const>\<open>None\<close>. Redis and the clock are functions on an external state; a client is
  its address, as \<^verbatim>\<open>CreateRedisClient\<close> opens no connection. \<^verbatim>\<open>sort.Sort\<close> leaves the order of
  nodes with equal addresses open, the model keeps it.
\<close>

section \<open>The environment\<close>

text \<open>
  One function per command of the client library the manager uses, by the address of the
  client. \<open>ra_range\<close> is the order in which the runtime visits the keys of a map.
\<close>

record 'w redis_api =
  ra_podman :: "'w podman_api"
  ra_ClusterNodes :: "string \<Rightarrow> 'w \<Rightarrow> 'w \<times> string go_result"
  ra_ClusterMeet :: "string \<Rightarrow> string \<Rightarrow> string \<Rightarrow> 'w \<Rightarrow> 'w \<times> go_err"
  ra_ClusterReplicate :: "string \<Rightarrow> string \<Rightarrow> 'w \<Rightarrow> 'w \<times> go_err"
  ra_ClusterAddSlots :: "string \<Rightarrow> int list \<Rightarrow> 'w \<Rightarrow> 'w \<times> go_err"
  ra_ClusterForget :: "string \<Rightarrow> string \<Rightarrow> 'w \<Rightarrow> 'w \<times> go_err"
  ra_ClusterGetKeysInSlot :: "string \<Rightarrow> int \<Rightarrow> int \<Rightarrow> 'w \<Rightarrow> 'w \<times> string list"
  ra_MemoryUsage :: "string \<Rightarrow> string \<Rightarrow> 'w \<Rightarrow> 'w \<times> int go_result"
  ra_Exists :: "string \<Rightarrow> string \<Rightarrow> 'w \<Rightarrow> 'w \<times> int go_result"
  ra_Del :: "string \<Rightarrow> string \<Rightarrow> 'w \<Rightarrow> 'w \<times> go_err"
  ra_Do :: "string \<Rightarrow> string list \<Rightarrow> 'w \<Rightarrow> 'w \<times> string go_result"
  ra_InvalidateSlots :: "int \<Rightarrow> int \<Rightarrow> 'w \<Rightarrow> 'w"
  ra_sleep :: "int \<Rightarrow> 'w \<Rightarrow> 'w"
  ra_range :: "string list \<Rightarrow> 'w \<Rightarrow> string list"

definition TotalSlots :: int where
  "TotalSlots = 16384"

section \<open>The state\<close>

record clusterTopology =
  tp_nodes :: "string \<Rightarrow> nat option"
  tp_ipToID :: "string \<Rightarrow> string option"
  tp_list :: "nat list"
  tp_masterIDs :: "string list"
  tp_masterSet :: "string \<Rightarrow> bool"
  tp_empty :: "nat option list"

record clusterRoles =
  ro_masterToSlave :: "(string, string list) gomap"
  ro_set :: "string \<Rightarrow> bool"

record meetState =
  ms_met :: "string \<Rightarrow> bool"

record 'w ClusterManager =
  cm_topo :: clusterTopology
  cm_roles :: clusterRoles
  cm_meet :: meetState
  cm_nodeManager :: PodmanNodeManager
  cm_nodesPerShard :: int
  cm_cacheInvalidator :: bool
  cm_heap :: "nat \<Rightarrow> ClusterNode"
  cm_next :: nat
  cm_world :: 'w

definition newTopology :: clusterTopology where
  "newTopology = \<lparr>tp_nodes = Map.empty, tp_ipToID = Map.empty, tp_list = [], tp_masterIDs = [],
     tp_masterSet = (\<lambda>_. False), tp_empty = []\<rparr>"

definition newRoles :: clusterRoles where
  "newRoles = \<lparr>ro_masterToSlave = [], ro_set = (\<lambda>_. False)\<rparr>"

definition newMeetState :: meetState where
  "newMeetState = \<lparr>ms_met = (\<lambda>_. False)\<rparr>"

text \<open>The address store of a new manager is empty; \<open>zero_node\<close> is Go's zero value of a node.\<close>

definition zero_node :: ClusterNode where
  "zero_node = \<lparr>cn_ID = [], cn_IP = [], cn_Port = 0, cn_NodeType = [], cn_MasterID = [],
     cn_LinkState = [], cn_Slots = [], cn_SlotsNum = 0, cn_ClusterName = []\<rparr>"

definition NewClusterManager :: "int \<Rightarrow> PodmanNodeManager \<Rightarrow> 'w \<Rightarrow> 'w ClusterManager" where
  "NewClusterManager nodesPerShard nodeManager w =
     \<lparr>cm_topo = newTopology, cm_roles = newRoles, cm_meet = newMeetState, cm_nodeManager = nodeManager,
      cm_nodesPerShard = nodesPerShard, cm_cacheInvalidator = False, cm_heap = (\<lambda>_. zero_node),
      cm_next = 0, cm_world = w\<rparr>"

definition SetCacheInvalidator :: "'w ClusterManager \<Rightarrow> 'w ClusterManager" where
  "SetCacheInvalidator c = c\<lparr>cm_cacheInvalidator := True\<rparr>"

definition NodesPerShard :: "'w ClusterManager \<Rightarrow> int" where
  "NodesPerShard c = cm_nodesPerShard c"

definition MasterCount :: "'w ClusterManager \<Rightarrow> int" where
  "MasterCount c = int (length (tp_masterIDs (cm_topo c)))"

text \<open>Indexing a Go map of strings gives the empty string for a key that is absent.\<close>

definition NodeIDByIP :: "'w ClusterManager \<Rightarrow> string \<Rightarrow> string" where
  "NodeIDByIP c ip = (case tp_ipToID (cm_topo c) ip of None \<Rightarrow> [] | Some i \<Rightarrow> i)"

definition ClusterNodeByID :: "'w ClusterManager \<Rightarrow> string \<Rightarrow> ClusterNode option" where
  "ClusterNodeByID c i = map_option (cm_heap c) (tp_nodes (cm_topo c) i)"

definition ResetEmptyMasters :: "'w ClusterManager \<Rightarrow> 'w ClusterManager" where
  "ResetEmptyMasters c = c\<lparr>cm_topo := (cm_topo c)\<lparr>tp_empty := []\<rparr>\<rparr>"

definition AddNewMaster :: "string \<Rightarrow> 'w ClusterManager \<Rightarrow> 'w ClusterManager" where
  "AddNewMaster masterID c =
     (let t = (cm_topo c)\<lparr>tp_masterIDs := tp_masterIDs (cm_topo c) @ [masterID]\<rparr>
      in c\<lparr>cm_topo := (case tp_nodes t masterID of
             None \<Rightarrow> t | Some a \<Rightarrow> t\<lparr>tp_empty := tp_empty t @ [Some a]\<rparr>)\<rparr>)"

abbreviation cm_GetNodes :: "'w ClusterManager \<Rightarrow> RuntimeNode list" where
  "cm_GetNodes c \<equiv> pm_GetNodes (cm_nodeManager c)"

abbreviation cm_GetNodeCount :: "'w ClusterManager \<Rightarrow> int" where
  "cm_GetNodeCount c \<equiv> pm_GetNodeCount (cm_nodeManager c)"

abbreviation cm_GetNodeByHost :: "'w ClusterManager \<Rightarrow> string \<Rightarrow> RuntimeNode option" where
  "cm_GetNodeByHost c \<equiv> pm_GetNodeByHost (cm_nodeManager c)"

section \<open>Reading the nodes\<close>

text \<open>The \<^verbatim>\<open>CLUSTER FORGET\<close> commands for the failed nodes, sent to the first node of the cluster.\<close>

definition forgetFailedClusterNodes ::
  "'w redis_api \<Rightarrow> string \<Rightarrow> string list \<Rightarrow> 'w ClusterManager \<Rightarrow> 'w ClusterManager" where
  "forgetFailedClusterNodes api clusterName failedIDs c =
     (case find (\<lambda>n. rn_ClusterName n = clusterName) (cm_GetNodes c) of
        None \<Rightarrow> c
      | Some node \<Rightarrow>
          (case CreateRedisClient (ClientConnAddr node) of
             Inl _ \<Rightarrow> c
           | Inr client \<Rightarrow>
               c\<lparr>cm_world := fold (\<lambda>i w. fst (ra_ClusterForget api client i w)) failedIDs (cm_world c)\<rparr>))"

definition ParseRedisClusterNodes ::
  "'w redis_api \<Rightarrow> string \<Rightarrow> string \<Rightarrow> 'w ClusterManager \<Rightarrow> 'w ClusterManager \<times> ClusterNode list go_result" where
  "ParseRedisClusterNodes api nodeData clusterName c =
     (let lines = strings_Split nodeData (CHR 0x0A);
          clusterFilter = (\<lambda>ip. case cm_GetNodeByHost c ip of
                             None \<Rightarrow> False | Some node \<Rightarrow> rn_ClusterName node = clusterName);
          (parsed, failedIDs) = ParseClusterNodeLines lines (Some clusterFilter);
          named = map (\<lambda>n. n\<lparr>cn_ClusterName := clusterName\<rparr>) parsed;
          c1 = (if length failedIDs > 0 then forgetFailedClusterNodes api clusterName failedIDs c else c)
      in (c1, Inr named))"

definition GetClusterNodes ::
  "'w redis_api \<Rightarrow> RuntimeNode \<Rightarrow> string \<Rightarrow> 'w ClusterManager \<Rightarrow> 'w ClusterManager \<times> ClusterNode list go_result" where
  "GetClusterNodes api LoginNode clusterName c =
     (if length (cm_GetNodes c) = 0 then (c, Inl (ErrorfW ''no pods found'' ErrClusterNotFound))
      else case CreateRedisClient (ClientConnAddr LoginNode) of
        Inl err \<Rightarrow> (c, Inl (ErrorfW ''failed to create Redis client'' err))
      | Inr client \<Rightarrow>
          (case ra_ClusterNodes api client (cm_world c) of
             (w1, Inl err) \<Rightarrow> (c\<lparr>cm_world := w1\<rparr>, Inl (ErrorfW ''failed to get cluster nodes'' err))
           | (w1, Inr nodesInfo) \<Rightarrow> ParseRedisClusterNodes api nodesInfo clusterName (c\<lparr>cm_world := w1\<rparr>)))"

section \<open>Sorting\<close>

definition sortClusterNodesByIP :: "(nat \<Rightarrow> ClusterNode) \<Rightarrow> nat list \<Rightarrow> nat list" where
  "sortClusterNodesByIP h nodes = sort_key (\<lambda>a. cn_IP (h a)) nodes"

text \<open>Sorting two pointers or more, one of them nil, dereferences nil.\<close>

definition SortInfo :: "'w ClusterManager \<Rightarrow> 'w ClusterManager \<times> go_err" where
  "SortInfo c =
     (let t = (cm_topo c)\<lparr>tp_list := sortClusterNodesByIP (cm_heap c) (tp_list (cm_topo c))\<rparr>
      in if length (tp_empty t) > 1 \<and> None \<in> set (tp_empty t)
         then (c\<lparr>cm_topo := t\<rparr>, Some (Panic ''nil pointer dereference''))
         else (c\<lparr>cm_topo := t\<lparr>tp_empty := (if length (tp_empty t) \<le> 1 then tp_empty t
                 else map Some (sortClusterNodesByIP (cm_heap c) (map the (tp_empty t))))\<rparr>\<rparr>, None))"

section \<open>Refreshing the topology\<close>

text \<open>One round of the loop of \<^verbatim>\<open>UpdateAfterMeet\<close>: a node that is not known yet is stored.\<close>

definition meet_node :: "string \<Rightarrow> ClusterNode \<Rightarrow> 'w ClusterManager \<Rightarrow> 'w ClusterManager" where
  "meet_node clusterName node c =
     (if cn_ClusterName node \<noteq> clusterName then c
      else if tp_nodes (cm_topo c) (cn_ID node) \<noteq> None then c
      else
        let a = cm_next c; t = cm_topo c
        in c\<lparr>cm_heap := (cm_heap c)(a := node), cm_next := a + 1,
             cm_meet := (cm_meet c)\<lparr>ms_met := (ms_met (cm_meet c))(cn_IP node := True)\<rparr>,
             cm_topo := t\<lparr>tp_nodes := (tp_nodes t)(cn_ID node \<mapsto> a),
                          tp_ipToID := (tp_ipToID t)(cn_IP node \<mapsto> cn_ID node),
                          tp_list := tp_list t @ [a]\<rparr>\<rparr>)"

definition UpdateAfterMeet ::
  "'w redis_api \<Rightarrow> RuntimeNode \<Rightarrow> string \<Rightarrow> 'w ClusterManager \<Rightarrow> 'w ClusterManager \<times> go_err" where
  "UpdateAfterMeet api LoginNode clusterName c =
     (if cm_GetNodeCount c = 0 then (c, None)
      else case GetClusterNodes api LoginNode clusterName c of
        (c1, Inl err) \<Rightarrow> (c1, Some err)
      | (c1, Inr nodes) \<Rightarrow> SortInfo (fold (meet_node clusterName) nodes c1))"

fun classifyNodesByType :: "ClusterNode list \<Rightarrow> ClusterNode list \<times> ClusterNode list" where
  "classifyNodesByType [] = ([], [])"
| "classifyNodesByType (node # nodes) =
     (let (masters, slaves) = classifyNodesByType nodes
      in if cn_NodeType node = ''master'' then (node # masters, slaves)
         else if cn_NodeType node = ''slave'' then (masters, node # slaves)
         else (masters, slaves))"

definition add_master :: "ClusterNode \<Rightarrow> 'w ClusterManager \<Rightarrow> 'w ClusterManager" where
  "add_master master c =
     c\<lparr>cm_topo := (cm_topo c)\<lparr>tp_masterIDs := tp_masterIDs (cm_topo c) @ [cn_ID master],
                               tp_masterSet := (tp_masterSet (cm_topo c))(cn_ID master := True)\<rparr>,
       cm_roles := (cm_roles c)\<lparr>ro_masterToSlave := AList.update (cn_ID master) [] (ro_masterToSlave (cm_roles c))\<rparr>\<rparr>"

text \<open>Appending to the entry of a map: an absent entry counts as an empty slice.\<close>

definition append_entry :: "string \<Rightarrow> string \<Rightarrow> (string, string list) gomap \<Rightarrow> (string, string list) gomap" where
  "append_entry k v m = AList.update k ((case map_of m k of None \<Rightarrow> [] | Some vs \<Rightarrow> vs) @ [v]) m"

fun add_slaves :: "ClusterNode list \<Rightarrow> 'w ClusterManager \<Rightarrow> 'w ClusterManager \<times> go_err" where
  "add_slaves [] c = (c, None)"
| "add_slaves (slave # slaves) c =
     (if \<not> tp_masterSet (cm_topo c) (cn_MasterID slave)
      then (c, Some (Errorf ''master node not found for slave''))
      else add_slaves slaves (c\<lparr>cm_roles := (cm_roles c)\<lparr>ro_masterToSlave :=
             append_entry (cn_MasterID slave) (cn_ID slave) (ro_masterToSlave (cm_roles c))\<rparr>\<rparr>))"

definition buildMasterSlaveTopology ::
  "ClusterNode list \<Rightarrow> ClusterNode list \<Rightarrow> 'w ClusterManager \<Rightarrow> 'w ClusterManager \<times> go_err" where
  "buildMasterSlaveTopology masters slaves c =
     (case add_slaves slaves (fold add_master masters c) of
        (c1, Some e) \<Rightarrow> (c1, Some e)
      | (c1, None) \<Rightarrow>
          (c1\<lparr>cm_roles := (cm_roles c1)\<lparr>ro_masterToSlave := map (\<lambda>(k, v). (k, sort v)) (ro_masterToSlave (cm_roles c1))\<rparr>,
              cm_topo := (cm_topo c1)\<lparr>tp_masterIDs := sort (tp_masterIDs (cm_topo c1))\<rparr>\<rparr>, None))"

definition UpdateAfterSetNodeRole ::
  "'w redis_api \<Rightarrow> RuntimeNode \<Rightarrow> string \<Rightarrow> 'w ClusterManager \<Rightarrow> 'w ClusterManager \<times> go_err" where
  "UpdateAfterSetNodeRole api LoginNode clusterName c0 =
     (let c = c0\<lparr>cm_roles := (cm_roles c0)\<lparr>ro_masterToSlave := []\<rparr>,
                 cm_topo := (cm_topo c0)\<lparr>tp_masterIDs := [], tp_masterSet := (\<lambda>_. False)\<rparr>\<rparr>
      in if cm_GetNodeCount c = 0 then (c, None)
         else case GetClusterNodes api LoginNode clusterName c of
           (c1, Inl err) \<Rightarrow> (c1, Some err)
         | (c1, Inr nodes) \<Rightarrow>
             if length nodes = 0 then (c1, None)
             else let (masters, slaves) = classifyNodesByType nodes
                  in buildMasterSlaveTopology masters slaves c1)"

definition calculateSlots :: "SlotRange list \<Rightarrow> int" where
  "calculateSlots slots = foldl (\<lambda>total s. total + (sr_End s - sr_Start s + 1)) 0 slots"

text \<open>One round of the loop of \<^verbatim>\<open>UpdateSlots\<close>; an empty master is stored as a new copy.\<close>

definition update_slot :: "ClusterNode \<Rightarrow> 'w ClusterManager \<Rightarrow> 'w ClusterManager" where
  "update_slot node c =
     (if cn_NodeType node \<noteq> Master then c
      else case tp_nodes (cm_topo c) (cn_ID node) of
        None \<Rightarrow> c
      | Some a \<Rightarrow>
          let c1 = c\<lparr>cm_heap := (cm_heap c)(a := (cm_heap c a)\<lparr>cn_SlotsNum := calculateSlots (cn_Slots node)\<rparr>)\<rparr>
          in if length (cn_Slots node) = 0
             then c1\<lparr>cm_heap := (cm_heap c1)(cm_next c1 := node), cm_next := cm_next c1 + 1,
                     cm_topo := (cm_topo c1)\<lparr>tp_empty := tp_empty (cm_topo c1) @ [Some (cm_next c1)]\<rparr>\<rparr>
             else c1)"

definition UpdateSlots ::
  "'w redis_api \<Rightarrow> RuntimeNode \<Rightarrow> string \<Rightarrow> 'w ClusterManager \<Rightarrow> 'w ClusterManager \<times> go_err" where
  "UpdateSlots api LoginNode clusterName c0 =
     (if cm_GetNodeCount c0 = 0 then (c0, None)
      else
        let c = c0\<lparr>cm_topo := (cm_topo c0)\<lparr>tp_empty := []\<rparr>\<rparr>
        in case GetClusterNodes api LoginNode clusterName c of
             (c1, Inl err) \<Rightarrow> (c1, Some err)
           | (c1, Inr nodes) \<Rightarrow>
               if length nodes = 0 then (c1, None) else (fold update_slot nodes c1, None))"

section \<open>Printing\<close>

text \<open>The lines that \<^verbatim>\<open>printClusterNodeLines\<close> prints.\<close>

definition printClusterNodeLines :: "string \<Rightarrow> string list" where
  "printClusterNodeLines nodesInfo =
     filter (\<lambda>line. line \<noteq> [] \<and> 8 \<le> length (strings_Split line (CHR '' ''))
               \<and> \<not> strings_Contains (strings_Split line (CHR '' '') ! 2) ''fail'')
       (strings_Split nodesInfo (CHR 0x0A))"

definition PrintClusterNodesInfo ::
  "'w redis_api \<Rightarrow> 'w ClusterManager \<Rightarrow> 'w ClusterManager \<times> string list go_result" where
  "PrintClusterNodesInfo api c =
     (if length (cm_GetNodes c) = 0 then (c, Inl (ErrorfW ''no nodes available'' ErrNoNodesAvailable))
      else
        let w = ra_sleep api (int (length (tp_list (cm_topo c)) div 3)) (cm_world c)
        in case CreateRedisClient (ClientConnAddr (cm_GetNodes c ! 0)) of
             Inl err \<Rightarrow> (c\<lparr>cm_world := w\<rparr>, Inl (ErrorfW ''failed to create Redis client'' err))
           | Inr client \<Rightarrow>
               (case ra_ClusterNodes api client w of
                  (w1, Inl err) \<Rightarrow> (c\<lparr>cm_world := w1\<rparr>, Inl (ErrorfW ''failed to get cluster nodes info'' err))
                | (w1, Inr nodesInfo) \<Rightarrow> (c\<lparr>cm_world := w1\<rparr>, Inr (printClusterNodeLines nodesInfo))))"

section \<open>Facts about reading\<close>

lemma forget_frame: "forgetFailedClusterNodes api cn ids c = c\<lparr>cm_world := cm_world (forgetFailedClusterNodes api cn ids c)\<rparr>"
  by (simp add: forgetFailedClusterNodes_def split: option.split sum.split)

lemma GetClusterNodes_frame:
  assumes "GetClusterNodes api l cn c = (c', r)"
  shows "c' = c\<lparr>cm_world := cm_world c'\<rparr>"
proof -
  have parse: "ParseRedisClusterNodes api d cn x = (c', r) \<Longrightarrow> c' = x\<lparr>cm_world := cm_world c'\<rparr>" for d x
    using forget_frame [of api cn _ x]
    by (auto simp: ParseRedisClusterNodes_def Let_def split: prod.splits if_splits)
  show ?thesis
    using assms parse unfolding GetClusterNodes_def
    by (fastforce split: if_splits sum.splits prod.splits)
qed

lemma GetClusterNodes_same:
  assumes "GetClusterNodes api l cn c = (c', r)"
  shows "cm_topo c' = cm_topo c" "cm_roles c' = cm_roles c" "cm_heap c' = cm_heap c" "cm_next c' = cm_next c"
    "cm_meet c' = cm_meet c" "cm_nodeManager c' = cm_nodeManager c" "cm_nodesPerShard c' = cm_nodesPerShard c"
    "cm_cacheInvalidator c' = cm_cacheInvalidator c"
  using GetClusterNodes_frame [OF assms] by (cases c'; cases c; simp)+

lemma GetClusterNodes_named:
  "GetClusterNodes api l cn c = (c', Inr nodes) \<Longrightarrow> n \<in> set nodes \<Longrightarrow> cn_ClusterName n = cn"
  by (auto simp: GetClusterNodes_def ParseRedisClusterNodes_def Let_def
      split: if_splits sum.splits prod.splits)

lemma GetClusterNodes_no_pods:
  "cm_GetNodes c = [] \<Longrightarrow> \<exists>e. snd (GetClusterNodes api l cn c) = Inl e \<and> errors_Is e ErrClusterNotFound"
  by (simp add: GetClusterNodes_def)

section \<open>The topology invariant\<close>

text \<open>
  The list holds one address per known id, the index by id is exact, every entry of the index
  by address leads to a known node with that address, and every known node was met.
\<close>

definition topo_inv :: "'w ClusterManager \<Rightarrow> bool" where
  "topo_inv c =
     (let t = cm_topo c; h = cm_heap c in
        distinct (tp_list t) \<and> (\<forall>a \<in> set (tp_list t). a < cm_next c)
      \<and> (\<forall>i a. tp_nodes t i = Some a \<longleftrightarrow> a \<in> set (tp_list t) \<and> cn_ID (h a) = i)
      \<and> (\<forall>ip i. tp_ipToID t ip = Some i \<longrightarrow> (\<exists>a \<in> set (tp_list t). cn_ID (h a) = i \<and> cn_IP (h a) = ip))
      \<and> (\<forall>a \<in> set (tp_list t). tp_ipToID t (cn_IP (h a)) \<noteq> None \<and> ms_met (cm_meet c) (cn_IP (h a)))
      \<and> (\<forall>a. Some a \<in> set (tp_empty t) \<longrightarrow> a < cm_next c))"

lemma topo_inv_world [simp]: "topo_inv (c\<lparr>cm_world := w\<rparr>) = topo_inv c"
  by (simp add: topo_inv_def)

lemma topo_inv_empty [simp, wf_intros]: "topo_inv c \<Longrightarrow> topo_inv (c\<lparr>cm_topo := (cm_topo c)\<lparr>tp_empty := []\<rparr>\<rparr>)"
  by (simp add: topo_inv_def Let_def)

lemma topo_inv_new [simp, wf_intros]: "topo_inv (NewClusterManager n p w)"
  by (simp add: topo_inv_def NewClusterManager_def newTopology_def Let_def)

lemma topo_inv_GetClusterNodes:
  "GetClusterNodes api l cn c = (c', r) \<Longrightarrow> topo_inv c' = topo_inv c"
  using GetClusterNodes_frame topo_inv_world by metis

lemma topo_invD:
  assumes "topo_inv c"
  shows "distinct (tp_list (cm_topo c))"
    "a \<in> set (tp_list (cm_topo c)) \<Longrightarrow> a < cm_next c"
    "tp_nodes (cm_topo c) i = Some a \<longleftrightarrow> a \<in> set (tp_list (cm_topo c)) \<and> cn_ID (cm_heap c a) = i"
    "tp_ipToID (cm_topo c) ip = Some i \<Longrightarrow> \<exists>a \<in> set (tp_list (cm_topo c)). cn_ID (cm_heap c a) = i \<and> cn_IP (cm_heap c a) = ip"
    "a \<in> set (tp_list (cm_topo c)) \<Longrightarrow> tp_ipToID (cm_topo c) (cn_IP (cm_heap c a)) \<noteq> None \<and> ms_met (cm_meet c) (cn_IP (cm_heap c a))"
    "Some a \<in> set (tp_empty (cm_topo c)) \<Longrightarrow> a < cm_next c"
  using assms unfolding topo_inv_def Let_def by simp_all

lemma topo_inv_meet_node [wf_intros]:
  assumes inv: "topo_inv c"
  shows "topo_inv (meet_node cn node c)"
proof (cases "cn_ClusterName node \<noteq> cn \<or> tp_nodes (cm_topo c) (cn_ID node) \<noteq> None")
  case True
  then show ?thesis using assms by (auto simp: meet_node_def)
next
  case False
  let ?c = "meet_node cn node c" and ?a = "cm_next c"
  have eq: "tp_nodes (cm_topo ?c) = (tp_nodes (cm_topo c))(cn_ID node \<mapsto> ?a)"
    "tp_ipToID (cm_topo ?c) = (tp_ipToID (cm_topo c))(cn_IP node \<mapsto> cn_ID node)"
    "tp_list (cm_topo ?c) = tp_list (cm_topo c) @ [?a]" "tp_empty (cm_topo ?c) = tp_empty (cm_topo c)"
    "cm_heap ?c = (cm_heap c)(?a := node)" "cm_next ?c = ?a + 1"
    "ms_met (cm_meet ?c) = (ms_met (cm_meet c))(cn_IP node := True)"
    using False by (simp_all add: meet_node_def Let_def)
  have fresh: "?a \<notin> set (tp_list (cm_topo c))" using topo_invD(2) [OF inv] by blast
  have new: "a \<in> set (tp_list (cm_topo c)) \<Longrightarrow> cn_ID (cm_heap c a) \<noteq> cn_ID node" for a
    using topo_invD(3) [OF inv, of "cn_ID node" a] False by auto
  have h: "a \<in> set (tp_list (cm_topo c)) \<Longrightarrow> cm_heap ?c a = cm_heap c a" for a
    using fresh by (auto simp: eq)
  show ?thesis
    unfolding topo_inv_def Let_def
  proof (intro conjI allI ballI impI)
    show "distinct (tp_list (cm_topo ?c))" using topo_invD(1) [OF inv] fresh by (simp add: eq)
  next
    fix a assume "a \<in> set (tp_list (cm_topo ?c))"
    then show "a < cm_next ?c" using topo_invD(2) [OF inv, of a] by (auto simp: eq)
  next
    fix i a
    show "tp_nodes (cm_topo ?c) i = Some a \<longleftrightarrow> a \<in> set (tp_list (cm_topo ?c)) \<and> cn_ID (cm_heap ?c a) = i"
      using topo_invD(3) [OF inv, of i a] new [of a] fresh by (auto simp: eq)
  next
    fix ip i assume "tp_ipToID (cm_topo ?c) ip = Some i"
    then show "\<exists>a \<in> set (tp_list (cm_topo ?c)). cn_ID (cm_heap ?c a) = i \<and> cn_IP (cm_heap ?c a) = ip"
      using topo_invD(4) [OF inv, of ip i] h by (auto simp: eq split: if_splits)
  next
    fix a assume "a \<in> set (tp_list (cm_topo ?c))"
    then show "tp_ipToID (cm_topo ?c) (cn_IP (cm_heap ?c a)) \<noteq> None" "ms_met (cm_meet ?c) (cn_IP (cm_heap ?c a))"
      using topo_invD(5) [OF inv, of a] by (auto simp: eq)
  next
    fix a assume "Some a \<in> set (tp_empty (cm_topo ?c))"
    then show "a < cm_next ?c" using topo_invD(6) [OF inv, of a] by (simp add: eq)
  qed
qed

lemma topo_inv_fold_meet: "topo_inv c \<Longrightarrow> topo_inv (fold (meet_node cn) nodes c)"
  by (induction nodes arbitrary: c) (simp_all add: topo_inv_meet_node)

lemma meet_node_dom:
  "cn_ClusterName n = cn \<Longrightarrow>
   dom (tp_nodes (cm_topo (meet_node cn n c))) = insert (cn_ID n) (dom (tp_nodes (cm_topo c)))"
  by (auto simp: meet_node_def Let_def split: if_splits)

lemma fold_meet_dom:
  "\<forall>n \<in> set nodes. cn_ClusterName n = cn \<Longrightarrow>
   dom (tp_nodes (cm_topo (fold (meet_node cn) nodes c))) = cn_ID ` set nodes \<union> dom (tp_nodes (cm_topo c))"
  by (induction nodes arbitrary: c) (simp_all add: meet_node_dom)

lemma set_sort_nodes [simp]: "set (sortClusterNodesByIP h xs) = set xs"
  "distinct (sortClusterNodesByIP h xs) = distinct xs"
  by (simp_all add: sortClusterNodesByIP_def)

lemma SortInfo_empty: "set (tp_empty (cm_topo (fst (SortInfo c)))) = set (tp_empty (cm_topo c))"
proof (cases "None \<in> set (tp_empty (cm_topo c))")
  case True
  then show ?thesis by (simp add: SortInfo_def Let_def)
next
  case False
  then have "Some ` the ` set (tp_empty (cm_topo c)) = set (tp_empty (cm_topo c))"
    by (auto simp: image_image image_iff) (metis option.collapse)+
  then show ?thesis using False by (simp add: SortInfo_def Let_def)
qed

lemma topo_inv_cong:
  assumes "topo_inv c" "set (tp_list (cm_topo d)) = set (tp_list (cm_topo c))" "distinct (tp_list (cm_topo d))"
    "tp_nodes (cm_topo d) = tp_nodes (cm_topo c)" "tp_ipToID (cm_topo d) = tp_ipToID (cm_topo c)"
    "\<And>a. Some a \<in> set (tp_empty (cm_topo d)) \<Longrightarrow> a < cm_next d" "cm_next c \<le> cm_next d"
    "\<And>a. a < cm_next c \<Longrightarrow> cn_ID (cm_heap d a) = cn_ID (cm_heap c a) \<and> cn_IP (cm_heap d a) = cn_IP (cm_heap c a)"
    "cm_meet d = cm_meet c"
  shows "topo_inv d"
proof -
  note inv = assms(1)
  have h: "a \<in> set (tp_list (cm_topo c)) \<Longrightarrow>
      cn_ID (cm_heap d a) = cn_ID (cm_heap c a) \<and> cn_IP (cm_heap d a) = cn_IP (cm_heap c a)" for a
    using assms(8) topo_invD(2) [OF inv] by blast
  show ?thesis
    unfolding topo_inv_def Let_def assms(2,4,5,9)
  proof (intro conjI allI ballI impI assms(3))
    show "Some a \<in> set (tp_empty (cm_topo d)) \<Longrightarrow> a < cm_next d" for a by (rule assms(6))
  next
    fix a assume a: "a \<in> set (tp_list (cm_topo c))"
    show "a < cm_next d" using topo_invD(2) [OF inv a] assms(7) by simp
    show "tp_ipToID (cm_topo c) (cn_IP (cm_heap d a)) \<noteq> None" "ms_met (cm_meet c) (cn_IP (cm_heap d a))"
      using topo_invD(5) [OF inv a] h [OF a] by simp_all
  next
    fix i a
    show "tp_nodes (cm_topo c) i = Some a \<longleftrightarrow> a \<in> set (tp_list (cm_topo c)) \<and> cn_ID (cm_heap d a) = i"
      using topo_invD(3) [OF inv, of i a] h [of a] by auto
  next
    fix ip i assume "tp_ipToID (cm_topo c) ip = Some i"
    then show "\<exists>a \<in> set (tp_list (cm_topo c)). cn_ID (cm_heap d a) = i \<and> cn_IP (cm_heap d a) = ip"
      using topo_invD(4) [OF inv, of ip i] h by auto
  qed
qed

lemma SortInfo_frame:
  "tp_nodes (cm_topo (fst (SortInfo c))) = tp_nodes (cm_topo c)"
  "tp_ipToID (cm_topo (fst (SortInfo c))) = tp_ipToID (cm_topo c)"
  "tp_list (cm_topo (fst (SortInfo c))) = sortClusterNodesByIP (cm_heap c) (tp_list (cm_topo c))"
  "cm_heap (fst (SortInfo c)) = cm_heap c" "cm_next (fst (SortInfo c)) = cm_next c"
  "cm_meet (fst (SortInfo c)) = cm_meet c"
  by (simp_all add: SortInfo_def Let_def)

lemma topo_inv_SortInfo [wf_intros]: "topo_inv c \<Longrightarrow> topo_inv (fst (SortInfo c))"
  by (rule topo_inv_cong [of c]) (auto simp: SortInfo_frame SortInfo_empty dest: topo_invD(1,6))

lemma topo_inv_update_slot [wf_intros]:
  assumes "topo_inv c"
  shows "topo_inv (update_slot node c)"
proof (rule topo_inv_cong [OF assms])
  fix a assume "Some a \<in> set (tp_empty (cm_topo (update_slot node c)))"
  then show "a < cm_next (update_slot node c)"
    using topo_invD(6) [OF assms, of a]
    by (auto simp: update_slot_def Let_def split: if_splits option.splits)
qed (simp_all add: update_slot_def Let_def topo_invD [OF assms] split: option.split)

lemma topo_inv_fold_update_slot: "topo_inv c \<Longrightarrow> topo_inv (fold update_slot nodes c)"
  by (induction nodes arbitrary: c) (simp_all add: topo_inv_update_slot)

lemma topo_inv_roles: "topo_inv (c\<lparr>cm_roles := r, cm_topo := (cm_topo c)\<lparr>tp_masterIDs := m, tp_masterSet := s\<rparr>\<rparr>) = topo_inv c"
  "topo_inv (c\<lparr>cm_roles := r, cm_topo := (cm_topo c)\<lparr>tp_masterIDs := m\<rparr>\<rparr>) = topo_inv c"
  "topo_inv (c\<lparr>cm_topo := (cm_topo c)\<lparr>tp_masterIDs := m, tp_masterSet := s\<rparr>, cm_roles := r\<rparr>) = topo_inv c"
  "topo_inv (c\<lparr>cm_topo := (cm_topo c)\<lparr>tp_masterIDs := m, tp_masterSet := s\<rparr>\<rparr>) = topo_inv c"
  "topo_inv (c\<lparr>cm_roles := r\<rparr>) = topo_inv c"
  by (simp_all add: topo_inv_def Let_def)

lemma topo_inv_fold_add_master: "topo_inv (fold add_master ms c) = topo_inv c"
  by (induction ms arbitrary: c) (simp_all add: add_master_def topo_inv_roles)

lemma topo_inv_add_slaves: "topo_inv (fst (add_slaves ss c)) = topo_inv c"
  by (induction ss c rule: add_slaves.induct) (simp_all add: topo_inv_roles)

lemma topo_inv_build: "topo_inv (fst (buildMasterSlaveTopology ms ss c)) = topo_inv c"
  using topo_inv_add_slaves [of ss "fold add_master ms c"]
  by (cases "add_slaves ss (fold add_master ms c)")
     (auto simp: buildMasterSlaveTopology_def topo_inv_roles topo_inv_fold_add_master split: option.split)

lemma topo_inv_UpdateAfterMeet [wf_intros]: "topo_inv c \<Longrightarrow> topo_inv (fst (UpdateAfterMeet api l cn c))"
  by (auto simp: UpdateAfterMeet_def topo_inv_SortInfo topo_inv_fold_meet
      split: prod.split sum.split dest: topo_inv_GetClusterNodes)

lemma topo_inv_UpdateSlots [wf_intros]: "topo_inv c \<Longrightarrow> topo_inv (fst (UpdateSlots api l cn c))"
  by (auto simp: UpdateSlots_def Let_def topo_inv_fold_update_slot
      split: prod.split sum.split dest: topo_inv_GetClusterNodes)

lemma topo_inv_UpdateAfterSetNodeRole [wf_intros]:
  "topo_inv c \<Longrightarrow> topo_inv (fst (UpdateAfterSetNodeRole api l cn c))"
  by (auto simp: UpdateAfterSetNodeRole_def Let_def topo_inv_build topo_inv_roles
      split: prod.split sum.split dest: topo_inv_GetClusterNodes)

section \<open>Masters and slaves\<close>

text \<open>What the reported nodes say: the ids of the masters, and the slaves of each of them.\<close>

definition master_ids :: "ClusterNode list \<Rightarrow> string list" where
  "master_ids nodes = map cn_ID (filter (\<lambda>n. cn_NodeType n = ''master'') nodes)"

definition slaves_of :: "ClusterNode list \<Rightarrow> string \<Rightarrow> string list" where
  "slaves_of nodes m = map cn_ID (filter (\<lambda>n. cn_NodeType n = ''slave'' \<and> cn_MasterID n = m) nodes)"

lemma classifyNodesByType_eq:
  "classifyNodesByType nodes =
     (filter (\<lambda>n. cn_NodeType n = ''master'') nodes, filter (\<lambda>n. cn_NodeType n = ''slave'') nodes)"
  by (induction nodes) auto

lemma fold_add_master:
  "tp_masterIDs (cm_topo (fold add_master ms c)) = tp_masterIDs (cm_topo c) @ map cn_ID ms"
  "tp_masterSet (cm_topo (fold add_master ms c)) i = (tp_masterSet (cm_topo c) i \<or> i \<in> cn_ID ` set ms)"
  "map_of (ro_masterToSlave (cm_roles (fold add_master ms c))) i =
     (if i \<in> cn_ID ` set ms then Some [] else map_of (ro_masterToSlave (cm_roles c)) i)"
  by (induction ms arbitrary: c) (auto simp: add_master_def)

lemma add_slaves_topo: "cm_topo (fst (add_slaves ss c)) = cm_topo c"
  by (induction ss c rule: add_slaves.induct) auto

lemma add_slaves_err: "snd (add_slaves ss c) = None \<longleftrightarrow> (\<forall>s \<in> set ss. tp_masterSet (cm_topo c) (cn_MasterID s))"
  by (induction ss c rule: add_slaves.induct) auto

lemma add_slaves_map:
  "snd (add_slaves ss c) = None \<Longrightarrow> \<forall>i. tp_masterSet (cm_topo c) i \<longrightarrow> map_of (ro_masterToSlave (cm_roles c)) i \<noteq> None \<Longrightarrow>
   map_of (ro_masterToSlave (cm_roles (fst (add_slaves ss c)))) k =
     map_option (\<lambda>vs. vs @ map cn_ID (filter (\<lambda>s. cn_MasterID s = k) ss)) (map_of (ro_masterToSlave (cm_roles c)) k)"
proof (induction ss c rule: add_slaves.induct)
  case (1 c)
  then show ?case by (simp add: option.map_ident)
next
  case (2 s ss c)
  have m: "tp_masterSet (cm_topo c) (cn_MasterID s)" using "2.prems"(1) by (simp split: if_splits)
  then obtain vs where vs: "map_of (ro_masterToSlave (cm_roles c)) (cn_MasterID s) = Some vs"
    using "2.prems"(2) by auto
  show ?case
    using 2 m vs by (auto simp: append_entry_def option.map_comp comp_def)
qed

lemma map_of_map_values: "map_of (map (\<lambda>(k, v). (k, f v)) m) k = map_option f (map_of m k)"
  by (induction m) auto

text \<open>What \<^verbatim>\<open>GetClusterNodes\<close> returns depends on the tracked nodes and Redis only.\<close>

lemma GetClusterNodes_reset:
  "snd (GetClusterNodes api l cn (c\<lparr>cm_roles := r, cm_topo := t\<rparr>)) = snd (GetClusterNodes api l cn c)"
  by (simp add: GetClusterNodes_def ParseRedisClusterNodes_def Let_def split: sum.split prod.split)

section \<open>An example cluster\<close>

text \<open>Two tracked nodes and a Redis that reports a master with all the slots and its slave.\<close>

definition demo_node :: "string \<Rightarrow> string \<Rightarrow> RuntimeNode" where
  "demo_node i ip = \<lparr>rn_HostIP = ''127.0.0.1'', rn_HostPort = 4001, rn_ConIp = ip, rn_ConPort = 6379,
     rn_Hostname = [], rn_Name = i, rn_ID = i, rn_ClusterName = ''c1'',
     rn_Address = \<lparr>na_ClusterAddr = [], na_ClientAddr = []\<rparr>\<rparr>"

definition demo_nodes_text :: string where
  "demo_nodes_text = ''m1 10.0.0.2:6379@16379 master - 0 0 1 connected 0-16383'' @ [CHR 0x0A]
     @ ''s1 10.0.0.3:6379@16379 slave m1 0 0 1 connected''"

definition demo_redis :: "int redis_api" where
  "demo_redis = \<lparr>ra_podman = demo_api,
     ra_ClusterNodes = (\<lambda>a w. (w, Inr demo_nodes_text)), ra_ClusterMeet = (\<lambda>a h p w. (w, None)),
     ra_ClusterReplicate = (\<lambda>a i w. (w, None)), ra_ClusterAddSlots = (\<lambda>a s w. (w, None)),
     ra_ClusterForget = (\<lambda>a i w. (w, None)), ra_ClusterGetKeysInSlot = (\<lambda>a s n w. (w, [])),
     ra_MemoryUsage = (\<lambda>a k w. (w, Inr 0)), ra_Exists = (\<lambda>a k w. (w, Inr 1)), ra_Del = (\<lambda>a k w. (w, None)),
     ra_Do = (\<lambda>a args w. (w, Inr ''OK'')), ra_InvalidateSlots = (\<lambda>s e w. w), ra_sleep = (\<lambda>d w. w),
     ra_range = (\<lambda>ks w. ks)\<rparr>"

definition demo_pods :: "RuntimeConfig \<Rightarrow> PodmanNodeManager" where
  "demo_pods cfg = AddRuntimeNode (demo_node ''s1'' ''10.0.0.3'')
     (AddRuntimeNode (demo_node ''m1'' ''10.0.0.2'') (NewPodmanNodeManager cfg))"

definition demo_manager :: "RuntimeConfig \<Rightarrow> int ClusterManager" where
  "demo_manager cfg = NewClusterManager 2 (demo_pods cfg) 0"

definition demo_master :: ClusterNode where
  "demo_master = \<lparr>cn_ID = ''m1'', cn_IP = ''10.0.0.2'', cn_Port = 6379, cn_NodeType = ''master'', cn_MasterID = ''-'',
     cn_LinkState = ''connected'', cn_Slots = [\<lparr>sr_Start = 0, sr_End = 16383\<rparr>], cn_SlotsNum = 0, cn_ClusterName = ''c1''\<rparr>"

definition demo_slave :: ClusterNode where
  "demo_slave = \<lparr>cn_ID = ''s1'', cn_IP = ''10.0.0.3'', cn_Port = 6379, cn_NodeType = ''slave'', cn_MasterID = ''m1'',
     cn_LinkState = ''connected'', cn_Slots = [], cn_SlotsNum = 0, cn_ClusterName = ''c1''\<rparr>"

lemma demo_lines:
  assumes "f ''10.0.0.2''" "f ''10.0.0.3''"
  shows "ParseClusterNodeLines (strings_Split demo_nodes_text (CHR 0x0A)) (Some f) =
    ([demo_master\<lparr>cn_ClusterName := []\<rparr>, demo_slave\<lparr>cn_ClusterName := []\<rparr>], [])"
proof -
  have "strconv_Atoi ''6379'' = Inr 6379" "strconv_Atoi ''0'' = Inr 0" "strconv_Atoi ''16383'' = Inr 16383"
    by (simp_all add: strconv_Atoi_def parse_digits_def is_digit_def digits_val_def digit_val_def)
  then show ?thesis using assms
    by (simp add: demo_nodes_text_def parse_node_line_def strings_HasPrefix_def ParseIPPort_def StringToUint16_def
        parseNodeType_def parse_slot_field_def parseRange_def demo_master_def demo_slave_def Master_def Slave_def)
qed

lemma demo_by_host: "map rn_ConIp (pm_GetNodes (demo_pods cfg)) = [''10.0.0.2'', ''10.0.0.3'']"
  "\<exists>n. pm_GetNodeByHost (demo_pods cfg) ''10.0.0.2'' = Some n \<and> rn_ClusterName n = ''c1''"
  "\<exists>n. pm_GetNodeByHost (demo_pods cfg) ''10.0.0.3'' = Some n \<and> rn_ClusterName n = ''c1''"
  by (simp_all add: demo_pods_def AddRuntimeNode_def NewPodmanNodeManager_def demo_node_def
      pm_GetNodes_def getNodes_def addNode_def pm_GetNodeByHost_def getNodeByHost_def Let_def)

lemma demo_reads:
  assumes "cm_nodeManager c = demo_pods cfg"
  shows "GetClusterNodes demo_redis l ''c1'' c = (c, Inr [demo_master, demo_slave])"
proof -
  have ne: "pm_GetNodes (demo_pods cfg) \<noteq> []" using demo_by_host(1) [of cfg] by auto
  obtain n where n: "pm_GetNodeByHost (demo_pods cfg) ''10.0.0.2'' = Some n" "rn_ClusterName n = ''c1''"
    using demo_by_host(2) by blast
  obtain m where m: "pm_GetNodeByHost (demo_pods cfg) ''10.0.0.3'' = Some m" "rn_ClusterName m = ''c1''"
    using demo_by_host(3) by blast
  have id: "c\<lparr>cm_world := cm_world c\<rparr> = c" by simp
  show ?thesis
    using assms ne n m
    by (simp add: GetClusterNodes_def ParseRedisClusterNodes_def CreateRedisClient_def demo_redis_def demo_lines Let_def)
       (simp add: demo_master_def demo_slave_def)
qed

lemma demo_GetClusterNodes:
  "snd (GetClusterNodes demo_redis l ''c1'' (demo_manager cfg)) = Inr [demo_master, demo_slave]"
  using demo_reads [of "demo_manager cfg" cfg l] by (simp add: demo_manager_def NewClusterManager_def)

lemma demo_count: "cm_GetNodeCount (demo_manager cfg) = 2"
  by (simp add: demo_manager_def demo_pods_def NewClusterManager_def AddRuntimeNode_def NewPodmanNodeManager_def
      Let_def pm_GetNodeCount_def getNodeCount_def)

section \<open>Properties\<close>

text \<open>C12: a refresh after \<^verbatim>\<open>CLUSTER MEET\<close> keeps the topology consistent: one entry per node id in the
  list, exact indexes, every node marked as met. The known ids are exactly the old ones and
  the reported ones, and the list is sorted by address.\<close>

theorem UpdateAfterMeet_topology:
  assumes "topo_inv c" and "cm_GetNodeCount c \<noteq> 0"
    and "snd (GetClusterNodes api login clusterName c) = Inr nodes"
    and "UpdateAfterMeet api login clusterName c = (c', e)"
  shows "topo_inv c'
    \<and> dom (tp_nodes (cm_topo c')) = dom (tp_nodes (cm_topo c)) \<union> cn_ID ` set nodes
    \<and> sorted (map (\<lambda>a. cn_IP (cm_heap c' a)) (tp_list (cm_topo c')))"
proof -
  obtain c1 where g: "GetClusterNodes api login clusterName c = (c1, Inr nodes)"
    using assms(3) by (metis prod.collapse)
  let ?d = "fold (meet_node clusterName) nodes c1"
  have c': "c' = fst (SortInfo ?d)"
    using assms(2,4) by (simp add: UpdateAfterMeet_def g)
  have topo: "cm_topo c1 = cm_topo c" by (rule GetClusterNodes_same [OF g])
  have "dom (tp_nodes (cm_topo c')) = dom (tp_nodes (cm_topo c)) \<union> cn_ID ` set nodes"
    using fold_meet_dom [of nodes clusterName c1] GetClusterNodes_named [OF g]
    by (auto simp: c' SortInfo_frame topo)
  moreover have "topo_inv c'" using topo_inv_UpdateAfterMeet [OF assms(1)] assms(4) by (metis fst_conv)
  moreover have "sorted (map (\<lambda>a. cn_IP (cm_heap c' a)) (tp_list (cm_topo c')))"
    by (simp add: c' SortInfo_frame sortClusterNodesByIP_def)
  ultimately show ?thesis by blast
qed

theorem UpdateAfterMeet_topology_witness:
  "\<forall>cfg l. topo_inv (fst (UpdateAfterMeet demo_redis l ''c1'' (demo_manager cfg)))
     \<and> dom (tp_nodes (cm_topo (fst (UpdateAfterMeet demo_redis l ''c1'' (demo_manager cfg))))) = {''m1'', ''s1''}"
proof (intro allI)
  fix cfg l
  have "topo_inv (demo_manager cfg)" "dom (tp_nodes (cm_topo (demo_manager cfg))) = {}"
    by (simp_all add: demo_manager_def) (simp add: NewClusterManager_def newTopology_def)
  with UpdateAfterMeet_topology [of "demo_manager cfg" demo_redis l "''c1''" _, OF _ _ demo_GetClusterNodes]
  show "topo_inv (fst (UpdateAfterMeet demo_redis l ''c1'' (demo_manager cfg)))
     \<and> dom (tp_nodes (cm_topo (fst (UpdateAfterMeet demo_redis l ''c1'' (demo_manager cfg))))) = {''m1'', ''s1''}"
    by (cases "UpdateAfterMeet demo_redis l ''c1'' (demo_manager cfg)")
       (simp add: demo_count demo_master_def demo_slave_def)
qed

text \<open>C25: refreshing the roles fails exactly when a reported slave names a master that is not
  reported; otherwise the manager holds the reported masters in order, each with its
  reported slaves in order, and nothing of the roles it held before.\<close>

theorem UpdateAfterSetNodeRole_roles:
  assumes "cm_GetNodeCount c \<noteq> 0"
    and "snd (GetClusterNodes api login clusterName c) = Inr nodes"
    and "UpdateAfterSetNodeRole api login clusterName c = (c', e)"
  shows "(e = None \<longleftrightarrow> (\<forall>m. slaves_of nodes m \<noteq> [] \<longrightarrow> m \<in> set (master_ids nodes)))
    \<and> (e = None \<longrightarrow> tp_masterIDs (cm_topo c') = sort (master_ids nodes)
        \<and> map_of (ro_masterToSlave (cm_roles c')) =
            (\<lambda>m. if m \<in> set (master_ids nodes) then Some (sort (slaves_of nodes m)) else None))"
proof -
  define c0 where "c0 = c\<lparr>cm_roles := (cm_roles c)\<lparr>ro_masterToSlave := []\<rparr>,
                 cm_topo := (cm_topo c)\<lparr>tp_masterIDs := [], tp_masterSet := (\<lambda>_. False)\<rparr>\<rparr>"
  obtain c1 where g: "GetClusterNodes api login clusterName c0 = (c1, Inr nodes)"
    using assms(2) unfolding c0_def by (metis GetClusterNodes_reset prod.collapse)
  note same = GetClusterNodes_same(1,2) [OF g]
  let ?ms = "filter (\<lambda>n. cn_NodeType n = ''master'') nodes"
  let ?ss = "filter (\<lambda>n. cn_NodeType n = ''slave'') nodes"
  let ?d = "fold add_master ?ms c1"
  have mem: "tp_masterSet (cm_topo ?d) m \<longleftrightarrow> m \<in> set (master_ids nodes)"
    "map_of (ro_masterToSlave (cm_roles ?d)) m = (if m \<in> set (master_ids nodes) then Some [] else None)" for m
    by (simp_all add: fold_add_master same c0_def master_ids_def)
  have res: "(c', e) = (if nodes = [] then (c1, None) else buildMasterSlaveTopology ?ms ?ss c1)"
    using assms(1,3) g by (simp add: UpdateAfterSetNodeRole_def c0_def classifyNodesByType_eq split: if_splits)
  have build: "(c', e) = buildMasterSlaveTopology ?ms ?ss c1"
    using res by (cases "nodes = []") (simp_all add: buildMasterSlaveTopology_def same c0_def)
  have ok: "snd (add_slaves ?ss ?d) = None \<longleftrightarrow> (\<forall>m. slaves_of nodes m \<noteq> [] \<longrightarrow> m \<in> set (master_ids nodes))"
    unfolding add_slaves_err mem by (auto simp: slaves_of_def filter_empty_conv)
  have e: "e = snd (add_slaves ?ss ?d)"
    using build by (auto simp: buildMasterSlaveTopology_def split: prod.splits option.splits)
  show ?thesis
  proof (intro conjI impI)
    show "e = None \<longleftrightarrow> (\<forall>m. slaves_of nodes m \<noteq> [] \<longrightarrow> m \<in> set (master_ids nodes))" using e ok by simp
  next
    assume "e = None"
    then obtain c2 where c2: "add_slaves ?ss ?d = (c2, None)" using e by (metis prod.collapse)
    have "cm_topo c2 = cm_topo ?d" using add_slaves_topo [of ?ss ?d] c2 by simp
    then show "tp_masterIDs (cm_topo c') = sort (master_ids nodes)"
      using build c2 by (simp add: buildMasterSlaveTopology_def fold_add_master same c0_def master_ids_def)
    show "map_of (ro_masterToSlave (cm_roles c')) =
            (\<lambda>m. if m \<in> set (master_ids nodes) then Some (sort (slaves_of nodes m)) else None)"
      using build c2 add_slaves_map [of ?ss ?d] mem
      by (auto simp: buildMasterSlaveTopology_def map_of_map_values slaves_of_def conj_commute)
  qed
qed

theorem UpdateAfterSetNodeRole_roles_witness:
  "\<forall>cfg l. \<exists>c'. UpdateAfterSetNodeRole demo_redis l ''c1'' (demo_manager cfg) = (c', None)
     \<and> tp_masterIDs (cm_topo c') = [''m1''] \<and> map_of (ro_masterToSlave (cm_roles c')) ''m1'' = Some [''s1'']"
proof (intro allI)
  fix cfg l
  obtain c' e where u: "UpdateAfterSetNodeRole demo_redis l ''c1'' (demo_manager cfg) = (c', e)" by fastforce
  have ids: "master_ids [demo_master, demo_slave] = [''m1'']"
    "slaves_of [demo_master, demo_slave] m = (if m = ''m1'' then [''s1''] else [])" for m
    by (simp_all add: master_ids_def slaves_of_def demo_master_def demo_slave_def)
  show "\<exists>c'. UpdateAfterSetNodeRole demo_redis l ''c1'' (demo_manager cfg) = (c', None)
     \<and> tp_masterIDs (cm_topo c') = [''m1''] \<and> map_of (ro_masterToSlave (cm_roles c')) ''m1'' = Some [''s1'']"
    using UpdateAfterSetNodeRole_roles [OF _ demo_GetClusterNodes u] u by (simp add: demo_count ids)
qed

end
