(* ===== verification/Cluster_Bootstrap.thy ===== *)
theory Cluster_Bootstrap
  imports Cluster_Topology
begin

text \<open>
  The second part of \<^verbatim>\<open>cluster/model/manager.go\<close>: creating the nodes of a cluster, joining them,
  assigning roles and slots, adding shards, and the polling loops that verify each step.
  A function that creates containers is \<^const>\<open>None\<close> when the wait for a container does not end; the
  polling loops try ten times, as in the code. An index out of range, a division by zero and a
  nil pointer are panics, which unwind through the callers unwrapped.
\<close>

section \<open>Pods\<close>

definition wrapV :: "string \<Rightarrow> go_error \<Rightarrow> go_error" where
  "wrapV msg e = (case e of Panic m \<Rightarrow> Panic m | _ \<Rightarrow> ErrorfV msg e)"

definition CreatePodsForCluster ::
  "'w redis_api \<Rightarrow> string \<Rightarrow> int \<Rightarrow> 'w ClusterManager \<Rightarrow> ('w ClusterManager \<times> go_err) option" where
  "CreatePodsForCluster api clusterName nodeSum c =
     (case CreatePods (ra_podman api) nodeSum clusterName (cm_nodeManager c, cm_world c) of
        None \<Rightarrow> None
      | Some ((nm, w), e) \<Rightarrow>
          Some (c\<lparr>cm_nodeManager := nm, cm_world := w\<rparr>, map_option (wrapV ''create pods fail'') e))"

definition createPodsForCluster ::
  "'w redis_api \<Rightarrow> int \<Rightarrow> string \<Rightarrow> 'w ClusterManager \<Rightarrow> ('w ClusterManager \<times> go_err) option" where
  "createPodsForCluster api shardCount clusterName c =
     CreatePodsForCluster api clusterName (shardCount * cm_nodesPerShard c) c"

definition createPodsForNewShards ::
  "'w redis_api \<Rightarrow> int \<Rightarrow> string \<Rightarrow> 'w ClusterManager \<Rightarrow> ('w ClusterManager \<times> go_err) option" where
  "createPodsForNewShards api shardCount clusterName c = createPodsForCluster api shardCount clusterName c"

definition findFirstClusterNode :: "string \<Rightarrow> 'w ClusterManager \<Rightarrow> RuntimeNode go_result" where
  "findFirstClusterNode clusterName c =
     (if length (cm_GetNodes c) = 0 then Inl (Errorf ''no cluster node found for meeting'')
      else case find (\<lambda>n. rn_ClusterName n = clusterName) (cm_GetNodes c) of
        Some node \<Rightarrow> Inr node
      | None \<Rightarrow> Inl (ErrorfW ''no node found for cluster'' ErrClusterNotFound))"

definition connectToClusterNode :: "string \<Rightarrow> 'w ClusterManager \<Rightarrow> string go_result" where
  "connectToClusterNode clusterName c =
     (case findFirstClusterNode clusterName c of
        Inl err \<Rightarrow> Inl err
      | Inr node \<Rightarrow>
          (case CreateRedisClient (ClientConnAddr node) of
             Inl err \<Rightarrow> Inl (Errorf ''create redis client fail'')
           | Inr cli \<Rightarrow> Inr cli))"

text \<open>The search of \<^verbatim>\<open>findExistingNode\<close> through the given indexes.\<close>

fun existing_loop :: "RuntimeNode list \<Rightarrow> string \<Rightarrow> nat list \<Rightarrow> RuntimeNode go_result" where
  "existing_loop nodes clusterName [] = Inl (Errorf ''no existing node found for cluster'')"
| "existing_loop nodes clusterName (i # is) =
     (if length nodes \<le> i then Inl (Panic ''index out of range'')
      else if rn_ClusterName (nodes ! i) = clusterName then Inr (nodes ! i)
      else existing_loop nodes clusterName is)"

definition findExistingNode :: "string \<Rightarrow> int \<Rightarrow> 'w ClusterManager \<Rightarrow> RuntimeNode go_result" where
  "findExistingNode clusterName shardCount c =
     (let limit = cm_GetNodeCount c - shardCount * cm_nodesPerShard c
      in existing_loop (cm_GetNodes c) clusterName [0..<nat limit])"

definition connectToExistingNode :: "string \<Rightarrow> int \<Rightarrow> 'w ClusterManager \<Rightarrow> string go_result" where
  "connectToExistingNode clusterName shardCount c =
     (case findExistingNode clusterName shardCount c of
        Inl err \<Rightarrow> Inl err
      | Inr node \<Rightarrow>
          (case CreateRedisClient (ClientConnAddr node) of
             Inl err \<Rightarrow> Inl (ErrorfW ''create redis client fail'' err)
           | Inr cli \<Rightarrow> Inr cli))"

section \<open>Meeting\<close>

definition countActiveNodes :: "string \<Rightarrow> int" where
  "countActiveNodes nodesInfo =
     int (length (filter (\<lambda>line. let fields = strings_Split line (CHR '' '') in
            8 \<le> length fields \<and> \<not> strings_Contains (fields ! 2) ''fail'' \<and> strings_Contains line ''connected'')
          (strings_Split nodesInfo (CHR 0x0A))))"

fun meet_sync_loop :: "'w redis_api \<Rightarrow> string \<Rightarrow> int \<Rightarrow> nat \<Rightarrow> 'w \<Rightarrow> 'w \<times> go_err" where
  "meet_sync_loop api client expectedNodes 0 w =
     (w, Some (Errorf ''cluster did not synchronize within the expected time''))"
| "meet_sync_loop api client expectedNodes (Suc n) w =
     (case ra_ClusterNodes api client w of
        (w1, Inl err) \<Rightarrow> (w1, Some (ErrorfV ''failed to get cluster nodes info'' err))
      | (w1, Inr nodesInfo) \<Rightarrow>
          if countActiveNodes nodesInfo = expectedNodes then (w1, None)
          else meet_sync_loop api client expectedNodes n (ra_sleep api 2 w1))"

definition waitForMeetSync :: "'w redis_api \<Rightarrow> string \<Rightarrow> int \<Rightarrow> 'w \<Rightarrow> 'w \<times> go_err" where
  "waitForMeetSync api client expectedNodes w = meet_sync_loop api client expectedNodes 10 w"

fun sync_all :: "'w redis_api \<Rightarrow> string \<Rightarrow> int \<Rightarrow> RuntimeNode list \<Rightarrow> 'w \<Rightarrow> 'w \<times> go_err" where
  "sync_all api clusterName count [] w = (w, None)"
| "sync_all api clusterName count (node # nodes) w =
     (if rn_ClusterName node \<noteq> clusterName then sync_all api clusterName count nodes w
      else case CreateRedisClient (ClientConnAddr node) of
        Inl err \<Rightarrow> (w, Some (ErrorfV ''failed to create Redis client for node'' err))
      | Inr cli \<Rightarrow>
          (case waitForMeetSync api cli count w of
             (w1, Some err) \<Rightarrow> (w1, Some (ErrorfV ''failed to wait for cluster sync'' err))
           | (w1, None) \<Rightarrow> sync_all api clusterName count nodes w1))"

definition waitForAllMeetSync :: "'w redis_api \<Rightarrow> string \<Rightarrow> 'w ClusterManager \<Rightarrow> 'w ClusterManager \<times> go_err" where
  "waitForAllMeetSync api clusterName c =
     (let clusterNodeCount = int (length (filter (\<lambda>n. rn_ClusterName n = clusterName) (cm_GetNodes c)));
          (w, e) = sync_all api clusterName clusterNodeCount (cm_GetNodes c) (cm_world c)
      in (c\<lparr>cm_world := w\<rparr>, e))"

fun meet_loop :: "'w redis_api \<Rightarrow> string \<Rightarrow> string \<Rightarrow> (string \<Rightarrow> bool) \<Rightarrow> RuntimeNode list \<Rightarrow> 'w \<Rightarrow> 'w \<times> go_err" where
  "meet_loop api client clusterName met [] w = (w, None)"
| "meet_loop api client clusterName met (node # nodes) w =
     (if rn_ClusterName node \<noteq> clusterName \<or> met (rn_ConIp node)
      then meet_loop api client clusterName met nodes w
      else
        let (host, portStr) = ParseIPPort (ClusterMeetAddr node)
        in if host = [] then meet_loop api client clusterName met nodes w
           else case StringToUint16 portStr of
             Inl _ \<Rightarrow> meet_loop api client clusterName met nodes w
           | Inr port \<Rightarrow>
               (case ra_ClusterMeet api client host (itoa_nat (unat port)) w of
                  (w1, Some err) \<Rightarrow> (w1, Some (ErrorfV ''could not meet node'' err))
                | (w1, None) \<Rightarrow> meet_loop api client clusterName met nodes w1))"

definition sendMeetCommands ::
  "'w redis_api \<Rightarrow> string \<Rightarrow> string \<Rightarrow> 'w ClusterManager \<Rightarrow> 'w ClusterManager \<times> go_err" where
  "sendMeetCommands api client clusterName c =
     (let (w, e) = meet_loop api client clusterName (ms_met (cm_meet c)) (cm_GetNodes c) (cm_world c)
      in (c\<lparr>cm_world := w\<rparr>, e))"

definition MeetNodes ::
  "'w redis_api \<Rightarrow> string \<Rightarrow> string \<Rightarrow> 'w ClusterManager \<Rightarrow> 'w ClusterManager \<times> go_err" where
  "MeetNodes api client clusterName c =
     (case sendMeetCommands api client clusterName c of
        (c1, Some e) \<Rightarrow> (c1, Some e)
      | (c1, None) \<Rightarrow> waitForAllMeetSync api clusterName c1)"

section \<open>Roles\<close>

definition connectToSlaveNode :: "string \<Rightarrow> 'w ClusterManager \<Rightarrow> string go_result" where
  "connectToSlaveNode slaveIP c =
     (case cm_GetNodeByHost c slaveIP of
        None \<Rightarrow> Inl (Errorf ''slave node not found for IP'')
      | Some slaveNode \<Rightarrow>
          (case CreateRedisClient (ClientConnAddr slaveNode) of
             Inl err \<Rightarrow> Inl (ErrorfW ''failed to create Redis client'' err)
           | Inr cli \<Rightarrow> Inr cli))"

definition SetNodeAsSlave ::
  "'w redis_api \<Rightarrow> string \<Rightarrow> string \<Rightarrow> string \<Rightarrow> 'w ClusterManager \<Rightarrow> 'w ClusterManager \<times> go_err" where
  "SetNodeAsSlave api masterIP slaveIP clusterName c =
     (case connectToSlaveNode slaveIP c of
        Inl err \<Rightarrow> (c, Some err)
      | Inr cli \<Rightarrow>
          (case ra_ClusterReplicate api cli (NodeIDByIP c masterIP) (cm_world c) of
             (w1, Some err) \<Rightarrow> (c\<lparr>cm_world := w1\<rparr>, Some (ErrorfV ''failed to set node as replica of master'' err))
           | (w1, None) \<Rightarrow>
               let c1 = c\<lparr>cm_world := w1\<rparr>
               in if length (cm_GetNodes c1) = 0
                  then (c1, Some (ErrorfW ''no nodes available'' ErrNoNodesAvailable))
                  else UpdateAfterSetNodeRole api (cm_GetNodes c1 ! 0) clusterName c1))"

definition mark_roles :: "string \<Rightarrow> string \<Rightarrow> 'w ClusterManager \<Rightarrow> 'w ClusterManager" where
  "mark_roles masterID slaveID c =
     c\<lparr>cm_roles := (cm_roles c)\<lparr>ro_set := (ro_set (cm_roles c))(masterID := True, slaveID := True)\<rparr>\<rparr>"

text \<open>The inner loop of \<^verbatim>\<open>assignMastersAndSlaves\<close>, with the local map of masters to slaves.\<close>

fun assign_slaves ::
  "'w redis_api \<Rightarrow> string \<Rightarrow> string \<Rightarrow> string \<Rightarrow> nat list \<Rightarrow> (string, string list) gomap \<times> 'w ClusterManager \<Rightarrow>
     ((string, string list) gomap \<times> 'w ClusterManager) \<times> go_err" where
  "assign_slaves api clusterName masterIP masterID [] (m2s, c) = ((m2s, c), None)"
| "assign_slaves api clusterName masterIP masterID (j # js) (m2s, c) =
     (let node = cm_heap c (tp_list (cm_topo c) ! j) in
      if cn_ClusterName node \<noteq> clusterName then assign_slaves api clusterName masterIP masterID js (m2s, c)
      else
        let slaveIP = cn_IP node; slaveID = NodeIDByIP c slaveIP in
        if ro_set (cm_roles c) masterID \<and> ro_set (cm_roles c) slaveID
        then assign_slaves api clusterName masterIP masterID js (m2s, c)
        else
          let m2s' = append_entry masterID slaveID m2s in
          case SetNodeAsSlave api masterIP slaveIP clusterName c of
            (c1, Some e) \<Rightarrow> ((m2s', c1), Some e)
          | (c1, None) \<Rightarrow>
              assign_slaves api clusterName masterIP masterID js (m2s', mark_roles masterID slaveID c1))"

text \<open>One round of the outer loop; \<open>n\<close> is the number of masters.\<close>

definition assign_master ::
  "'w redis_api \<Rightarrow> string \<Rightarrow> nat \<Rightarrow> nat \<Rightarrow> (string, string list) gomap \<times> 'w ClusterManager \<Rightarrow>
     ((string, string list) gomap \<times> 'w ClusterManager) \<times> go_err" where
  "assign_master api clusterName n i = (\<lambda>(m2s, c).
     let node = cm_heap c (tp_list (cm_topo c) ! i) in
     if cn_ClusterName node \<noteq> clusterName then ((m2s, c), None)
     else
       let masterIP = cn_IP node; masterID = NodeIDByIP c masterIP;
           c1 = c\<lparr>cm_topo := (cm_topo c)\<lparr>tp_masterIDs := tp_masterIDs (cm_topo c) @ [masterID]\<rparr>\<rparr>;
           slaveStart = n + i * nat (cm_nodesPerShard c - 1);
           slaveEnd = slaveStart + nat (cm_nodesPerShard c) - 1
       in assign_slaves api clusterName masterIP masterID
            [slaveStart..<min slaveEnd (length (tp_list (cm_topo c)))] (AList.update masterID [] m2s, c1))"

fun assign_masters ::
  "'w redis_api \<Rightarrow> string \<Rightarrow> nat \<Rightarrow> nat list \<Rightarrow> (string, string list) gomap \<times> 'w ClusterManager \<Rightarrow>
     ((string, string list) gomap \<times> 'w ClusterManager) \<times> go_err" where
  "assign_masters api clusterName n [] s = (s, None)"
| "assign_masters api clusterName n (i # is) s =
     (case assign_master api clusterName n i s of
        (s', Some e) \<Rightarrow> (s', Some e)
      | (s', None) \<Rightarrow> assign_masters api clusterName n is s')"

text \<open>With a negative number of nodes per shard the quotient is not positive and no round runs.\<close>

definition assignMastersAndSlaves ::
  "'w redis_api \<Rightarrow> string \<Rightarrow> (string, string list) gomap \<Rightarrow> 'w ClusterManager \<Rightarrow>
     ((string, string list) gomap \<times> 'w ClusterManager) \<times> go_err" where
  "assignMastersAndSlaves api clusterName m2s c =
     (if cm_nodesPerShard c = 0 then ((m2s, c), Some (Panic ''integer divide by zero''))
      else
        let n = (if cm_nodesPerShard c < 0 then 0
                 else length (tp_list (cm_topo c)) div nat (cm_nodesPerShard c))
        in assign_masters api clusterName n [0..<n] (m2s, c))"

definition equalClusterNodeType :: "(string, string list) gomap \<Rightarrow> (string, string list) gomap \<Rightarrow> bool" where
  "equalClusterNodeType m1 m2 =
     (if length m1 \<noteq> length m2 then False
      else list_all (\<lambda>(k, v). case map_of m2 k of None \<Rightarrow> False | Some v2 \<Rightarrow> length v = length v2) m1)"

fun check_type_loop ::
  "'w redis_api \<Rightarrow> RuntimeNode \<Rightarrow> (string, string list) gomap \<Rightarrow> string \<Rightarrow> nat \<Rightarrow> 'w ClusterManager \<Rightarrow>
     'w ClusterManager \<times> bool go_result" where
  "check_type_loop api node m2s clusterName 0 c = (c, Inl (Errorf ''failed to verify node type set''))"
| "check_type_loop api node m2s clusterName (Suc n) c =
     (case UpdateAfterSetNodeRole api node clusterName c of
        (c1, Some _) \<Rightarrow>
          check_type_loop api node m2s clusterName n (c1\<lparr>cm_world := ra_sleep api 2 (cm_world c1)\<rparr>)
      | (c1, None) \<Rightarrow>
          if equalClusterNodeType m2s (ro_masterToSlave (cm_roles c1)) then (c1, Inr True)
          else check_type_loop api node m2s clusterName n (c1\<lparr>cm_world := ra_sleep api 3 (cm_world c1)\<rparr>))"

definition checkNodeTypeWithRetry ::
  "'w redis_api \<Rightarrow> RuntimeNode \<Rightarrow> (string, string list) gomap \<Rightarrow> string \<Rightarrow> 'w ClusterManager \<Rightarrow>
     'w ClusterManager \<times> bool go_result" where
  "checkNodeTypeWithRetry api node m2s clusterName c = check_type_loop api node m2s clusterName 10 c"

fun verify_type_loop ::
  "'w redis_api \<Rightarrow> (string, string list) gomap \<Rightarrow> string \<Rightarrow> RuntimeNode list \<Rightarrow> 'w ClusterManager \<Rightarrow>
     'w ClusterManager \<times> bool go_result" where
  "verify_type_loop api m2s clusterName [] c = (c, Inr True)"
| "verify_type_loop api m2s clusterName (node # nodes) c =
     (if rn_ClusterName node \<noteq> clusterName then verify_type_loop api m2s clusterName nodes c
      else case checkNodeTypeWithRetry api node m2s clusterName c of
        (c1, Inl err) \<Rightarrow> (c1, Inl err)
      | (c1, Inr ok) \<Rightarrow>
          if \<not> ok then (c1, Inr False) else verify_type_loop api m2s clusterName nodes c1)"

definition verifyNodeTypeSet ::
  "'w redis_api \<Rightarrow> (string, string list) gomap \<Rightarrow> string \<Rightarrow> 'w ClusterManager \<Rightarrow>
     'w ClusterManager \<times> bool go_result" where
  "verifyNodeTypeSet api m2s clusterName c = verify_type_loop api m2s clusterName (cm_GetNodes c) c"

definition SetAllNodeRole ::
  "'w redis_api \<Rightarrow> string \<Rightarrow> 'w ClusterManager \<Rightarrow> 'w ClusterManager \<times> go_err" where
  "SetAllNodeRole api clusterName c =
     (case assignMastersAndSlaves api clusterName [] c of
        ((m2s, c1), Some e) \<Rightarrow> (c1, Some e)
      | ((m2s, c1), None) \<Rightarrow>
          (case verifyNodeTypeSet api m2s clusterName c1 of
             (c2, Inl _) \<Rightarrow> (c2, Some (Errorf ''sync failed''))
           | (c2, Inr _) \<Rightarrow> (c2, None)))"

section \<open>Slots\<close>

text \<open>The slots of master \<open>i\<close> of \<open>n\<close>: equal shares, the last master takes the rest.\<close>

definition master_slots :: "nat \<Rightarrow> nat \<Rightarrow> int list" where
  "master_slots n i =
     (let slotsPerMaster = TotalSlots div int n;
          startPoint = int i * slotsPerMaster;
          endPoint = (if i = n - 1 then TotalSlots - 1 else startPoint + slotsPerMaster - 1)
      in [startPoint..endPoint])"

fun assign_slots_loop :: "'w redis_api \<Rightarrow> nat \<Rightarrow> nat list \<Rightarrow> 'w ClusterManager \<Rightarrow> 'w ClusterManager \<times> go_err" where
  "assign_slots_loop api numMasters [] c = (c, None)"
| "assign_slots_loop api numMasters (i # is) c =
     (case tp_nodes (cm_topo c) (tp_masterIDs (cm_topo c) ! i) of
        None \<Rightarrow> (c, Some (Errorf ''master node not found for ID''))
      | Some a \<Rightarrow>
          (case cm_GetNodeByHost c (cn_IP (cm_heap c a)) of
             None \<Rightarrow> (c, Some (Errorf ''runtime node not found for IP''))
           | Some port \<Rightarrow>
               (case CreateRedisClient (ClientConnAddr port) of
                  Inl err \<Rightarrow> (c, Some (ErrorfW ''failed to create Redis client'' err))
                | Inr cli \<Rightarrow>
                    (case ra_ClusterAddSlots api cli (master_slots numMasters i) (cm_world c) of
                       (w1, Some err) \<Rightarrow> (c\<lparr>cm_world := w1\<rparr>, Some (ErrorfW ''failed to add slots to master'' err))
                     | (w1, None) \<Rightarrow> assign_slots_loop api numMasters is (c\<lparr>cm_world := w1\<rparr>)))))"

definition assignSlotsToMasters :: "'w redis_api \<Rightarrow> string \<Rightarrow> 'w ClusterManager \<Rightarrow> 'w ClusterManager \<times> go_err" where
  "assignSlotsToMasters api clusterName c =
     (let numMasters = length (tp_masterIDs (cm_topo c))
      in if numMasters = 0
         then (c, Some (ErrorfW ''no available master nodes for slot allocation'' ErrNoNodesAvailable))
         else assign_slots_loop api numMasters [0..<numMasters] c)"

text \<open>The comparison of \<^verbatim>\<open>checkSlotCounts\<close>: a master that is not known or has another count fails it.\<close>

definition expected_slots :: "nat \<Rightarrow> nat \<Rightarrow> int" where
  "expected_slots n i =
     (if i = n - 1 \<and> TotalSlots mod int n \<noteq> 0 then TotalSlots div int n + TotalSlots mod int n
      else TotalSlots div int n)"

definition slot_counts_ok :: "'w ClusterManager \<Rightarrow> bool" where
  "slot_counts_ok c =
     (let ids = tp_masterIDs (cm_topo c)
      in list_all (\<lambda>i. case tp_nodes (cm_topo c) (ids ! i) of
                     None \<Rightarrow> False
                   | Some a \<Rightarrow> cn_SlotsNum (cm_heap c a) = expected_slots (length ids) i) [0..<length ids])"

fun check_slots_loop ::
  "'w redis_api \<Rightarrow> RuntimeNode \<Rightarrow> string \<Rightarrow> nat \<Rightarrow> 'w ClusterManager \<Rightarrow> 'w ClusterManager \<times> go_err" where
  "check_slots_loop api container clusterName 0 c = (c, None)"
| "check_slots_loop api container clusterName (Suc n) c =
     (case UpdateSlots api container clusterName c of
        (c1, Some err) \<Rightarrow> (c1, Some err)
      | (c1, None) \<Rightarrow>
          if length (tp_masterIDs (cm_topo c1)) = 0 then (c1, None)
          else if slot_counts_ok c1 then (c1, None)
          else check_slots_loop api container clusterName n (c1\<lparr>cm_world := ra_sleep api 2 (cm_world c1)\<rparr>))"

definition checkSlotCounts ::
  "'w redis_api \<Rightarrow> RuntimeNode \<Rightarrow> string \<Rightarrow> 'w ClusterManager \<Rightarrow> 'w ClusterManager \<times> go_err" where
  "checkSlotCounts api container clusterName c = check_slots_loop api container clusterName 10 c"

fun verify_slots_loop ::
  "'w redis_api \<Rightarrow> string \<Rightarrow> RuntimeNode list \<Rightarrow> 'w ClusterManager \<Rightarrow> 'w ClusterManager \<times> go_err" where
  "verify_slots_loop api clusterName [] c = (c, None)"
| "verify_slots_loop api clusterName (container # rest) c =
     (case checkSlotCounts api container clusterName c of
        (c1, Some err) \<Rightarrow> (c1, Some err)
      | (c1, None) \<Rightarrow> verify_slots_loop api clusterName rest c1)"

definition VerifyAllocateSlots :: "'w redis_api \<Rightarrow> string \<Rightarrow> 'w ClusterManager \<Rightarrow> 'w ClusterManager \<times> go_err" where
  "VerifyAllocateSlots api clusterName c = verify_slots_loop api clusterName (cm_GetNodes c) c"

definition AllocateSlots :: "'w redis_api \<Rightarrow> string \<Rightarrow> 'w ClusterManager \<Rightarrow> 'w ClusterManager \<times> go_err" where
  "AllocateSlots api clusterName c =
     (if length (cm_GetNodes c) = 0 then (c, Some (ErrorfW ''no nodes available'' ErrNoNodesAvailable))
      else case UpdateSlots api (cm_GetNodes c ! 0) clusterName c of
        (c1, Some err) \<Rightarrow> (c1, Some err)
      | (c1, None) \<Rightarrow>
          (case assignSlotsToMasters api clusterName c1 of
             (c2, Some err) \<Rightarrow> (c2, Some err)
           | (c2, None) \<Rightarrow> VerifyAllocateSlots api clusterName c2))"

section \<open>Bootstrap\<close>

definition initCluster ::
  "'w redis_api \<Rightarrow> string \<Rightarrow> string \<Rightarrow> 'w ClusterManager \<Rightarrow> 'w ClusterManager \<times> go_err" where
  "initCluster api cli clusterName c =
     (case MeetNodes api cli clusterName c of
        (c1, Some err) \<Rightarrow> (c1, Some (ErrorfV ''meet nodes fail'' err))
      | (c1, None) \<Rightarrow>
          (case findFirstClusterNode clusterName c1 of
             Inl err \<Rightarrow> (c1, Some err)
           | Inr loginNode \<Rightarrow>
               (case UpdateAfterMeet api loginNode clusterName c1 of
                  (c2, Some err) \<Rightarrow> (c2, Some err)
                | (c2, None) \<Rightarrow>
                    (case SetAllNodeRole api clusterName c2 of
                       (c3, Some err) \<Rightarrow> (c3, Some (wrapV ''set node type fail'' err))
                     | (c3, None) \<Rightarrow> AllocateSlots api clusterName c3))))"

definition Bootstrap ::
  "'w redis_api \<Rightarrow> int \<Rightarrow> string \<Rightarrow> 'w ClusterManager \<Rightarrow> ('w ClusterManager \<times> go_err) option" where
  "Bootstrap api shardCount clusterName c =
     (case createPodsForCluster api shardCount clusterName c of
        None \<Rightarrow> None
      | Some (c1, Some err) \<Rightarrow> Some (c1, Some err)
      | Some (c1, None) \<Rightarrow>
          (case connectToClusterNode clusterName c1 of
             Inl err \<Rightarrow> Some (c1, Some err)
           | Inr cli \<Rightarrow> Some (initCluster api cli clusterName c1)))"

section \<open>Adding shards\<close>

definition meetAndSyncNewNodes ::
  "'w redis_api \<Rightarrow> string \<Rightarrow> string \<Rightarrow> int \<Rightarrow> 'w ClusterManager \<Rightarrow> 'w ClusterManager \<times> go_err" where
  "meetAndSyncNewNodes api cli clusterName shardCount c =
     (case MeetNodes api cli clusterName c of
        (c1, Some err) \<Rightarrow> (c1, Some (ErrorfW ''meet nodes fail'' err))
      | (c1, None) \<Rightarrow>
          (case findExistingNode clusterName shardCount c1 of
             Inl err \<Rightarrow> (c1, Some err)
           | Inr loginNode \<Rightarrow> UpdateAfterMeet api loginNode clusterName c1))"

text \<open>The local variables of the loop of \<^verbatim>\<open>assignRolesToNewNodes\<close>.\<close>

record shard_vars =
  sv_IDToIP :: "string \<Rightarrow> string option"
  sv_count :: int
  sv_masterID :: string

definition set_m2s :: "(string, string list) gomap \<Rightarrow> 'w ClusterManager \<Rightarrow> 'w ClusterManager" where
  "set_m2s m c = c\<lparr>cm_roles := (cm_roles c)\<lparr>ro_masterToSlave := m\<rparr>\<rparr>"

text \<open>
  The loop over the indexes of the new nodes. The local map is the map of the manager itself.
  A master that is not in the index is appended to the empty masters as nil.
\<close>

fun new_roles_loop ::
  "int list \<Rightarrow> shard_vars \<Rightarrow> 'w ClusterManager \<Rightarrow> (shard_vars \<times> 'w ClusterManager) \<times> go_err" where
  "new_roles_loop [] v c = ((v, c), None)"
| "new_roles_loop (i # is) v c =
     (if i < 0 \<or> int (length (cm_GetNodes c)) \<le> i then ((v, c), Some (Panic ''index out of range''))
      else
        let ip = rn_ConIp (cm_GetNodes c ! nat i); ID = NodeIDByIP c ip;
            m = ro_masterToSlave (cm_roles c);
            cnt = (if sv_count v = cm_nodesPerShard c then 0 else sv_count v);
            v1 = v\<lparr>sv_IDToIP := (sv_IDToIP v)(ID \<mapsto> ip), sv_count := cnt + 1\<rparr>
        in if cnt = 0
           then new_roles_loop is (v1\<lparr>sv_masterID := ID\<rparr>)
                  (let c1 = set_m2s (AList.update ID [] m) c; t = cm_topo c1
                   in c1\<lparr>cm_topo := t\<lparr>tp_masterIDs := tp_masterIDs t @ [ID], tp_empty := tp_empty t @ [tp_nodes t ID]\<rparr>\<rparr>)
           else new_roles_loop is v1 (set_m2s (append_entry (sv_masterID v) ID m) c))"

fun replicate_slaves ::
  "'w redis_api \<Rightarrow> string \<Rightarrow> (string \<Rightarrow> string option) \<Rightarrow> string \<Rightarrow> string \<Rightarrow> string list \<Rightarrow> 'w ClusterManager \<Rightarrow>
     'w ClusterManager \<times> go_err" where
  "replicate_slaves api clusterName IDToIP masterID masterIP [] c = (c, None)"
| "replicate_slaves api clusterName IDToIP masterID masterIP (slaveID # rest) c =
     (let slaveIP = (case IDToIP slaveID of None \<Rightarrow> [] | Some ip \<Rightarrow> ip)
      in case SetNodeAsSlave api masterIP slaveIP clusterName c of
           (c1, Some err) \<Rightarrow> (c1, Some err)
         | (c1, None) \<Rightarrow>
             replicate_slaves api clusterName IDToIP masterID masterIP rest (mark_roles masterID slaveID c1))"

fun replicate_masters ::
  "'w redis_api \<Rightarrow> string \<Rightarrow> (string \<Rightarrow> string option) \<Rightarrow> (string, string list) gomap \<Rightarrow> string list \<Rightarrow> 'w ClusterManager \<Rightarrow>
     'w ClusterManager \<times> go_err" where
  "replicate_masters api clusterName IDToIP m2s [] c = (c, None)"
| "replicate_masters api clusterName IDToIP m2s (masterID # rest) c =
     (case IDToIP masterID of
        None \<Rightarrow> replicate_masters api clusterName IDToIP m2s rest c
      | Some masterIP \<Rightarrow>
          (case cm_GetNodeByHost c masterIP of
             None \<Rightarrow> replicate_masters api clusterName IDToIP m2s rest c
           | Some masterRuntime \<Rightarrow>
               if rn_ClusterName masterRuntime \<noteq> clusterName
               then replicate_masters api clusterName IDToIP m2s rest c
               else case replicate_slaves api clusterName IDToIP masterID masterIP
                           (case map_of m2s masterID of None \<Rightarrow> [] | Some slaves \<Rightarrow> slaves) c of
                      (c1, Some err) \<Rightarrow> (c1, Some err)
                    | (c1, None) \<Rightarrow> replicate_masters api clusterName IDToIP m2s rest c1))"

definition configureNewNodeReplication ::
  "'w redis_api \<Rightarrow> (string, string list) gomap \<Rightarrow> (string \<Rightarrow> string option) \<Rightarrow> string \<Rightarrow> 'w ClusterManager \<Rightarrow>
     'w ClusterManager \<times> go_err" where
  "configureNewNodeReplication api m2s IDToIP clusterName c =
     (case replicate_masters api clusterName IDToIP m2s (ra_range api (map fst m2s) (cm_world c)) c of
        (c1, Some err) \<Rightarrow> (c1, Some err)
      | (c1, None) \<Rightarrow>
          (case verifyNodeTypeSet api m2s clusterName c1 of
             (c2, Inl _) \<Rightarrow> (c2, Some (Errorf ''sync failed''))
           | (c2, Inr _) \<Rightarrow> (c2, None)))"

definition assignRolesToNewNodes ::
  "'w redis_api \<Rightarrow> string \<Rightarrow> int \<Rightarrow> 'w ClusterManager \<Rightarrow> 'w ClusterManager \<times> go_err" where
  "assignRolesToNewNodes api clusterName shardCount c =
     (let nodeSum = shardCount * cm_nodesPerShard c;
          newNodeStartIndex = cm_GetNodeCount c - nodeSum
      in case new_roles_loop [newNodeStartIndex..newNodeStartIndex + nodeSum - 1]
                \<lparr>sv_IDToIP = Map.empty, sv_count = 0, sv_masterID = []\<rparr> c of
           ((v, c1), Some e) \<Rightarrow> (c1, Some e)
         | ((v, c1), None) \<Rightarrow>
             configureNewNodeReplication api (ro_masterToSlave (cm_roles c1)) (sv_IDToIP v) clusterName c1)"

definition AddShards ::
  "'w redis_api \<Rightarrow> int \<Rightarrow> string \<Rightarrow> 'w ClusterManager \<Rightarrow> ('w ClusterManager \<times> go_err) option" where
  "AddShards api shardCount clusterName c =
     (case createPodsForNewShards api shardCount clusterName c of
        None \<Rightarrow> None
      | Some (c1, Some err) \<Rightarrow> Some (c1, Some err)
      | Some (c1, None) \<Rightarrow>
          (case connectToExistingNode clusterName shardCount c1 of
             Inl err \<Rightarrow> Some (c1, Some err)
           | Inr cli \<Rightarrow>
               (case meetAndSyncNewNodes api cli clusterName shardCount c1 of
                  (c2, Some err) \<Rightarrow> Some (c2, Some err)
                | (c2, None) \<Rightarrow>
                    Some (assignRolesToNewNodes api clusterName shardCount
                            (c2\<lparr>cm_topo := (cm_topo c2)\<lparr>tp_empty := []\<rparr>\<rparr>)))))"


section \<open>The example cluster\<close>

definition demo_met :: "RuntimeConfig \<Rightarrow> int ClusterManager" where
  "demo_met cfg = meet_node ''c1'' demo_slave (meet_node ''c1'' demo_master (demo_manager cfg))"

lemma demo_met_topo:
  "cm_nodeManager (demo_met cfg) = demo_pods cfg" "cm_nodesPerShard (demo_met cfg) = 2"
  "tp_list (cm_topo (demo_met cfg)) = [0, 1]" "cm_heap (demo_met cfg) 0 = demo_master"
  "cm_heap (demo_met cfg) (Suc 0) = demo_slave" "topo_inv (demo_met cfg)" "ro_set (cm_roles (demo_met cfg)) = (\<lambda>_. False)"
  "tp_nodes (cm_topo (demo_met cfg)) = [''m1'' \<mapsto> 0, ''s1'' \<mapsto> 1]"
  "tp_ipToID (cm_topo (demo_met cfg)) = [''10.0.0.2'' \<mapsto> ''m1'', ''10.0.0.3'' \<mapsto> ''s1'']"
  "tp_masterIDs (cm_topo (demo_met cfg)) = []"
proof -
  show "topo_inv (demo_met cfg)" unfolding demo_met_def demo_manager_def by (intro topo_inv_meet_node topo_inv_new)
qed (simp_all add: demo_met_def meet_node_def demo_manager_def NewClusterManager_def newTopology_def newRoles_def
    demo_master_def demo_slave_def Let_def)

lemma demo_base_inv: "base_inv (pm_base (demo_pods cfg))"
proof -
  have add: "base_inv (pm_base c) \<Longrightarrow> base_inv (pm_base (AddRuntimeNode n c))" for n c
    by (simp add: AddRuntimeNode_def Let_def base_inv_add)
  have "base_inv (pm_base (NewPodmanNodeManager cfg))" by (simp add: NewPodmanNodeManager_def base_inv_def)
  then show ?thesis unfolding demo_pods_def by (intro add)
qed

lemma demo_clock: "clock_runs (ra_podman demo_redis)"
  by (simp add: demo_redis_def demo_api_def clock_runs_def)

section \<open>Slot shares\<close>

lemma concat_shares:
  "0 \<le> q \<Longrightarrow> concat (map (\<lambda>i. [int i * q..int i * q + q - 1]) [0..<k]) = [0..int k * q - 1]"
proof (induction k)
  case (Suc k)
  have "[0..int (Suc k) * q - 1] = [0..int k * q - 1] @ [int k * q..int k * q + q - 1]"
    using Suc.prems upto_split1 [of 0 "int k * q" "int (Suc k) * q - 1"]
    by (cases "q = 0") (simp_all add: algebra_simps)
  then show ?case using Suc by simp
qed simp

text \<open>The shares of \<open>n\<close> masters are the slots in order, each once.\<close>

lemma master_slots_partition:
  assumes "0 < n"
  shows "concat (map (master_slots n) [0..<n]) = [0..TotalSlots - 1]"
proof -
  obtain k where n: "n = Suc k" using assms by (cases n) auto
  let ?q = "TotalSlots div int n"
  have q: "0 \<le> ?q" using n by (simp add: TotalSlots_def pos_imp_zdiv_nonneg_iff)
  have le: "int k * ?q \<le> TotalSlots"
  proof -
    have "int k * ?q \<le> int n * ?q" using q n by (simp add: mult_right_mono)
    also have "\<dots> \<le> TotalSlots" using n minus_mod_eq_mult_div [of TotalSlots "int n"] pos_mod_sign [of "int n" TotalSlots] by linarith
    finally show ?thesis .
  qed
  have m: "map (master_slots n) [0..<k] = map (\<lambda>i. [int i * ?q..int i * ?q + ?q - 1]) [0..<k]"
    by (simp add: master_slots_def Let_def n)
  have cc: "concat (map (master_slots n) [0..<k]) = [0..int k * ?q - 1]"
    unfolding m by (rule concat_shares [OF q])
  have last: "master_slots n k = [int k * ?q..TotalSlots - 1]" by (simp add: master_slots_def Let_def n)
  have "[0..<n] = [0..<k] @ [k]" by (simp add: n)
  then have "concat (map (master_slots n) [0..<n]) = [0..int k * ?q - 1] @ [int k * ?q..TotalSlots - 1]"
    using cc last by simp
  also have "\<dots> = [0..TotalSlots - 1]"
    using upto_split1 [of 0 "int k * ?q" "TotalSlots - 1"] le q by (cases "int k * ?q < TotalSlots") simp_all
  finally show ?thesis .
qed

lemma master_slots_length:
  assumes "i < n"
  shows "int (length (master_slots n i)) = expected_slots n i"
proof -
  have "int (n - 1) * (TotalSlots div int n) = TotalSlots - TotalSlots mod int n - TotalSlots div int n"
    using assms by (simp add: of_nat_diff left_diff_distrib minus_mod_eq_mult_div mult.commute)
  moreover have "0 \<le> TotalSlots div int n" "0 \<le> TotalSlots mod int n"
    using assms by (simp_all add: TotalSlots_def pos_imp_zdiv_nonneg_iff)
  ultimately show ?thesis
    by (cases "i = n - 1") (auto simp: master_slots_def expected_slots_def Let_def)
qed

text \<open>A successful loop has sent each master of the list its share.\<close>

definition add_slots_cmds :: "'w redis_api \<Rightarrow> (string \<times> int list) list \<Rightarrow> 'w \<Rightarrow> 'w" where
  "add_slots_cmds api cmds w = fold (\<lambda>(a, s) u. fst (ra_ClusterAddSlots api a s u)) cmds w"

definition master_client :: "'w ClusterManager \<Rightarrow> string \<Rightarrow> string option" where
  "master_client c i =
     (case ClusterNodeByID c i of None \<Rightarrow> None | Some n \<Rightarrow> map_option ClientConnAddr (cm_GetNodeByHost c (cn_IP n)))"

lemma assign_slots_loop_cmds:
  "assign_slots_loop api n is c = (c', None) \<Longrightarrow>
   \<exists>addrs. length addrs = length is
     \<and> list_all2 (\<lambda>i a. master_client c (tp_masterIDs (cm_topo c) ! i) = Some a) is addrs
     \<and> c' = c\<lparr>cm_world := add_slots_cmds api (zip addrs (map (master_slots n) is)) (cm_world c)\<rparr>"
proof (induction "is" arbitrary: c)
  case (Cons i "is")
  then obtain a port w1 where a: "tp_nodes (cm_topo c) (tp_masterIDs (cm_topo c) ! i) = Some a"
    and port: "cm_GetNodeByHost c (cn_IP (cm_heap c a)) = Some port"
    and w1: "ra_ClusterAddSlots api (ClientConnAddr port) (master_slots n i) (cm_world c) = (w1, None)"
    and rest: "assign_slots_loop api n is (c\<lparr>cm_world := w1\<rparr>) = (c', None)"
    by (auto simp: CreateRedisClient_def split: option.splits prod.splits)
  from Cons.IH [OF rest] obtain addrs where addrs: "length addrs = length is"
    "list_all2 (\<lambda>i a. master_client (c\<lparr>cm_world := w1\<rparr>) (tp_masterIDs (cm_topo c) ! i) = Some a) is addrs"
    "c' = c\<lparr>cm_world := add_slots_cmds api (zip addrs (map (master_slots n) is)) w1\<rparr>"
    by auto
  have mc: "master_client (c\<lparr>cm_world := w1\<rparr>) = master_client c"
    by (simp add: fun_eq_iff master_client_def ClusterNodeByID_def split: option.split)
  have "master_client c (tp_masterIDs (cm_topo c) ! i) = Some (ClientConnAddr port)"
    using a port by (simp add: master_client_def ClusterNodeByID_def)
  then show ?case
    using addrs w1 mc by (intro exI [of _ "ClientConnAddr port # addrs"]) (simp add: add_slots_cmds_def)
qed (simp add: add_slots_cmds_def)

text \<open>C1: a successful allocation sends every master exactly one share of the slots, in the order of
  the master ids, and the shares together are the slots 0 to 16383, each once; the size of
  each share is the one the later verification expects. There is no success without a master.\<close>

theorem assignSlotsToMasters_partition:
  assumes "assignSlotsToMasters api clusterName c = (c', None)"
  shows "\<exists>cmds. cm_world c' = add_slots_cmds api cmds (cm_world c)
    \<and> cmds \<noteq> [] \<and> concat (map snd cmds) = [0..16383]
    \<and> map (\<lambda>m. master_client c m) (tp_masterIDs (cm_topo c)) = map (Some \<circ> fst) cmds
    \<and> (\<forall>i < length cmds. int (length (snd (cmds ! i))) = expected_slots (length cmds) i)"
proof -
  let ?ids = "tp_masterIDs (cm_topo c)"
  let ?n = "length ?ids"
  have n: "0 < ?n" and loop: "assign_slots_loop api ?n [0..<?n] c = (c', None)"
    using assms by (auto simp: assignSlotsToMasters_def Let_def split: if_splits)
  obtain addrs where addrs: "length addrs = ?n"
    "list_all2 (\<lambda>i a. master_client c (?ids ! i) = Some a) [0..<?n] addrs"
    "c' = c\<lparr>cm_world := add_slots_cmds api (zip addrs (map (master_slots ?n) [0..<?n])) (cm_world c)\<rparr>"
    using assign_slots_loop_cmds [OF loop] by auto
  let ?cmds = "zip addrs (map (master_slots ?n) [0..<?n])"
  have "map (\<lambda>m. master_client c m) ?ids = map (Some \<circ> fst) ?cmds"
    using addrs(1,2) by (intro nth_equalityI) (auto simp: list_all2_conv_all_nth)
  moreover have "concat (map snd ?cmds) = [0..16383]"
    using master_slots_partition [OF n] addrs(1) by (simp add: TotalSlots_def)
  moreover have "\<forall>i < length ?cmds. int (length (snd (?cmds ! i))) = expected_slots (length ?cmds) i"
    using addrs(1) by (simp add: master_slots_length)
  moreover have "?cmds \<noteq> []" using n addrs(1) by (cases addrs) (auto simp: upt_rec)
  ultimately show ?thesis using addrs(3) by (intro exI [of _ ?cmds]) simp
qed

theorem assignSlotsToMasters_partition_witness:
  "\<forall>cfg. \<exists>c' cmds. assignSlotsToMasters demo_redis ''c1'' (AddNewMaster ''m1'' (demo_met cfg)) = (c', None)
     \<and> cm_world c' = add_slots_cmds demo_redis cmds (cm_world (AddNewMaster ''m1'' (demo_met cfg)))
     \<and> concat (map snd cmds) = [0..16383] \<and> length cmds = 1"
proof
  fix cfg
  let ?c = "AddNewMaster ''m1'' (demo_met cfg)"
  have m: "tp_masterIDs (cm_topo ?c) = [''m1'']" "tp_nodes (cm_topo ?c) ''m1'' = Some 0" "cm_heap ?c 0 = demo_master"
    "cm_nodeManager ?c = demo_pods cfg"
    by (simp_all add: AddNewMaster_def demo_met_topo)
  obtain n where "pm_GetNodeByHost (demo_pods cfg) (cn_IP demo_master) = Some n"
    using demo_by_host(2) [of cfg] by (auto simp: demo_master_def)
  then obtain c' where r: "assignSlotsToMasters demo_redis ''c1'' ?c = (c', None)"
    using m by (simp add: assignSlotsToMasters_def CreateRedisClient_def demo_redis_def)
  obtain cmds where "cm_world c' = add_slots_cmds demo_redis cmds (cm_world ?c)" "concat (map snd cmds) = [0..16383]"
    "map (\<lambda>m. master_client ?c m) (tp_masterIDs (cm_topo ?c)) = map (Some \<circ> fst) cmds"
    using assignSlotsToMasters_partition [OF r] by blast
  moreover from this(3) have "length cmds = 1" using m(1) by (auto dest: arg_cong [of _ _ length])
  ultimately show "\<exists>c' cmds. assignSlotsToMasters demo_redis ''c1'' ?c = (c', None)
     \<and> cm_world c' = add_slots_cmds demo_redis cmds (cm_world ?c) \<and> concat (map snd cmds) = [0..16383] \<and> length cmds = 1"
    using r by blast
qed

section \<open>The topology through the whole flow\<close>

text \<open>What setting a role leaves alone: the nodes, their indexes and the tracked containers.\<close>

definition same_nodes :: "'w ClusterManager \<Rightarrow> 'w ClusterManager \<Rightarrow> bool" where
  "same_nodes c d =
     (cm_heap d = cm_heap c \<and> cm_next d = cm_next c \<and> tp_nodes (cm_topo d) = tp_nodes (cm_topo c)
      \<and> tp_ipToID (cm_topo d) = tp_ipToID (cm_topo c) \<and> tp_list (cm_topo d) = tp_list (cm_topo c)
      \<and> tp_empty (cm_topo d) = tp_empty (cm_topo c) \<and> cm_meet d = cm_meet c
      \<and> cm_nodeManager d = cm_nodeManager c \<and> cm_nodesPerShard d = cm_nodesPerShard c)"

lemma same_nodes_refl [simp]: "same_nodes c c"
  by (simp add: same_nodes_def)

lemma same_nodes_trans: "same_nodes c d \<Longrightarrow> same_nodes d e \<Longrightarrow> same_nodes c e"
  by (simp add: same_nodes_def)

lemma same_nodes_inv: "same_nodes c d \<Longrightarrow> topo_inv c \<Longrightarrow> topo_inv d"
  by (rule topo_inv_cong [of c]) (auto simp: same_nodes_def dest: topo_invD)

lemma same_nodes_updates [simp]:
  "same_nodes c (d\<lparr>cm_world := w\<rparr>) = same_nodes c d"
  "same_nodes c (d\<lparr>cm_roles := r\<rparr>) = same_nodes c d"
  "same_nodes c (mark_roles m s d) = same_nodes c d"
  "same_nodes c (set_m2s m2s d) = same_nodes c d"
  "same_nodes c (d\<lparr>cm_topo := (cm_topo d)\<lparr>tp_masterIDs := ms\<rparr>\<rparr>) = same_nodes c d"
  "same_nodes c (d\<lparr>cm_roles := r, cm_topo := (cm_topo d)\<lparr>tp_masterIDs := ms\<rparr>\<rparr>) = same_nodes c d"
  "same_nodes c (d\<lparr>cm_roles := r, cm_topo := (cm_topo d)\<lparr>tp_masterIDs := ms, tp_masterSet := s'\<rparr>\<rparr>) = same_nodes c d"
  "same_nodes c (d\<lparr>cm_topo := (cm_topo d)\<lparr>tp_masterIDs := ms, tp_masterSet := s'\<rparr>, cm_roles := r\<rparr>) = same_nodes c d"
  by (simp_all add: same_nodes_def mark_roles_def set_m2s_def)

lemma same_nodes_GetClusterNodes: "GetClusterNodes api l cn d = (e, r) \<Longrightarrow> same_nodes c e = same_nodes c d"
  using GetClusterNodes_same [of api l cn d e r] by (simp add: same_nodes_def)

lemma same_nodes_masters: "same_nodes c (fold add_master ms d) = same_nodes c d"
  by (induction ms arbitrary: d) (simp_all add: add_master_def same_nodes_def)

lemma same_nodes_slaves: "same_nodes c (fst (add_slaves ss d)) = same_nodes c d"
  by (induction ss d rule: add_slaves.induct) simp_all

lemma same_nodes_build: "same_nodes c (fst (buildMasterSlaveTopology ms ss d)) = same_nodes c d"
  using same_nodes_slaves [of c ss "fold add_master ms d"]
  by (cases "add_slaves ss (fold add_master ms d)")
     (auto simp: buildMasterSlaveTopology_def same_nodes_masters split: option.split)

lemma same_nodes_roles: "same_nodes c (fst (UpdateAfterSetNodeRole api l cn d)) = same_nodes c d"
  by (auto simp: UpdateAfterSetNodeRole_def Let_def same_nodes_build same_nodes_GetClusterNodes
      split: prod.split sum.split)

lemma ro_set_build: "ro_set (cm_roles (fst (buildMasterSlaveTopology ms ss d))) = ro_set (cm_roles d)"
proof -
  have 1: "ro_set (cm_roles (fold add_master ms d)) = ro_set (cm_roles d)"
    by (induction ms arbitrary: d) (simp_all add: add_master_def)
  have "ro_set (cm_roles (fst (add_slaves ss d))) = ro_set (cm_roles d)" for d :: "'a ClusterManager"
    by (induction ss d rule: add_slaves.induct) simp_all
  from this [of "fold add_master ms d"] 1 show ?thesis
    by (cases "add_slaves ss (fold add_master ms d)") (auto simp: buildMasterSlaveTopology_def split: option.split)
qed

lemma ro_set_roles: "ro_set (cm_roles (fst (UpdateAfterSetNodeRole api l cn d))) = ro_set (cm_roles d)"
  by (auto simp: UpdateAfterSetNodeRole_def Let_def ro_set_build GetClusterNodes_same split: prod.split sum.split)

lemma SetNodeAsSlave_frame:
  assumes "SetNodeAsSlave api m s cn d = (e, r)"
  shows "same_nodes c e = same_nodes c d" "ro_set (cm_roles e) = ro_set (cm_roles d)"
proof -
  have "e = d \<or> (\<exists>w. e = d\<lparr>cm_world := w\<rparr>) \<or>
      (\<exists>w l. e = fst (UpdateAfterSetNodeRole api l cn (d\<lparr>cm_world := w\<rparr>)))"
    using assms unfolding SetNodeAsSlave_def Let_def
    by (auto split: sum.splits prod.splits option.splits if_splits) (metis fst_conv)
  then show "same_nodes c e = same_nodes c d" "ro_set (cm_roles e) = ro_set (cm_roles d)"
    by (auto simp: same_nodes_roles ro_set_roles)
qed

section \<open>Who replicates whom\<close>

text \<open>The nodes of one cluster with distinct addresses, as \<^verbatim>\<open>UpdateAfterMeet\<close> leaves them.\<close>

definition uniform :: "string \<Rightarrow> 'w ClusterManager \<Rightarrow> bool" where
  "uniform cn c =
     (topo_inv c \<and> inj_on (\<lambda>a. cn_IP (cm_heap c a)) (set (tp_list (cm_topo c)))
      \<and> (\<forall>a \<in> set (tp_list (cm_topo c)). cn_ClusterName (cm_heap c a) = cn))"

definition node_id :: "'w ClusterManager \<Rightarrow> nat \<Rightarrow> string" where
  "node_id c j = cn_ID (cm_heap c (tp_list (cm_topo c) ! j))"

lemma NodeIDByIP_nth:
  assumes "uniform cn c" "j < length (tp_list (cm_topo c))"
  shows "NodeIDByIP c (cn_IP (cm_heap c (tp_list (cm_topo c) ! j))) = node_id c j"
proof -
  let ?a = "tp_list (cm_topo c) ! j"
  have inv: "topo_inv c" and a: "?a \<in> set (tp_list (cm_topo c))"
    using assms by (simp_all add: uniform_def)
  then obtain i where i: "tp_ipToID (cm_topo c) (cn_IP (cm_heap c ?a)) = Some i"
    using topo_invD(5) [OF inv a] by auto
  obtain b where "b \<in> set (tp_list (cm_topo c))" "cn_ID (cm_heap c b) = i" "cn_IP (cm_heap c b) = cn_IP (cm_heap c ?a)"
    using topo_invD(4) [OF inv i] by blast
  then have "cn_ID (cm_heap c ?a) = i"
    using assms(1) a unfolding uniform_def inj_on_def by blast
  then show ?thesis using i by (simp add: NodeIDByIP_def node_id_def)
qed

lemma node_id_inj:
  assumes "topo_inv c" "i < length (tp_list (cm_topo c))" "j < length (tp_list (cm_topo c))"
  shows "node_id c i = node_id c j \<longleftrightarrow> i = j"
proof
  assume eq: "node_id c i = node_id c j"
  have "tp_nodes (cm_topo c) (node_id c i) = Some (tp_list (cm_topo c) ! i)"
    "tp_nodes (cm_topo c) (node_id c j) = Some (tp_list (cm_topo c) ! j)"
    unfolding topo_invD(3) [OF assms(1)] using assms(2,3) by (simp_all add: node_id_def)
  then have "tp_list (cm_topo c) ! i = tp_list (cm_topo c) ! j" unfolding eq by simp
  then show "i = j" using nth_eq_iff_index_eq [OF topo_invD(1) [OF assms(1)] assms(2,3)] by simp
qed simp

lemma same_nodes_ids:
  "same_nodes c d \<Longrightarrow> node_id d = node_id c" "same_nodes c d \<Longrightarrow> NodeIDByIP d = NodeIDByIP c"
  "same_nodes c d \<Longrightarrow> cm_heap d = cm_heap c" "same_nodes c d \<Longrightarrow> tp_list (cm_topo d) = tp_list (cm_topo c)"
  "same_nodes c d \<Longrightarrow> cm_nodesPerShard d = cm_nodesPerShard c"
  by (simp_all add: same_nodes_def fun_eq_iff node_id_def NodeIDByIP_def)

lemma update_last: "k \<notin> fst ` set m \<Longrightarrow> AList.update k v (m @ [(k, u)]) = m @ [(k, v)]"
  "k \<notin> fst ` set m \<Longrightarrow> AList.update k v m = m @ [(k, v)]"
  by (induction m) auto

lemma append_last: "k \<notin> fst ` set m \<Longrightarrow> append_entry k v (m @ [(k, vs)]) = m @ [(k, vs @ [v])]"
proof -
  assume k: "k \<notin> fst ` set m"
  then have "map_of m k = None" by (simp add: map_of_eq_None_iff)
  then show ?thesis using k by (simp add: append_entry_def update_last map_add_def)
qed

lemma assign_slaves_plan:
  assumes "uniform cn c0"
  shows "assign_slaves api cn ip M js (m @ [(M, vs)], c) = ((m', c'), None) \<Longrightarrow> same_nodes c0 c \<Longrightarrow>
    M \<notin> fst ` set m \<Longrightarrow> distinct js \<Longrightarrow> M \<notin> node_id c0 ` set js \<Longrightarrow>
    \<forall>j \<in> set js. j < length (tp_list (cm_topo c0)) \<and> \<not> ro_set (cm_roles c) (node_id c0 j) \<Longrightarrow>
    m' = m @ [(M, vs @ map (node_id c0) js)] \<and> same_nodes c0 c'
    \<and> (\<forall>x. ro_set (cm_roles c') x \<longrightarrow> ro_set (cm_roles c) x \<or> x = M \<or> x \<in> node_id c0 ` set js)"
proof (induction js arbitrary: vs c)
  case (Cons j js)
  let ?n = "cm_heap c0 (tp_list (cm_topo c0) ! j)"
  have j: "j < length (tp_list (cm_topo c0))" "\<not> ro_set (cm_roles c) (node_id c0 j)" using Cons.prems(6) by auto
  have node: "cn_ClusterName ?n = cn" using assms j(1) by (simp add: uniform_def)
  have sid: "NodeIDByIP c0 (cn_IP ?n) = node_id c0 j" by (rule NodeIDByIP_nth [OF assms j(1)])
  note ids = same_nodes_ids [OF Cons.prems(2)]
  obtain c1 e where s: "SetNodeAsSlave api ip (cn_IP ?n) cn c = (c1, e)" by fastforce
  have step: "assign_slaves api cn ip M (j # js) (m @ [(M, vs)], c) = (case e of Some x \<Rightarrow> ((m @ [(M, vs @ [node_id c0 j])], c1), Some x)
      | None \<Rightarrow> assign_slaves api cn ip M js (m @ [(M, vs @ [node_id c0 j])], mark_roles M (node_id c0 j) c1))"
    using j(2) node by (simp add: ids(2-) sid s append_last [OF Cons.prems(3)] Let_def)
  have e: "e = None" and rest: "assign_slaves api cn ip M js (m @ [(M, vs @ [node_id c0 j])], mark_roles M (node_id c0 j) c1) = ((m', c'), None)"
    using Cons.prems(1) step by (cases e; simp)+
  have same: "same_nodes c0 (mark_roles M (node_id c0 j) c1)"
    using SetNodeAsSlave_frame(1) [OF s, of c0] Cons.prems(2) by simp
  have set1: "ro_set (cm_roles (mark_roles M (node_id c0 j) c1)) x \<longleftrightarrow> ro_set (cm_roles c) x \<or> x = M \<or> x = node_id c0 j" for x
    using SetNodeAsSlave_frame(2) [OF s] by (simp add: mark_roles_def)
  have inv: "topo_inv c0" using assms by (simp add: uniform_def)
  have ne: "node_id c0 k \<noteq> M \<and> node_id c0 k \<noteq> node_id c0 j" if "k \<in> set js" for k
    using that Cons.prems(4,5,6) node_id_inj [OF inv, of k j] by auto
  have prem: "\<forall>k \<in> set js. k < length (tp_list (cm_topo c0)) \<and>
      \<not> ro_set (cm_roles (mark_roles M (node_id c0 j) c1)) (node_id c0 k)"
    using Cons.prems(6) ne by (simp add: set1)
  show ?case
  proof (intro conjI allI impI)
    have IH: "m' = m @ [(M, (vs @ [node_id c0 j]) @ map (node_id c0) js)] \<and> same_nodes c0 c'
      \<and> (\<forall>x. ro_set (cm_roles c') x \<longrightarrow> ro_set (cm_roles (mark_roles M (node_id c0 j) c1)) x \<or> x = M \<or> x \<in> node_id c0 ` set js)"
      using Cons.IH [OF rest same Cons.prems(3) _ _ prem] Cons.prems(4,5) by simp
    then show "m' = m @ [(M, vs @ map (node_id c0) (j # js))]" "same_nodes c0 c'" by simp_all
    fix x assume "ro_set (cm_roles c') x"
    then show "ro_set (cm_roles c) x \<or> x = M \<or> x \<in> node_id c0 ` set (j # js)"
      using IH set1 [of x] by auto
  qed
qed simp

text \<open>The plan: master \<open>i\<close> of \<open>n\<close> gets the \<open>i\<close>-th block of \<open>r\<close> of the nodes after the masters.\<close>

definition role_plan :: "'w ClusterManager \<Rightarrow> nat \<Rightarrow> nat \<Rightarrow> nat \<Rightarrow> string \<times> string list" where
  "role_plan c n r i = (node_id c i, map (node_id c) [n + i * r..<n + i * r + r])"

lemma block_bound: "i < n \<Longrightarrow> n * Suc r \<le> len \<Longrightarrow> n + i * r + r \<le> (len :: nat)"
proof -
  assume i: "i < n" and len: "n * Suc r \<le> len"
  have "Suc i * r \<le> n * r" using i by (intro mult_right_mono) auto
  then show ?thesis using len by simp
qed

lemma assign_masters_plan:
  assumes u: "uniform cn c0" and r: "cm_nodesPerShard c0 = int (Suc r)"
    and len: "n * Suc r \<le> length (tp_list (cm_topo c0))"
  shows "assign_masters api cn n [k..<n] (map (role_plan c0 n r) [0..<k], c) = ((m', c'), None) \<Longrightarrow>
    same_nodes c0 c \<Longrightarrow> k \<le> n \<Longrightarrow>
    \<forall>x. ro_set (cm_roles c) x \<longrightarrow> x \<in> node_id c0 ` ({..<k} \<union> {n..<n + k * r}) \<Longrightarrow>
    m' = map (role_plan c0 n r) [0..<n] \<and> same_nodes c0 c'"
proof (induction "n - k" arbitrary: k c)
  case 0
  then show ?case by simp
next
  case (Suc d)
  have k: "k < n" using Suc.hyps(2) by simp
  let ?L = "length (tp_list (cm_topo c0))" and ?js = "[n + k * r..<n + k * r + r]"
  have inv: "topo_inv c0" using u by (simp add: uniform_def)
  note bound = block_bound [OF k len]
  have kL: "k < ?L" using k bound by simp
  let ?node = "cm_heap c0 (tp_list (cm_topo c0) ! k)"
  have node: "cn_ClusterName ?node = cn" using u kL by (simp add: uniform_def)
  note mid = NodeIDByIP_nth [OF u kL] and ids = same_nodes_ids [OF Suc.prems(2)]
  let ?m = "map (role_plan c0 n r) [0..<k]" and ?M = "node_id c0 k"
  have fresh: "?M \<notin> fst ` set ?m"
    using kL by (auto simp: role_plan_def node_id_inj [OF inv])
  let ?c1 = "c\<lparr>cm_topo := (cm_topo c)\<lparr>tp_masterIDs := tp_masterIDs (cm_topo c) @ [?M]\<rparr>\<rparr>"
  obtain m1 c1 e where s: "assign_slaves api cn (cn_IP ?node) ?M ?js (?m @ [(?M, [])], ?c1) = ((m1, c1), e)"
    by (metis prod.collapse)
  have range: "[n + k * r..<min (n + k * r + nat (cm_nodesPerShard c0) - 1) ?L] = ?js"
    using bound r by (simp add: min_def nat_add_distrib)
  have step: "assign_masters api cn n [k..<n] (?m, c) = (case e of Some x \<Rightarrow> ((m1, c1), Some x)
      | None \<Rightarrow> assign_masters api cn n [Suc k..<n] (m1, c1))"
    using k node s range r
    by (simp add: upt_conv_Cons assign_master_def ids(2-) mid update_last(2) [OF fresh] Let_def)
  have e: "e = None" and rest: "assign_masters api cn n [Suc k..<n] (m1, c1) = ((m', c'), None)"
    using Suc.prems(1) step by (cases e; simp)+
  have notset: "\<forall>j \<in> set ?js. j < ?L \<and> \<not> ro_set (cm_roles ?c1) (node_id c0 j)"
    using Suc.prems(4) bound k by (auto simp: node_id_inj [OF inv])
  have "?M \<notin> node_id c0 ` set ?js" using kL bound k by (auto simp: node_id_inj [OF inv])
  note plan = assign_slaves_plan [OF u s [unfolded e] _ fresh distinct_upt this notset]
  have m1: "m1 = map (role_plan c0 n r) [0..<Suc k]" and same: "same_nodes c0 c1"
    using plan Suc.prems(2) by (simp_all add: role_plan_def)
  have "\<forall>x. ro_set (cm_roles c1) x \<longrightarrow> x \<in> node_id c0 ` ({..<Suc k} \<union> {n..<n + Suc k * r})"
  proof (intro allI impI)
    fix x assume "ro_set (cm_roles c1) x"
    then have "ro_set (cm_roles c) x \<or> x = ?M \<or> x \<in> node_id c0 ` set ?js" using plan Suc.prems(2) by simp
    moreover have "{n..<n + k * r} \<subseteq> {n..<n + Suc k * r}" "set ?js \<subseteq> {n..<n + Suc k * r}" by auto
    ultimately show "x \<in> node_id c0 ` ({..<Suc k} \<union> {n..<n + Suc k * r})"
      using Suc.prems(4) by (force simp: image_Un lessThan_Suc)
  qed
  from Suc.hyps(1) [OF _ rest [unfolded m1] same _ this] Suc.hyps(2) k show ?case by simp
qed

lemma check_type_loop_ok:
  "check_type_loop api node m cn n c = (c', Inr ok) \<Longrightarrow> ok \<and> equalClusterNodeType m (ro_masterToSlave (cm_roles c'))"
  by (induction n arbitrary: c) (auto split: prod.splits option.splits if_splits)

lemma verify_type_loop_ok:
  "verify_type_loop api m cn nodes c = (c', Inr ok) \<Longrightarrow> \<exists>n \<in> set nodes. rn_ClusterName n = cn \<Longrightarrow>
   equalClusterNodeType m (ro_masterToSlave (cm_roles c'))"
proof (induction nodes arbitrary: c)
  case (Cons a nodes)
  show ?case
  proof (cases "rn_ClusterName a = cn")
    case True
    obtain c1 r where s: "checkNodeTypeWithRetry api a m cn c = (c1, r)" by fastforce
    then obtain ok1 where r: "r = Inr ok1" using Cons.prems(1) True by (cases r) auto
    have ok1: "ok1" "equalClusterNodeType m (ro_masterToSlave (cm_roles c1))"
      using s r check_type_loop_ok unfolding checkNodeTypeWithRetry_def by metis+
    then have rest: "verify_type_loop api m cn nodes c1 = (c', Inr ok)"
      using Cons.prems(1) True s r by simp
    show ?thesis
    proof (cases "\<exists>n \<in> set nodes. rn_ClusterName n = cn")
      case True
      then show ?thesis by (rule Cons.IH [OF rest])
    next
      case False
      then have "verify_type_loop api m cn nodes c1 = (c1, Inr True)"
        by (induction nodes) auto
      then show ?thesis using rest ok1 by simp
    qed
  next
    case False
    then show ?thesis using Cons.prems by (intro Cons.IH [of c]) auto
  qed
qed simp

lemma equalClusterNodeType_keys:
  assumes "equalClusterNodeType m1 m2" "distinct (map fst m1)"
  shows "fst ` set m2 = fst ` set m1" "(k, v) \<in> set m1 \<Longrightarrow> \<exists>v2. map_of m2 k = Some v2 \<and> length v2 = length v"
proof -
  have len: "length m1 = length m2" and all: "\<forall>(k, v) \<in> set m1. \<exists>v2. map_of m2 k = Some v2 \<and> length v2 = length v"
    using assms(1) by (auto simp: equalClusterNodeType_def list_all_iff split: if_splits option.splits)
  have sub: "fst ` set m1 \<subseteq> fst ` set m2"
  proof
    fix k assume "k \<in> fst ` set m1"
    then obtain v where "(k, v) \<in> set m1" by auto
    then obtain v2 where "map_of m2 k = Some v2" using all by blast
    then show "k \<in> fst ` set m2" by (metis map_of_SomeD fst_conv image_eqI)
  qed
  have "card (fst ` set m2) \<le> card (fst ` set m1)"
    using len card_length [of "map fst m2"] distinct_card [OF assms(2)] by simp
  then show "fst ` set m2 = fst ` set m1" using card_seteq [OF _ sub] by simp
  show "(k, v) \<in> set m1 \<Longrightarrow> \<exists>v2. map_of m2 k = Some v2 \<and> length v2 = length v" using all by auto
qed

text \<open>C21: when the roles of a fresh cluster were set without error, the node asked last reports exactly
  the planned masters, which are the first nodes in the order of addresses, and each of them
  has the planned number of slaves.\<close>

theorem SetAllNodeRole_shape:
  assumes "SetAllNodeRole api clusterName c = (c', None)"
    and "uniform clusterName c" and "cm_nodesPerShard c = int (Suc r)"
    and "\<forall>x. \<not> ro_set (cm_roles c) x" and "hasCluster clusterName (pm_base (cm_nodeManager c))"
  shows "let n = length (tp_list (cm_topo c)) div Suc r; m2s = ro_masterToSlave (cm_roles c') in
    fst ` set m2s = node_id c ` {..<n}
    \<and> (\<forall>i < n. \<exists>slaves. map_of m2s (node_id c i) = Some slaves \<and> length slaves = r)"
proof -
  let ?n = "length (tp_list (cm_topo c)) div Suc r" and ?m2s = "ro_masterToSlave (cm_roles c')"
  have len: "?n * Suc r \<le> length (tp_list (cm_topo c))" by (rule div_times_less_eq_dividend)
  obtain m1 c1 e where a: "assignMastersAndSlaves api clusterName [] c = ((m1, c1), e)" by (metis prod.collapse)
  have e: "e = None" using assms(1) a by (cases e) (auto simp: SetAllNodeRole_def)
  obtain r' where v: "verifyNodeTypeSet api m1 clusterName c1 = (c', Inr r')"
    using assms(1) a e by (auto simp: SetAllNodeRole_def split: prod.splits sum.splits)
  have loop: "assign_masters api clusterName ?n [0..<?n] (map (role_plan c ?n r) [0..<0], c) = ((m1, c1), None)"
    using a e assms(3) by (simp add: assignMastersAndSlaves_def nat_add_distrib Let_def)
  have plan: "m1 = map (role_plan c ?n r) [0..<?n]" and same: "same_nodes c c1"
    using assign_masters_plan [OF assms(2,3) len loop same_nodes_refl] assms(4) by simp_all
  have inv: "topo_inv c" using assms(2) by (simp add: uniform_def)
  have iL: "i < ?n \<Longrightarrow> i < length (tp_list (cm_topo c))" for i using block_bound [OF _ len, of i] by simp
  have d: "distinct (map fst m1)"
    using iL by (auto simp: plan role_plan_def distinct_map inj_on_def node_id_inj [OF inv])
  have nodes: "\<exists>n \<in> set (cm_GetNodes c1). rn_ClusterName n = clusterName"
    using assms(5) same by (auto simp: hasCluster_def same_nodes_def pm_GetNodes_def getNodes_def list_ex_iff)
  have eq: "equalClusterNodeType m1 ?m2s"
    using verify_type_loop_ok [OF _ nodes] v unfolding verifyNodeTypeSet_def by blast
  have "fst ` set ?m2s = node_id c ` {..<?n}"
    using equalClusterNodeType_keys(1) [OF eq d] by (auto simp: plan role_plan_def image_image)
  moreover have "\<exists>slaves. map_of ?m2s (node_id c i) = Some slaves \<and> length slaves = r" if "i < ?n" for i
    using equalClusterNodeType_keys(2) [OF eq d, of "node_id c i" "map (node_id c) [?n + i * r..<?n + i * r + r]"] that
    by (auto simp: plan role_plan_def)
  ultimately show ?thesis by (simp add: Let_def)
qed

lemma demo_roles:
  assumes "cm_nodeManager c = demo_pods cfg"
  obtains c' where "UpdateAfterSetNodeRole demo_redis l ''c1'' c = (c', None)"
    "ro_masterToSlave (cm_roles c') = [(''m1'', [''s1''])]" "same_nodes c c'"
proof -
  let ?r = "UpdateAfterSetNodeRole demo_redis l ''c1'' c"
  have "cm_GetNodeCount c = 2" using assms demo_count [of cfg] by (simp add: demo_manager_def NewClusterManager_def)
  then have "snd ?r = None \<and> ro_masterToSlave (cm_roles (fst ?r)) = [(''m1'', [''s1''])]"
    using assms
    by (simp add: UpdateAfterSetNodeRole_def demo_reads [where cfg = cfg] classifyNodesByType_eq
        buildMasterSlaveTopology_def add_master_def append_entry_def demo_master_def demo_slave_def)
  then show thesis using that [of "fst ?r"] same_nodes_roles [of c demo_redis l "''c1''" c]
    by (metis prod.collapse same_nodes_refl)
qed

lemma demo_slave_set:
  assumes "cm_nodeManager c = demo_pods cfg"
  obtains c' where "SetNodeAsSlave demo_redis ip ''10.0.0.3'' ''c1'' c = (c', None)" "same_nodes c c'"
proof -
  obtain n where n: "pm_GetNodeByHost (demo_pods cfg) ''10.0.0.3'' = Some n" using demo_by_host(3) by blast
  have ne: "pm_GetNodes (demo_pods cfg) \<noteq> []" using demo_by_host(1) [of cfg] by auto
  let ?c = "c\<lparr>cm_world := cm_world c\<rparr>"
  obtain c' where "UpdateAfterSetNodeRole demo_redis (pm_GetNodes (demo_pods cfg) ! 0) ''c1'' c = (c', None)" "same_nodes c c'"
    using demo_roles [OF assms, of "pm_GetNodes (demo_pods cfg) ! 0"] by metis
  then show thesis using that [of c'] n ne assms
    by (simp add: SetNodeAsSlave_def connectToSlaveNode_def CreateRedisClient_def demo_redis_def)
qed

lemma demo_verify:
  "cm_nodeManager c = demo_pods cfg \<Longrightarrow> \<exists>c'. verify_type_loop demo_redis [(''m1'', [''s1''])] ''c1'' nodes c = (c', Inr True)"
proof (induction nodes arbitrary: c)
  case (Cons node nodes)
  obtain c' where c': "UpdateAfterSetNodeRole demo_redis node ''c1'' c = (c', None)"
    "ro_masterToSlave (cm_roles c') = [(''m1'', [''s1''])]" "same_nodes c c'"
    by (rule demo_roles [OF Cons.prems])
  have "10 = Suc 9" by simp
  then have "checkNodeTypeWithRetry demo_redis node [(''m1'', [''s1''])] ''c1'' c = (c', Inr True)"
    using c' by (simp only: checkNodeTypeWithRetry_def check_type_loop.simps) (simp add: equalClusterNodeType_def)
  then show ?case using Cons c'(3) by (auto simp: same_nodes_def)
qed simp

lemma demo_SetAllNodeRole: "\<exists>c'. SetAllNodeRole demo_redis ''c1'' (demo_met cfg) = (c', None)"
proof -
  let ?c = "demo_met cfg"
  let ?c1 = "?c\<lparr>cm_topo := (cm_topo ?c)\<lparr>tp_masterIDs := [''m1'']\<rparr>\<rparr>"
  have nodes: "cn_ClusterName demo_master = ''c1''" "cn_ClusterName demo_slave = ''c1''"
    "cn_IP demo_master = ''10.0.0.2''" "cn_IP demo_slave = ''10.0.0.3''"
    by (simp_all add: demo_master_def demo_slave_def)
  obtain c2 where c2: "SetNodeAsSlave demo_redis ''10.0.0.2'' ''10.0.0.3'' ''c1'' ?c1 = (c2, None)" "same_nodes ?c1 c2"
    by (rule demo_slave_set [of ?c1 cfg]) (simp add: demo_met_topo)
  let ?c3 = "mark_roles ''m1'' ''s1'' c2"
  have ids: "NodeIDByIP ?c ''10.0.0.2'' = ''m1''" "NodeIDByIP ?c1 ''10.0.0.3'' = ''s1''"
    by (simp_all add: NodeIDByIP_def demo_met_topo)
  have a: "assignMastersAndSlaves demo_redis ''c1'' [] ?c = (([(''m1'', [''s1''])], ?c3), None)"
    using c2(1) ids by (simp add: assignMastersAndSlaves_def assign_master_def demo_met_topo nodes append_entry_def Let_def upt_rec)
  have "cm_nodeManager ?c3 = demo_pods cfg"
    using c2(2) by (simp add: same_nodes_def mark_roles_def demo_met_topo)
  then obtain c4 where "verifyNodeTypeSet demo_redis [(''m1'', [''s1''])] ''c1'' ?c3 = (c4, Inr True)"
    using demo_verify [of ?c3 cfg "cm_GetNodes ?c3"] by (auto simp: verifyNodeTypeSet_def)
  then show ?thesis using a by (simp add: SetAllNodeRole_def)
qed

theorem SetAllNodeRole_shape_witness:
  "\<forall>cfg. \<exists>c'. SetAllNodeRole demo_redis ''c1'' (demo_met cfg) = (c', None)
     \<and> fst ` set (ro_masterToSlave (cm_roles c')) = {''m1''}"
proof
  fix cfg
  obtain c' where r: "SetAllNodeRole demo_redis ''c1'' (demo_met cfg) = (c', None)" using demo_SetAllNodeRole by blast
  have "uniform ''c1'' (demo_met cfg)"
    by (simp add: uniform_def demo_met_topo) (simp add: demo_master_def demo_slave_def)
  moreover have "hasCluster ''c1'' (pm_base (cm_nodeManager (demo_met cfg)))"
    by (simp add: demo_met_topo demo_pods_def AddRuntimeNode_def Let_def hasCluster_def demo_node_def)
  ultimately have "fst ` set (ro_masterToSlave (cm_roles c')) = node_id (demo_met cfg) ` {..<1}"
    using SetAllNodeRole_shape [OF r, of 1] by (simp add: demo_met_topo Let_def)
  also have "\<dots> = {''m1''}" by (simp add: node_id_def demo_met_topo demo_master_def lessThan_Suc)
  finally show "\<exists>c'. SetAllNodeRole demo_redis ''c1'' (demo_met cfg) = (c', None)
     \<and> fst ` set (ro_masterToSlave (cm_roles c')) = {''m1''}" using r by blast
qed

section \<open>The invariant of the manager\<close>

text \<open>The topology and the tracked containers are consistent.\<close>

definition cm_inv :: "'w ClusterManager \<Rightarrow> bool" where
  "cm_inv c = (topo_inv c \<and> base_inv (pm_base (cm_nodeManager c)))"

lemma same_nodes_cm_inv: "same_nodes c d \<Longrightarrow> cm_inv c \<Longrightarrow> cm_inv d"
  using same_nodes_inv [of c d] by (simp add: cm_inv_def same_nodes_def)

lemma cm_inv_world [simp]: "cm_inv (c\<lparr>cm_world := w\<rparr>) = cm_inv c"
  by (simp add: cm_inv_def)

lemma nodeManager_GetClusterNodes:
  "GetClusterNodes api l cn c = (c1, r) \<Longrightarrow> cm_nodeManager c1 = cm_nodeManager c"
  by (rule GetClusterNodes_same)

lemma nodeManager_fold:
  "cm_nodeManager (fold (meet_node cn) nodes c) = cm_nodeManager c"
  "cm_nodeManager (fold update_slot nodes c) = cm_nodeManager c"
  by (induction nodes arbitrary: c) (simp_all add: meet_node_def update_slot_def Let_def split: option.split)

lemma cm_inv_UpdateAfterMeet: "cm_inv c \<Longrightarrow> cm_inv (fst (UpdateAfterMeet api l cn c))"
  using topo_inv_UpdateAfterMeet [of c api l cn]
  by (auto simp: cm_inv_def UpdateAfterMeet_def SortInfo_def Let_def nodeManager_fold nodeManager_GetClusterNodes
      split: prod.split sum.split)

lemma cm_inv_UpdateSlots: "cm_inv c \<Longrightarrow> cm_inv (fst (UpdateSlots api l cn c))"
  using topo_inv_UpdateSlots [of c api l cn]
  by (auto simp: cm_inv_def UpdateSlots_def Let_def nodeManager_fold nodeManager_GetClusterNodes
      split: prod.split sum.split dest: nodeManager_GetClusterNodes)

lemma same_nodes_MeetNodes: "same_nodes c (fst (MeetNodes api cli cn d)) = same_nodes c d"
  by (auto simp: MeetNodes_def sendMeetCommands_def waitForAllMeetSync_def Let_def split: prod.split option.split)

lemma same_nodes_assign_slaves:
  "same_nodes c d \<Longrightarrow> same_nodes c (snd (fst (assign_slaves api cn ip M js (m, d))))"
proof (induction js arbitrary: m d)
  case (Cons j js)
  obtain c1 e where s: "SetNodeAsSlave api ip (cn_IP (cm_heap d (tp_list (cm_topo d) ! j))) cn d = (c1, e)" by fastforce
  have "same_nodes c c1" using SetNodeAsSlave_frame(1) [OF s] Cons.prems by simp
  then show ?case using Cons s by (cases e) (simp_all add: Let_def)
qed simp

lemma same_nodes_assign_masters:
  "same_nodes c d \<Longrightarrow> same_nodes c (snd (fst (assign_masters api cn n is (m, d))))"
proof (induction "is" arbitrary: m d)
  case (Cons i "is")
  let ?node = "cm_heap d (tp_list (cm_topo d) ! i)"
  let ?ip = "cn_IP ?node" and ?M = "NodeIDByIP d (cn_IP ?node)"
  let ?d = "d\<lparr>cm_topo := (cm_topo d)\<lparr>tp_masterIDs := tp_masterIDs (cm_topo d) @ [?M]\<rparr>\<rparr>"
  let ?js = "[n + i * nat (cm_nodesPerShard d - 1)..<min (n + i * nat (cm_nodesPerShard d - 1) + nat (cm_nodesPerShard d) - 1)
      (length (tp_list (cm_topo d)))]"
  obtain m1 c1 e where s: "assign_slaves api cn ?ip ?M ?js (AList.update ?M [] m, ?d) = ((m1, c1), e)"
    by (metis prod.collapse)
  have "same_nodes c c1" using same_nodes_assign_slaves [of c ?d api cn ?ip ?M ?js "AList.update ?M [] m"] Cons.prems s by simp
  then show ?case using Cons s by (cases e) (simp_all add: assign_master_def Let_def)
qed simp

lemma same_nodes_assign:
  "same_nodes c d \<Longrightarrow> same_nodes c (snd (fst (assignMastersAndSlaves api cn m d)))"
  by (simp add: assignMastersAndSlaves_def Let_def same_nodes_assign_masters)

lemma same_nodes_check_type: "same_nodes c d \<Longrightarrow> same_nodes c (fst (check_type_loop api node m cn n d))"
proof (induction n arbitrary: d)
  case (Suc n)
  obtain c1 e where s: "UpdateAfterSetNodeRole api node cn d = (c1, e)" by fastforce
  have "same_nodes c c1" using same_nodes_roles [of c api node cn d] Suc.prems s by simp
  then show ?case using Suc.IH s by (cases e) simp_all
qed simp

lemma same_nodes_verify_type: "same_nodes c d \<Longrightarrow> same_nodes c (fst (verify_type_loop api m cn nodes d))"
proof (induction nodes arbitrary: d)
  case (Cons node nodes)
  obtain c1 r where s: "checkNodeTypeWithRetry api node m cn d = (c1, r)" by fastforce
  have "same_nodes c c1"
    using same_nodes_check_type [OF Cons.prems, of api node m cn 10] s by (simp add: checkNodeTypeWithRetry_def)
  then show ?case using Cons s by (cases r) simp_all
qed simp

lemma same_nodes_SetAllNodeRole: "same_nodes c (fst (SetAllNodeRole api cn c))"
proof -
  obtain m c1 e where a: "assignMastersAndSlaves api cn [] c = ((m, c1), e)" by (metis prod.collapse)
  have c1: "same_nodes c c1" using same_nodes_assign [of c c api cn "[]", OF same_nodes_refl] a by simp
  obtain c2 r where v: "verifyNodeTypeSet api m cn c1 = (c2, r)" by fastforce
  have "same_nodes c c2" using same_nodes_verify_type [OF c1, of api m cn "cm_GetNodes c1"] v by (simp add: verifyNodeTypeSet_def)
  then show ?thesis using a v c1 by (cases e; cases r) (simp_all add: SetAllNodeRole_def)
qed

lemma same_nodes_assign_slots: "same_nodes c d \<Longrightarrow> same_nodes c (fst (assign_slots_loop api n is d))"
  by (induction "is" arbitrary: d) (auto simp: CreateRedisClient_def split: option.split prod.split)

lemma cm_inv_check_slots: "cm_inv c \<Longrightarrow> cm_inv (fst (check_slots_loop api con cn n c))"
proof (induction n arbitrary: c)
  case (Suc n)
  obtain c1 e where s: "UpdateSlots api con cn c = (c1, e)" by fastforce
  have "cm_inv c1" using cm_inv_UpdateSlots [OF Suc.prems, of api con cn] s by simp
  then show ?case using Suc.IH s by (cases e) simp_all
qed simp

lemma cm_inv_verify_slots: "cm_inv c \<Longrightarrow> cm_inv (fst (verify_slots_loop api cn nodes c))"
proof (induction nodes arbitrary: c)
  case (Cons node nodes)
  obtain c1 e where s: "checkSlotCounts api node cn c = (c1, e)" by fastforce
  have "cm_inv c1" using cm_inv_check_slots [OF Cons.prems, of api node cn 10] s by (simp add: checkSlotCounts_def)
  then show ?case using Cons.IH s by (cases e) simp_all
qed simp

lemma cm_inv_AllocateSlots: "cm_inv c \<Longrightarrow> cm_inv (fst (AllocateSlots api cn c))"
proof -
  assume inv: "cm_inv c"
  obtain c1 e1 where 1: "UpdateSlots api (cm_GetNodes c ! 0) cn c = (c1, e1)" by fastforce
  have i1: "cm_inv c1" using cm_inv_UpdateSlots [OF inv, of api "cm_GetNodes c ! 0" cn] 1 by simp
  obtain c2 e2 where 2: "assignSlotsToMasters api cn c1 = (c2, e2)" by fastforce
  have "same_nodes c1 c2" using same_nodes_assign_slots [of c1 c1 api, OF same_nodes_refl] 2
    by (auto simp: assignSlotsToMasters_def Let_def split: if_splits) (metis fst_conv)
  then have i2: "cm_inv c2" using i1 by (rule same_nodes_cm_inv)
  show ?thesis using inv 1 2 i1 i2 cm_inv_verify_slots [OF i2]
    by (cases e1; cases e2) (simp_all add: AllocateSlots_def VerifyAllocateSlots_def)
qed

lemma cm_inv_initCluster: "cm_inv c \<Longrightarrow> cm_inv (fst (initCluster api cli cn c))"
proof -
  assume inv: "cm_inv c"
  obtain c1 e1 where 1: "MeetNodes api cli cn c = (c1, e1)" by fastforce
  have i1: "cm_inv c1" using same_nodes_MeetNodes [of c api cli cn c] 1 same_nodes_cm_inv [OF _ inv] by simp
  show ?thesis
  proof (cases "\<exists>l. findFirstClusterNode cn c1 = Inr l")
    case True
    then obtain l where l: "findFirstClusterNode cn c1 = Inr l" by blast
    obtain c2 e2 where 2: "UpdateAfterMeet api l cn c1 = (c2, e2)" by fastforce
    have i2: "cm_inv c2" using cm_inv_UpdateAfterMeet [OF i1, of api l cn] 2 by simp
    obtain c3 e3 where 3: "SetAllNodeRole api cn c2 = (c3, e3)" by fastforce
    have i3: "cm_inv c3" using same_nodes_SetAllNodeRole [of c2 api cn] 3 same_nodes_cm_inv [OF _ i2] by simp
    show ?thesis using 1 2 3 l i1 i2 i3 cm_inv_AllocateSlots [OF i3]
      by (cases e1; cases e2; cases e3) (simp_all add: initCluster_def)
  next
    case False
    then show ?thesis using 1 i1
      by (cases e1; cases "findFirstClusterNode cn c1") (simp_all add: initCluster_def)
  qed
qed

lemma CreatePodsForCluster_inv:
  assumes "cm_inv c" "clock_runs (ra_podman api)"
  obtains c' e where "CreatePodsForCluster api cn k c = Some (c', e)" "cm_inv c'"
proof -
  let ?s = "bn_Num (pm_base (cm_nodeManager c)) + 1" and ?n = "bn_Num (pm_base (cm_nodeManager c)) + k"
  obtain nm w e where l: "create_pods_loop (ra_podman api) cn ?s [?s..?n] (cm_nodeManager c, cm_world c) = Some ((nm, w), e)"
    using create_pods_loop_returns [OF assms(2)] by (metis prod.collapse)
  have b: "base_inv (pm_base nm)"
    using create_pods_loop_nodes [OF l] assms(1) by (auto simp: cm_inv_def)
  have t: "topo_inv (c\<lparr>cm_nodeManager := nm, cm_world := w\<rparr>)"
    using assms(1) by (simp add: cm_inv_def topo_inv_def)
  show thesis
    by (rule that [of "c\<lparr>cm_nodeManager := nm, cm_world := w\<rparr>" "map_option (wrapV ''create pods fail'') e"])
       (use l b t in \<open>simp_all add: CreatePodsForCluster_def CreatePods_def cm_inv_def\<close>)
qed

lemma cm_inv_new_roles: "cm_inv c \<Longrightarrow> cm_inv (snd (fst (new_roles_loop is v c)))"
proof (induction "is" v c rule: new_roles_loop.induct)
  case (2 i "is" v c)
  have master: "cm_inv (let c1 = set_m2s m c; t = cm_topo c1
       in c1\<lparr>cm_topo := t\<lparr>tp_masterIDs := ms, tp_empty := tp_empty t @ [tp_nodes t ID]\<rparr>\<rparr>)" for m ms ID
  proof -
    have inv: "topo_inv c" using "2.prems" by (simp add: cm_inv_def)
    have nd: "a < cm_next c" if "Some a = tp_nodes (cm_topo c) ID" for a
      using topo_invD(2,3) [OF inv] that by metis
    have "topo_inv (let c1 = set_m2s m c; t = cm_topo c1
       in c1\<lparr>cm_topo := t\<lparr>tp_masterIDs := ms, tp_empty := tp_empty t @ [tp_nodes t ID]\<rparr>\<rparr>)"
      by (rule topo_inv_cong [OF inv])
         (auto simp: set_m2s_def Let_def topo_invD(1) [OF inv] dest: nd topo_invD(6) [OF inv])
    then show ?thesis using "2.prems" by (simp add: cm_inv_def set_m2s_def Let_def)
  qed
  have slave: "cm_inv (set_m2s m c)" for m
    using same_nodes_cm_inv [of c "set_m2s m c"] "2.prems" by simp
  show ?case
    using 2 master slave by (simp add: Let_def split: if_splits) 
qed simp

lemma same_nodes_replicate_slaves:
  "same_nodes c d \<Longrightarrow> same_nodes c (fst (replicate_slaves api cn f M ip ss d))"
proof (induction ss arbitrary: d)
  case (Cons s ss)
  obtain c1 e where s: "SetNodeAsSlave api ip (case f s of None \<Rightarrow> [] | Some x \<Rightarrow> x) cn d = (c1, e)" by fastforce
  have "same_nodes c c1" using SetNodeAsSlave_frame(1) [OF s] Cons.prems by simp
  then show ?case using Cons.IH s by (cases e) (simp_all add: Let_def)
qed simp

lemma same_nodes_replicate_masters:
  "same_nodes c d \<Longrightarrow> same_nodes c (fst (replicate_masters api cn f m ks d))"
proof (induction ks arbitrary: d)
  case (Cons k ks)
  let ?ss = "case map_of m k of None \<Rightarrow> [] | Some slaves \<Rightarrow> slaves"
  show ?case
  proof (cases "f k")
    case (Some ip)
    obtain c1 e where s: "replicate_slaves api cn f k ip ?ss d = (c1, e)" by fastforce
    have "same_nodes c c1" using same_nodes_replicate_slaves [OF Cons.prems, of api cn f k ip ?ss] s by simp
    then show ?thesis using Cons Some s by (cases e) (simp_all split: option.split)
  qed (use Cons in simp)
qed simp

lemma cm_inv_assignRoles: "cm_inv c \<Longrightarrow> cm_inv (fst (assignRolesToNewNodes api cn k c))"
proof -
  assume inv: "cm_inv c"
  let ?v = "\<lparr>sv_IDToIP = Map.empty, sv_count = 0, sv_masterID = []\<rparr>"
  let ?start = "cm_GetNodeCount c - k * cm_nodesPerShard c"
  obtain v c1 e where l: "new_roles_loop [?start..?start + k * cm_nodesPerShard c - 1] ?v c = ((v, c1), e)"
    by (metis prod.collapse)
  have i1: "cm_inv c1" using cm_inv_new_roles [OF inv, of "[?start..?start + k * cm_nodesPerShard c - 1]" ?v] l by simp
  let ?m = "ro_masterToSlave (cm_roles c1)"
  obtain c2 e2 where p: "replicate_masters api cn (sv_IDToIP v) ?m (ra_range api (map fst ?m) (cm_world c1)) c1 = (c2, e2)"
    by fastforce
  have s2: "same_nodes c1 c2" using same_nodes_replicate_masters [of c1 c1 api cn "sv_IDToIP v" ?m] p by (metis fst_conv same_nodes_refl)
  obtain c3 r where q: "verifyNodeTypeSet api ?m cn c2 = (c3, r)" by fastforce
  have s3: "same_nodes c1 c3" using same_nodes_verify_type [OF s2, of api ?m cn] q by (metis fst_conv verifyNodeTypeSet_def)
  show ?thesis
    using l p q i1 same_nodes_cm_inv [OF s2 i1] same_nodes_cm_inv [OF s3 i1]
    by (cases e; cases e2; cases r) (simp_all add: assignRolesToNewNodes_def configureNewNodeReplication_def Let_def)
qed

lemma cm_inv_meetAndSync: "cm_inv c \<Longrightarrow> cm_inv (fst (meetAndSyncNewNodes api cli cn k c))"
proof -
  assume inv: "cm_inv c"
  obtain c1 e1 where 1: "MeetNodes api cli cn c = (c1, e1)" by fastforce
  have i1: "cm_inv c1" using same_nodes_MeetNodes [of c api cli cn c] 1 same_nodes_cm_inv [OF _ inv] by simp
  then show ?thesis using 1 cm_inv_UpdateAfterMeet [OF i1]
    by (cases e1) (simp_all add: meetAndSyncNewNodes_def split: sum.split)
qed

section \<open>Properties of the whole flow\<close>

text \<open>C14: creating a cluster and adding shards return whenever the clock of the container runtime runs,
  and whether they succeed or fail at any point, the topology and the tracked nodes stay
  consistent.\<close>

theorem Bootstrap_AddShards_invariant:
  assumes "cm_inv c" and "clock_runs (ra_podman api)"
  shows "(\<exists>c' e. Bootstrap api shardCount clusterName c = Some (c', e) \<and> cm_inv c')
    \<and> (\<exists>c' e. AddShards api shardCount clusterName c = Some (c', e) \<and> cm_inv c')"
proof
  let ?k = "shardCount * cm_nodesPerShard c"
  obtain c1 e where p: "CreatePodsForCluster api clusterName ?k c = Some (c1, e)" "cm_inv c1"
    using CreatePodsForCluster_inv [OF assms] by blast
  show "\<exists>c' e. Bootstrap api shardCount clusterName c = Some (c', e) \<and> cm_inv c'"
  proof (cases "e = None \<and> (\<exists>cli. connectToClusterNode clusterName c1 = Inr cli)")
    case True
    then obtain cli where "connectToClusterNode clusterName c1 = Inr cli" by blast
    then show ?thesis using True p cm_inv_initCluster [OF p(2), of api cli clusterName]
      by (cases "initCluster api cli clusterName c1") (simp add: Bootstrap_def createPodsForCluster_def)
  next
    case False
    then show ?thesis using p
      by (cases e; cases "connectToClusterNode clusterName c1") (simp_all add: Bootstrap_def createPodsForCluster_def)
  qed
  show "\<exists>c' e. AddShards api shardCount clusterName c = Some (c', e) \<and> cm_inv c'"
  proof (cases "e = None \<and> (\<exists>cli. connectToExistingNode clusterName shardCount c1 = Inr cli)")
    case True
    then obtain cli where cli: "connectToExistingNode clusterName shardCount c1 = Inr cli" by blast
    obtain c2 e2 where m: "meetAndSyncNewNodes api cli clusterName shardCount c1 = (c2, e2)" by fastforce
    have i2: "cm_inv c2" using cm_inv_meetAndSync [OF p(2), of api cli clusterName shardCount] m by simp
    let ?d = "c2\<lparr>cm_topo := (cm_topo c2)\<lparr>tp_empty := []\<rparr>\<rparr>"
    have "cm_inv ?d" using i2 by (simp add: cm_inv_def)
    then show ?thesis using True p cli m i2 cm_inv_assignRoles [of ?d api clusterName shardCount]
      by (cases e2; cases "assignRolesToNewNodes api clusterName shardCount ?d")
         (simp_all add: AddShards_def createPodsForNewShards_def createPodsForCluster_def)
  next
    case False
    then show ?thesis using p
      by (cases e; cases "connectToExistingNode clusterName shardCount c1")
         (simp_all add: AddShards_def createPodsForNewShards_def createPodsForCluster_def)
  qed
qed

theorem Bootstrap_AddShards_invariant_witness:
  "\<forall>cfg. \<exists>c' e. Bootstrap demo_redis 1 ''c1'' (demo_met cfg) = Some (c', e) \<and> cm_inv c'"
proof
  fix cfg
  have "cm_inv (demo_met cfg)" using demo_base_inv by (simp add: cm_inv_def demo_met_topo)
  from Bootstrap_AddShards_invariant [OF this demo_clock, of 1 "''c1''"]
  show "\<exists>c' e. Bootstrap demo_redis 1 ''c1'' (demo_met cfg) = Some (c', e) \<and> cm_inv c'" by (rule conjunct1)
qed

text \<open>the verification of the slot counts never reports a wrong count. As long as the node answers,
  \<^verbatim>\<open>checkSlotCounts\<close> returns nil, whatever counts it saw in its ten attempts.\<close>

theorem checkSlotCounts_reports_nothing:
  assumes "\<forall>a w. \<exists>w' info. ra_ClusterNodes api a w = (w', Inr info)" and "cm_inv c"
  shows "snd (checkSlotCounts api container clusterName c) = None"
proof -
  have u: "snd (UpdateSlots api container clusterName d) = None" if "cm_inv d" for d
  proof -
    obtain w' info where "ra_ClusterNodes api (ClientConnAddr container) (cm_world d) = (w', Inr info)"
      using assms by blast
    moreover have "cm_GetNodeCount d = 0 \<longleftrightarrow> cm_GetNodes d = []"
      using that by (simp add: cm_inv_def base_inv_def pm_GetNodeCount_def getNodeCount_def pm_GetNodes_def getNodes_def)
    ultimately show ?thesis
      by (simp add: UpdateSlots_def GetClusterNodes_def CreateRedisClient_def ParseRedisClusterNodes_def Let_def
          split: prod.split)
  qed
  have "cm_inv d \<Longrightarrow> snd (check_slots_loop api container clusterName n d) = None" for n d
  proof (induction n arbitrary: d)
    case (Suc n)
    obtain d' where "UpdateSlots api container clusterName d = (d', None)" "cm_inv d'"
      using u [OF Suc.prems] cm_inv_UpdateSlots [OF Suc.prems, of api container clusterName] by (metis prod.collapse)
    then show ?case using Suc.IH by simp
  qed simp
  then show ?thesis using assms(2) by (simp add: checkSlotCounts_def)
qed

theorem checkSlotCounts_reports_nothing_witness:
  "\<forall>cfg l. snd (checkSlotCounts demo_redis l ''c1'' (demo_met cfg)) = None"
proof (intro allI checkSlotCounts_reports_nothing)
  fix cfg a w
  show "cm_inv (demo_met cfg)" using demo_base_inv by (simp add: cm_inv_def demo_met_topo)
  show "\<exists>w' info. ra_ClusterNodes demo_redis a w = (w', Inr info)" by (simp add: demo_redis_def)
qed

end
