(* ===== verification/Slot_Migration.thy ===== *)
theory Slot_Migration
  imports Cluster_Bootstrap "HOL-Library.Multiset"
begin

text \<open>
  The third part of \<^verbatim>\<open>cluster/model/manager.go\<close>: planning the slots that move to the empty masters,
  the worker pool that executes the plan, the migration of one slot and of its keys, and the
  cache invalidation afterwards. Slot counts change through the node pointers, in the store of
  \<^theory_text>\<open>Cluster_Topology\<close>. The workers are a step relation in which a task is taken from the channel
  and executed in two steps; the commands of one task are one step. The progress report only
  prints and is left out.
\<close>

section \<open>Data\<close>

definition migrationWorkers :: nat where
  "migrationWorkers = 16"

definition smallKeyBatch :: nat where
  "smallKeyBatch = 50"

definition chunkDivisor :: nat where
  "chunkDivisor = 10"

definition bigKeyThreshold :: int where
  "bigKeyThreshold = 10 * 1024 * 1024"

record slotTask =
  st_slot :: int
  st_fromID :: string
  st_fromIP :: string
  st_toID :: string
  st_toIP :: string
  st_destHostPort :: "16 word"
  st_fromHostPort :: "16 word"
  st_containerPort :: "16 word"

record keyEntry =
  ke_key :: string
  ke_size :: int

record group =
  gr_tasks :: "slotTask list"
  gr_fromIP :: string
  gr_fromHostPort :: "16 word"

section \<open>Planning\<close>

definition buildSlotTask :: "int \<Rightarrow> ClusterNode \<Rightarrow> ClusterNode \<Rightarrow> 'w ClusterManager \<Rightarrow> slotTask" where
  "buildSlotTask slotNum masterNode emptyNode c =
     (let toIP = cn_IP emptyNode; toID = cn_ID emptyNode;
          destRuntime = cm_GetNodeByHost c toIP;
          fromRuntime = cm_GetNodeByHost c (cn_IP masterNode);
          (destPort, conPort) = (case destRuntime of None \<Rightarrow> (0, 0) | Some d \<Rightarrow> (rn_HostPort d, rn_ConPort d));
          fromPort = (case fromRuntime of None \<Rightarrow> 0 | Some f \<Rightarrow> rn_HostPort f)
      in \<lparr>st_slot = slotNum, st_fromID = cn_ID masterNode, st_fromIP = cn_IP masterNode, st_toID = toID,
          st_toIP = toIP, st_destHostPort = destPort, st_fromHostPort = fromPort, st_containerPort = conPort\<rparr>)"

text \<open>\<^verbatim>\<open>p.SlotsNum += d\<close> through a pointer.\<close>

definition add_slots :: "nat \<Rightarrow> int \<Rightarrow> 'w ClusterManager \<Rightarrow> 'w ClusterManager" where
  "add_slots p d c = c\<lparr>cm_heap := (cm_heap c)(p := (cm_heap c p)\<lparr>cn_SlotsNum := cn_SlotsNum (cm_heap c p) + d\<rparr>)\<rparr>"

text \<open>
  The inner loop of \<^verbatim>\<open>collectTasksFromMaster\<close> over the slots of one range, from its end down.
  Both \<^verbatim>\<open>break\<close> statements end the range. The state is the manager, the index of the current
  empty master and the tasks so far.
\<close>

fun collect_range ::
  "int \<Rightarrow> nat \<Rightarrow> int list \<Rightarrow> 'w ClusterManager \<times> nat \<times> slotTask list \<Rightarrow>
     ('w ClusterManager \<times> nat \<times> slotTask list) \<times> go_err" where
  "collect_range newV master [] s = (s, None)"
| "collect_range newV master (slotNum # rest) (c, empIdx, tasks) =
     (if \<not> empIdx < length (tp_empty (cm_topo c)) then ((c, empIdx, tasks), None)
      else case tp_empty (cm_topo c) ! empIdx of
        None \<Rightarrow> ((c, empIdx, tasks), Some (Panic ''nil pointer dereference''))
      | Some p \<Rightarrow>
          if cn_ID (cm_heap c master) = cn_ID (cm_heap c p) then ((c, empIdx, tasks), None)
          else
            let tasks' = tasks @ [buildSlotTask slotNum (cm_heap c master) (cm_heap c p) c];
                c' = add_slots master (- 1) (add_slots p 1 c);
                empIdx' = (if cn_SlotsNum (cm_heap c' p) = newV then empIdx + 1 else empIdx)
            in if cn_SlotsNum (cm_heap c' master) = newV then ((c', empIdx', tasks'), None)
               else collect_range newV master rest (c', empIdx', tasks'))"

fun collect_ranges ::
  "int \<Rightarrow> nat \<Rightarrow> SlotRange list \<Rightarrow> 'w ClusterManager \<times> nat \<times> slotTask list \<Rightarrow>
     ('w ClusterManager \<times> nat \<times> slotTask list) \<times> go_err" where
  "collect_ranges newV master [] s = (s, None)"
| "collect_ranges newV master (r # rs) s =
     (case collect_range newV master (rev [sr_Start r..sr_End r]) s of
        (s', Some e) \<Rightarrow> (s', Some e)
      | (s', None) \<Rightarrow> collect_ranges newV master rs s')"

definition collectTasksFromMaster ::
  "int \<Rightarrow> nat \<Rightarrow> 'w ClusterManager \<times> nat \<times> slotTask list \<Rightarrow>
     ('w ClusterManager \<times> nat \<times> slotTask list) \<times> go_err" where
  "collectTasksFromMaster newV master s = collect_ranges newV master (cn_Slots (cm_heap (fst s) master)) s"

fun collect_masters ::
  "string \<Rightarrow> int \<Rightarrow> string list \<Rightarrow> 'w ClusterManager \<times> nat \<times> slotTask list \<Rightarrow>
     ('w ClusterManager \<times> nat \<times> slotTask list) \<times> go_err" where
  "collect_masters clusterName newV [] s = (s, None)"
| "collect_masters clusterName newV (masterID # rest) s =
     (case tp_nodes (cm_topo (fst s)) masterID of
        None \<Rightarrow> collect_masters clusterName newV rest s
      | Some p \<Rightarrow>
          let masterNode = cm_heap (fst s) p in
          if cn_SlotsNum masterNode = 0 \<or> cn_ClusterName masterNode \<noteq> clusterName \<or> cn_SlotsNum masterNode \<le> newV
          then collect_masters clusterName newV rest s
          else case collectTasksFromMaster newV p s of
            (s', Some e) \<Rightarrow> (s', Some e)
          | (s', None) \<Rightarrow> collect_masters clusterName newV rest s')"

definition collectSlotTasks ::
  "string \<Rightarrow> 'w ClusterManager \<Rightarrow> 'w ClusterManager \<times> slotTask list go_result" where
  "collectSlotTasks clusterName c =
     (let newV = TotalSlots div int (length (tp_masterIDs (cm_topo c)))
      in case collect_masters clusterName newV (tp_masterIDs (cm_topo c)) (c, 0, []) of
           ((c1, _, _), Some e) \<Rightarrow> (c1, Inl e)
         | ((c1, _, tasks), None) \<Rightarrow> (c1, Inr tasks))"

text \<open>A map of groups by the address of their source.\<close>

definition group_task :: "slotTask \<Rightarrow> (string, group) gomap \<Rightarrow> (string, group) gomap" where
  "group_task t groups =
     (let key = st_fromIP t;
          g = (case map_of groups key of
                 None \<Rightarrow> \<lparr>gr_tasks = [], gr_fromIP = st_fromIP t, gr_fromHostPort = st_fromHostPort t\<rparr>
               | Some g \<Rightarrow> g)
      in AList.update key (g\<lparr>gr_tasks := gr_tasks g @ [t]\<rparr>) groups)"

definition groupSlotTasks :: "slotTask list \<Rightarrow> (string, group) gomap" where
  "groupSlotTasks tasks = fold group_task tasks []"

section \<open>Migrating one slot\<close>

definition local_addr :: "16 word \<Rightarrow> string" where
  "local_addr port = host_port ''127.0.0.1'' port"

definition ExecuteClusterCommand :: "'w redis_api \<Rightarrow> string \<Rightarrow> string list \<Rightarrow> 'w \<Rightarrow> 'w \<times> string go_result" where
  "ExecuteClusterCommand api client args w =
     (case ra_Do api client args w of (w1, Inl err) \<Rightarrow> (w1, Inl err) | (w1, Inr r) \<Rightarrow> (w1, Inr r))"

definition setupSlotMigration ::
  "'w redis_api \<Rightarrow> string \<Rightarrow> string \<Rightarrow> slotTask \<Rightarrow> 'w \<Rightarrow> 'w \<times> go_err" where
  "setupSlotMigration api destCli sourceCli t w =
     (case ExecuteClusterCommand api destCli
             [''cluster'', ''SETSLOT'', strconv_Itoa (st_slot t), ''IMPORTING'', st_fromID t] w of
        (w1, Inl err) \<Rightarrow> (w1, Some (ErrorfW ''IMPORTING slot'' err))
      | (w1, Inr _) \<Rightarrow>
          (case ExecuteClusterCommand api sourceCli
                  [''CLUSTER'', ''SETSLOT'', strconv_Itoa (st_slot t), ''MIGRATING'', st_toID t] w1 of
             (w2, Inl err) \<Rightarrow> (w2, Some (ErrorfW ''MIGRATING slot'' err))
           | (w2, Inr _) \<Rightarrow> (w2, None)))"

definition finalizeSlotMigration ::
  "'w redis_api \<Rightarrow> string \<Rightarrow> string \<Rightarrow> slotTask \<Rightarrow> 'w \<Rightarrow> 'w \<times> go_err" where
  "finalizeSlotMigration api destCli sourceCli t w =
     (case ExecuteClusterCommand api destCli
             [''CLUSTER'', ''SETSLOT'', strconv_Itoa (st_slot t), ''NODE'', st_toID t] w of
        (w1, Inl err) \<Rightarrow> (w1, Some (ErrorfW ''SETSLOT NODE dest slot'' err))
      | (w1, Inr _) \<Rightarrow>
          (case ExecuteClusterCommand api sourceCli
                  [''CLUSTER'', ''SETSLOT'', strconv_Itoa (st_slot t), ''NODE'', st_toID t] w1 of
             (w2, Inl err) \<Rightarrow> (w2, Some (ErrorfW ''SETSLOT NODE source slot'' err))
           | (w2, Inr _) \<Rightarrow> (w2, None)))"

text \<open>The three results of \<^verbatim>\<open>classifyKeys\<close>: normal keys, big keys with their size, failed keys.\<close>

fun classifyKeys ::
  "'w redis_api \<Rightarrow> string \<Rightarrow> string list \<Rightarrow> 'w \<Rightarrow> 'w \<times> string list \<times> keyEntry list \<times> string list" where
  "classifyKeys api cli [] w = (w, [], [], [])"
| "classifyKeys api cli (key # keys) w =
     (let (w1, r) = ra_MemoryUsage api cli key w;
          (w2, normal, big, failed) = classifyKeys api cli keys w1
      in case r of
           Inl _ \<Rightarrow> (w2, normal, big, key # failed)
         | Inr bytes \<Rightarrow>
             if bytes \<ge> bigKeyThreshold then (w2, normal, \<lparr>ke_key = key, ke_size = bytes\<rparr> # big, failed)
             else (w2, key # normal, big, failed))"

definition big_key_timeout :: "int \<Rightarrow> int" where
  "big_key_timeout bytes =
     (let timeoutSec = bytes div 1024 div 1024
      in if timeoutSec < 5 then 5 else if timeoutSec > 60 then 60 else timeoutSec)"

definition migrateBigKey ::
  "'w redis_api \<Rightarrow> string \<Rightarrow> slotTask \<Rightarrow> string \<Rightarrow> int \<Rightarrow> 'w \<Rightarrow> 'w \<times> go_err" where
  "migrateBigKey api sourceCli t key bytes w =
     (case ra_Do api sourceCli
             [''MIGRATE'', st_toIP t, itoa_nat (unat (st_containerPort t)), key, ''0'',
              strconv_Itoa (big_key_timeout bytes * 1000), ''COPY'', ''REPLACE''] w of
        (w1, Inl err) \<Rightarrow> (w1, Some (ErrorfW ''MIGRATE big key'' err))
      | (w1, Inr _) \<Rightarrow> (fst (ra_Del api sourceCli key w1), None))"

definition migrateKeyBatch ::
  "'w redis_api \<Rightarrow> string \<Rightarrow> slotTask \<Rightarrow> string list \<Rightarrow> int \<Rightarrow> 'w \<Rightarrow> 'w" where
  "migrateKeyBatch api sourceCli t keys timeoutMs w =
     fst (ra_Do api sourceCli
       ([''MIGRATE'', st_toIP t, itoa_nat (unat (st_containerPort t)), [], ''0'', strconv_Itoa timeoutMs, ''KEYS''] @ keys) w)"

fun filterExistingKeys :: "'w redis_api \<Rightarrow> string \<Rightarrow> string list \<Rightarrow> 'w \<Rightarrow> 'w \<times> string list" where
  "filterExistingKeys api cli [] w = (w, [])"
| "filterExistingKeys api cli (key # keys) w =
     (let (w1, r) = ra_Exists api cli key w;
          (w2, result) = filterExistingKeys api cli keys w1
      in case r of
           Inl _ \<Rightarrow> (w2, result)
         | Inr exists \<Rightarrow> if exists > 0 then (w2, key # result) else (w2, result))"

text \<open>The slices \<^verbatim>\<open>normal[i:end]\<close> of the chunk loop, for a positive chunk size.\<close>

function chunks :: "nat \<Rightarrow> 'a list \<Rightarrow> 'a list list" where
  "chunks chunkSize keys =
     (if keys = [] \<or> chunkSize = 0 then [] else take chunkSize keys # chunks chunkSize (drop chunkSize keys))"
  by pat_completeness auto
termination by (relation "measure (\<lambda>(n, xs). length xs)") auto

declare chunks.simps [simp del]

definition chunk_size :: "nat \<Rightarrow> nat" where
  "chunk_size n = (let chunkSize = n div chunkDivisor in if chunkSize < 10 then 10 else chunkSize)"

definition migrate_chunk :: "'w redis_api \<Rightarrow> string \<Rightarrow> slotTask \<Rightarrow> string list \<Rightarrow> 'w \<Rightarrow> 'w" where
  "migrate_chunk api sourceCli t keys w =
     (let (w1, active) = filterExistingKeys api sourceCli keys w
      in if length active > 0 then migrateKeyBatch api sourceCli t active 5000 w1 else w1)"

definition migrateSlotKeys :: "'w redis_api \<Rightarrow> string \<Rightarrow> slotTask \<Rightarrow> string list \<Rightarrow> 'w \<Rightarrow> 'w" where
  "migrateSlotKeys api sourceCli t keys w =
     (if length keys \<le> smallKeyBatch then migrateKeyBatch api sourceCli t keys 5000 w
      else
        let (w1, normal, big, _) = classifyKeys api sourceCli keys w;
            w2 = fold (\<lambda>entry u. fst (migrateBigKey api sourceCli t (ke_key entry) (ke_size entry) u)) big w1
        in if length normal = 0 then w2
           else fold (migrate_chunk api sourceCli t) (chunks (chunk_size (length normal)) normal) w2)"

definition migrateSlotShared :: "'w redis_api \<Rightarrow> string \<Rightarrow> slotTask \<Rightarrow> 'w \<Rightarrow> 'w \<times> go_err" where
  "migrateSlotShared api sourceCli t w =
     (case CreateRedisClient (local_addr (st_destHostPort t)) of
        Inl err \<Rightarrow> (w, Some (ErrorfW ''connect dest fail'' err))
      | Inr destCli \<Rightarrow>
          (case setupSlotMigration api destCli sourceCli t w of
             (w1, Some err) \<Rightarrow> (w1, Some err)
           | (w1, None) \<Rightarrow>
               let (w2, keys) = ra_ClusterGetKeysInSlot api sourceCli (st_slot t) 1000 w1;
                   w3 = (if length keys > 0 then migrateSlotKeys api sourceCli t keys w2 else w2)
               in finalizeSlotMigration api destCli sourceCli t w3))"

section \<open>The workers\<close>

datatype worker = Idle | Busy slotTask | Gone

text \<open>
  The channel of each group, the workers of each group by number, the tasks executed in order,
  the errors in the error channel and the world.
\<close>

record 'w mig_state =
  mg_queue :: "nat \<Rightarrow> slotTask list"
  mg_worker :: "nat \<times> nat \<Rightarrow> worker"
  mg_done :: "slotTask list"
  mg_errs :: "go_error list"
  mg_world :: 'w

definition mig_init :: "group list \<Rightarrow> 'w \<Rightarrow> 'w mig_state" where
  "mig_init gs w = \<lparr>mg_queue = (\<lambda>g. if g < length gs then gr_tasks (gs ! g) else []), mg_worker = (\<lambda>_. Idle),
     mg_done = [], mg_errs = [], mg_world = w\<rparr>"

inductive mig_step :: "'w redis_api \<Rightarrow> group list \<Rightarrow> 'w mig_state \<Rightarrow> 'w mig_state \<Rightarrow> bool"
  for api :: "'w redis_api" and gs :: "group list" where
  mig_take: "g < length gs \<Longrightarrow> k < migrationWorkers \<Longrightarrow> mg_worker s (g, k) = Idle \<Longrightarrow> mg_queue s g = t # q \<Longrightarrow>
    mig_step api gs s (s\<lparr>mg_worker := (mg_worker s)((g, k) := Busy t), mg_queue := (mg_queue s)(g := q)\<rparr>)"
| mig_exec: "g < length gs \<Longrightarrow> k < migrationWorkers \<Longrightarrow> mg_worker s (g, k) = Busy t \<Longrightarrow>
    migrateSlotShared api (local_addr (gr_fromHostPort (gs ! g))) t (mg_world s) = (w, e) \<Longrightarrow>
    mig_step api gs s (s\<lparr>mg_worker := (mg_worker s)((g, k) := Idle), mg_done := mg_done s @ [t], mg_world := w,
      mg_errs := mg_errs s @ (case e of None \<Rightarrow> [] | Some err \<Rightarrow> [ErrorfW ''slot'' err])\<rparr>)"
| mig_exit: "g < length gs \<Longrightarrow> k < migrationWorkers \<Longrightarrow> mg_worker s (g, k) = Idle \<Longrightarrow> mg_queue s g = [] \<Longrightarrow>
    mig_step api gs s (s\<lparr>mg_worker := (mg_worker s)((g, k) := Gone)\<rparr>)"

text \<open>\<^verbatim>\<open>wg.Wait\<close> returns: every worker has left its loop.\<close>

definition mig_finished :: "group list \<Rightarrow> 'w mig_state \<Rightarrow> bool" where
  "mig_finished gs s = (\<forall>g < length gs. \<forall>k < migrationWorkers. mg_worker s (g, k) = Gone)"

text \<open>
  \<^verbatim>\<open>executeSlotMigration\<close>: the groups in the order of the range over their map, any schedule of
  their workers until all have finished. Clients are created without error.
\<close>

inductive executeSlotMigration ::
  "'w redis_api \<Rightarrow> (string, group) gomap \<Rightarrow> 'w \<Rightarrow> 'w \<Rightarrow> go_error list \<Rightarrow> bool" where
  "(mig_step api gs)\<^sup>*\<^sup>* (mig_init gs w) s \<Longrightarrow> mig_finished gs s \<Longrightarrow>
   gs = map (\<lambda>k. the (map_of groups k)) (ra_range api (map fst groups) w) \<Longrightarrow>
   executeSlotMigration api groups w (mg_world s) (mg_errs s)"

section \<open>Cache invalidation and the whole migration\<close>

definition slot_bounds :: "slotTask list \<Rightarrow> int \<times> int" where
  "slot_bounds tasks =
     foldl (\<lambda>(minSlot, maxSlot) t.
        ((if st_slot t < minSlot then st_slot t else minSlot), (if st_slot t > maxSlot then st_slot t else maxSlot)))
       (st_slot (hd tasks), st_slot (hd tasks)) tasks"

definition invalidateCacheAfterMigration :: "'w redis_api \<Rightarrow> slotTask list \<Rightarrow> 'w \<Rightarrow> 'w" where
  "invalidateCacheAfterMigration api tasks w =
     (let (minSlot, maxSlot) = slot_bounds tasks in ra_InvalidateSlots api minSlot maxSlot w)"

text \<open>
  \<^verbatim>\<open>MigrateSlotsToEmptyNode\<close>, as a relation because the schedule of the workers is open.
\<close>

inductive MigrateSlotsToEmptyNode ::
  "'w redis_api \<Rightarrow> string \<Rightarrow> 'w ClusterManager \<Rightarrow> 'w ClusterManager \<Rightarrow> go_err \<Rightarrow> bool"
  for api :: "'w redis_api" and clusterName :: string and c :: "'w ClusterManager" where
  no_empty: "tp_empty (cm_topo c) = [] \<Longrightarrow>
    MigrateSlotsToEmptyNode api clusterName c c (Some (Errorf ''no Empty master''))"
| no_master: "tp_empty (cm_topo c) \<noteq> [] \<Longrightarrow> tp_masterIDs (cm_topo c) = [] \<Longrightarrow>
    MigrateSlotsToEmptyNode api clusterName c c (Some (Errorf ''no master nodes for slot migration''))"
| plan_panic: "tp_empty (cm_topo c) \<noteq> [] \<Longrightarrow> tp_masterIDs (cm_topo c) \<noteq> [] \<Longrightarrow>
    collectSlotTasks clusterName c = (c1, Inl e) \<Longrightarrow>
    MigrateSlotsToEmptyNode api clusterName c c1 (Some e)"
| no_tasks: "tp_empty (cm_topo c) \<noteq> [] \<Longrightarrow> tp_masterIDs (cm_topo c) \<noteq> [] \<Longrightarrow>
    collectSlotTasks clusterName c = (c1, Inr []) \<Longrightarrow>
    MigrateSlotsToEmptyNode api clusterName c c1 None"
| migrate: "tp_empty (cm_topo c) \<noteq> [] \<Longrightarrow> tp_masterIDs (cm_topo c) \<noteq> [] \<Longrightarrow>
    collectSlotTasks clusterName c = (c1, Inr tasks) \<Longrightarrow> tasks \<noteq> [] \<Longrightarrow>
    executeSlotMigration api (groupSlotTasks tasks) (cm_world c1) w errs \<Longrightarrow>
    w' = (if cm_cacheInvalidator c1 then invalidateCacheAfterMigration api tasks w else w) \<Longrightarrow>
    PrintClusterNodesInfo api (c1\<lparr>cm_world := w'\<rparr>) = (c2, r) \<Longrightarrow>
    MigrateSlotsToEmptyNode api clusterName c c2 (case r of Inl e \<Rightarrow> Some e | Inr _ \<Rightarrow> None)"

section \<open>Grouping\<close>

lemma group_task_map:
  "map_of (group_task t groups) k =
     (if k = st_fromIP t then Some ((case map_of groups k of
          None \<Rightarrow> \<lparr>gr_tasks = [t], gr_fromIP = k, gr_fromHostPort = st_fromHostPort t\<rparr>
        | Some g \<Rightarrow> g\<lparr>gr_tasks := gr_tasks g @ [t]\<rparr>)) else map_of groups k)"
  by (simp add: group_task_def Let_def split: option.split)

lemma group_task_wf: "gomap_wf groups \<Longrightarrow> gomap_wf (group_task t groups)"
  by (simp add: group_task_def Let_def)

text \<open>All the tasks of the groups, and the same after one more task.\<close>

definition group_tasks :: "(string, group) gomap \<Rightarrow> slotTask multiset" where
  "group_tasks groups = mset (concat (map (gr_tasks \<circ> snd) groups))"

lemma group_tasks_update:
  "gomap_wf groups \<Longrightarrow> group_tasks (AList.update k g groups) +
     (case map_of groups k of None \<Rightarrow> {#} | Some h \<Rightarrow> mset (gr_tasks h)) = group_tasks groups + mset (gr_tasks g)"
  by (induction groups) (auto simp: group_tasks_def gomap_wf_def split: option.splits)

lemma group_tasks_step: "gomap_wf groups \<Longrightarrow> group_tasks (group_task t groups) = add_mset t (group_tasks groups)"
proof (cases "map_of groups (st_fromIP t)")
  case None
  assume "gomap_wf groups"
  then show ?thesis using None group_tasks_update [of groups "st_fromIP t"] by (simp add: group_task_def Let_def)
next
  case (Some h)
  assume "gomap_wf groups"
  then show ?thesis using Some group_tasks_update [of groups "st_fromIP t" "h\<lparr>gr_tasks := gr_tasks h @ [t]\<rparr>"]
    by (simp add: group_task_def)
qed

lemma groupSlotTasks_all: "gomap_wf (groupSlotTasks tasks) \<and> group_tasks (groupSlotTasks tasks) = mset tasks"
proof -
  have "gomap_wf m \<Longrightarrow> gomap_wf (fold group_task ts m) \<and> group_tasks (fold group_task ts m) = group_tasks m + mset ts" for ts m
    by (induction ts arbitrary: m) (simp_all add: group_task_wf group_tasks_step)
  from this [of "[]" tasks] show ?thesis by (simp add: groupSlotTasks_def group_tasks_def)
qed

text \<open>The groups visited in the order of any permutation of the keys hold the tasks once.\<close>

lemma mset_concat_perm: "mset ks = mset ls \<Longrightarrow> mset (concat (map f ks)) = mset (concat (map f ls))"
proof -
  have "mset (concat (map f xs)) = \<Sum>\<^sub># (image_mset (mset \<circ> f) (mset xs))" for xs
    by (induction xs) simp_all
  then show "mset ks = mset ls \<Longrightarrow> mset (concat (map f ks)) = mset (concat (map f ls))" by simp
qed

lemma ranged_groups:
  assumes "gomap_wf m" "mset ks = mset (map fst m)"
  shows "mset (concat (map gr_tasks (map (\<lambda>k. the (map_of m k)) ks))) = group_tasks m"
proof -
  have eq: "map (\<lambda>k. gr_tasks (the (map_of m k))) (map fst m) = map (gr_tasks \<circ> snd) m"
    using assms(1) by (auto simp: gomap_wf_def)
  have "mset (concat (map (\<lambda>k. gr_tasks (the (map_of m k))) ks)) = group_tasks m"
    using mset_concat_perm [OF assms(2), of "\<lambda>k. gr_tasks (the (map_of m k))"] unfolding eq group_tasks_def .
  then show ?thesis by (simp add: comp_def)
qed

section \<open>Runs of the workers\<close>

fun worker_tasks :: "worker \<Rightarrow> slotTask multiset" where
  "worker_tasks (Busy t) = {#t#}"
| "worker_tasks _ = {#}"

fun worker_steps :: "worker \<Rightarrow> nat" where
  "worker_steps Idle = 1"
| "worker_steps (Busy t) = 2"
| "worker_steps Gone = 0"

definition pool :: "group list \<Rightarrow> (nat \<times> nat) set" where
  "pool gs = {..<length gs} \<times> {..<migrationWorkers}"

definition mig_measure :: "group list \<Rightarrow> 'w mig_state \<Rightarrow> nat" where
  "mig_measure gs s = 2 * (\<Sum>g<length gs. length (mg_queue s g)) + (\<Sum>p\<in>pool gs. worker_steps (mg_worker s p))"

definition mig_tasks :: "group list \<Rightarrow> 'w mig_state \<Rightarrow> slotTask multiset" where
  "mig_tasks gs s = mset (mg_done s) + (\<Sum>g<length gs. mset (mg_queue s g)) + (\<Sum>p\<in>pool gs. worker_tasks (mg_worker s p))"

definition mig_inv :: "group list \<Rightarrow> 'w mig_state \<Rightarrow> bool" where
  "mig_inv gs s = (mig_tasks gs s = mset (concat (map gr_tasks gs)) \<and> length (mg_errs s) \<le> length (mg_done s)
     \<and> (\<forall>g k. mg_worker s (g, k) = Gone \<longrightarrow> mg_queue s g = []))"

lemma sum_fun_upd:
  fixes h :: "'b \<Rightarrow> 'c :: comm_monoid_add"
  assumes "finite A" "a \<in> A"
  shows "(\<Sum>i\<in>A. h ((f(a := x)) i)) + h (f a) = (\<Sum>i\<in>A. h (f i)) + h x"
proof -
  have "(\<Sum>i\<in>A - {a}. h ((f(a := x)) i)) = (\<Sum>i\<in>A - {a}. h (f i))" by (rule sum.cong) auto
  then show ?thesis using assms by (simp add: sum.remove [of A a] ac_simps)
qed

lemma pool_mem: "g < length gs \<Longrightarrow> k < migrationWorkers \<Longrightarrow> (g, k) \<in> pool gs"
  by (simp add: pool_def)

lemma finite_pool [simp]: "finite (pool gs)"
  by (simp add: pool_def)

lemma mig_init_inv: "mig_inv gs (mig_init gs w)"
proof -
  have "(\<Sum>g<length gs. mset (gr_tasks (gs ! g))) = mset (concat (map gr_tasks gs))" for gs
    by (induction gs rule: rev_induct) (simp_all add: nth_append)
  then show ?thesis by (simp add: mig_inv_def mig_tasks_def mig_init_def)
qed

lemma mig_step_tasks: "mig_step api gs s s' \<Longrightarrow> mig_tasks gs s' = mig_tasks gs s"
proof (induction rule: mig_step.induct)
  case (mig_take g k s t q)
  have q: "(\<Sum>i<length gs. mset (mg_queue s i)) = add_mset t (\<Sum>i<length gs. mset (((mg_queue s)(g := q)) i))"
    using sum_fun_upd [of "{..<length gs}" g mset "mg_queue s" q] mig_take(1,4) by simp
  have w: "(\<Sum>p\<in>pool gs. worker_tasks (((mg_worker s)((g, k) := Busy t)) p)) = (\<Sum>p\<in>pool gs. worker_tasks (mg_worker s p)) + {#t#}"
    using sum_fun_upd [OF finite_pool pool_mem [OF mig_take(1,2)], of worker_tasks "mg_worker s" "Busy t"] mig_take(3) by simp
  show ?case by (simp add: mig_tasks_def q w del: fun_upd_apply)
next
  case (mig_exec g k s t w e)
  have w: "(\<Sum>p\<in>pool gs. worker_tasks (mg_worker s p)) = add_mset t (\<Sum>p\<in>pool gs. worker_tasks (((mg_worker s)((g, k) := Idle)) p))"
    using sum_fun_upd [OF finite_pool pool_mem [OF mig_exec(1,2)], of worker_tasks "mg_worker s" "Idle"] mig_exec(3) by simp
  show ?case by (simp add: mig_tasks_def w del: fun_upd_apply)
next
  case (mig_exit g k s)
  have w: "(\<Sum>p\<in>pool gs. worker_tasks (((mg_worker s)((g, k) := Gone)) p)) = (\<Sum>p\<in>pool gs. worker_tasks (mg_worker s p))"
    using sum_fun_upd [OF finite_pool pool_mem [OF mig_exit(1,2)], of worker_tasks "mg_worker s" "Gone"] mig_exit(3) by simp
  show ?case by (simp add: mig_tasks_def w del: fun_upd_apply)
qed

lemma mig_step_inv:
  assumes "mig_step api gs s s'" "mig_inv gs s"
  shows "mig_inv gs s'"
proof -
  have "length (mg_errs s') \<le> length (mg_done s') \<and> (\<forall>g k. mg_worker s' (g, k) = Gone \<longrightarrow> mg_queue s' g = [])"
    using assms by (induction rule: mig_step.induct) (auto simp: mig_inv_def split: option.split)
  then show ?thesis using mig_step_tasks [OF assms(1)] assms(2) by (simp add: mig_inv_def)
qed

lemma mig_step_measure: "mig_step api gs s s' \<Longrightarrow> mig_measure gs s = Suc (mig_measure gs s')"
proof (induction rule: mig_step.induct)
  case (mig_take g k s t q)
  show ?case
    using sum_fun_upd [of "{..<length gs}" g length "mg_queue s" q] mig_take(1,3,4)
      sum_fun_upd [OF finite_pool pool_mem [OF mig_take(1,2)], of worker_steps "mg_worker s" "Busy t"]
    by (simp add: mig_measure_def)
next
  case (mig_exec g k s t w e)
  then show ?case
    using sum_fun_upd [OF finite_pool pool_mem [OF mig_exec(1,2)], of worker_steps "mg_worker s" "Idle"]
    by (simp add: mig_measure_def)
next
  case (mig_exit g k s)
  then show ?case
    using sum_fun_upd [OF finite_pool pool_mem [OF mig_exit(1,2)], of worker_steps "mg_worker s" "Gone"]
    by (simp add: mig_measure_def)
qed

lemma mig_run:
  "(mig_step api gs ^^ n) (mig_init gs w) s \<Longrightarrow>
   mig_inv gs s \<and> mig_measure gs (mig_init gs w) = mig_measure gs s + n"
proof (induction n arbitrary: s)
  case 0
  then show ?case using mig_init_inv [of gs w] by simp
next
  case (Suc n)
  then obtain s1 where "(mig_step api gs ^^ n) (mig_init gs w) s1" and step: "mig_step api gs s1 s" by auto
  then show ?case using Suc.IH [of s1] mig_step_inv [OF step] mig_step_measure [OF step] by simp
qed

lemma mig_measure_init:
  "mig_measure gs (mig_init gs w) = 2 * length (concat (map gr_tasks gs)) + migrationWorkers * length gs"
proof -
  have "(\<Sum>g<length gs. length (gr_tasks (gs ! g))) = length (concat (map gr_tasks gs))" for gs
    by (induction gs rule: rev_induct) (simp_all add: nth_append)
  then show ?thesis by (simp add: mig_measure_def mig_init_def pool_def)
qed

lemma mig_progress: "\<not> mig_finished gs s \<Longrightarrow> \<exists>s'. mig_step api gs s s'"
proof -
  assume "\<not> mig_finished gs s"
  then obtain g k where gk: "g < length gs" "k < migrationWorkers" "mg_worker s (g, k) \<noteq> Gone"
    by (auto simp: mig_finished_def)
  show ?thesis
  proof (cases "mg_worker s (g, k)")
    case Idle
    then show ?thesis using mig_step.mig_take [OF gk(1,2) Idle] mig_step.mig_exit [OF gk(1,2) Idle]
      by (cases "mg_queue s g") blast+
  next
    case (Busy t)
    obtain w e where "migrateSlotShared api (local_addr (gr_fromHostPort (gs ! g))) t (mg_world s) = (w, e)" by fastforce
    then show ?thesis using mig_step.mig_exec [OF gk(1,2) Busy] by blast
  qed (use gk in simp)
qed

lemma worker_gone: "worker_steps x = 0 \<Longrightarrow> x = Gone"
  by (cases x) simp_all

lemma mig_finished_queue:
  assumes "mig_inv gs s" "mig_finished gs s" "g < length gs"
  shows "mg_queue s g = []"
proof -
  have "mg_worker s (g, 0) = Gone" using assms(2,3) by (simp add: mig_finished_def migrationWorkers_def)
  then show ?thesis using assms(1) unfolding mig_inv_def by blast
qed

lemma mig_finished_iff:
  assumes "mig_inv gs s"
  shows "mig_finished gs s \<longleftrightarrow> mig_measure gs s = 0"
proof
  assume fin: "mig_finished gs s"
  have "mg_queue s g = []" if "g < length gs" for g
    by (rule mig_finished_queue [OF assms fin that])
  moreover have "worker_steps (mg_worker s p) = 0" if "p \<in> pool gs" for p
    using fin that by (auto simp: mig_finished_def pool_def)
  ultimately show "mig_measure gs s = 0" by (simp add: mig_measure_def)
next
  assume "mig_measure gs s = 0"
  then have "\<forall>p \<in> pool gs. worker_steps (mg_worker s p) = 0" by (simp add: mig_measure_def)
  then have "\<forall>p \<in> pool gs. mg_worker s p = Gone" using worker_gone by blast
  then show "mig_finished gs s" by (simp add: mig_finished_def pool_def)
qed

lemma mig_finished_done:
  assumes "mig_inv gs s" "mig_finished gs s"
  shows "mset (mg_done s) = mset (concat (map gr_tasks gs))"
proof -
  have "mg_queue s g = []" if "g < length gs" for g
    by (rule mig_finished_queue [OF assms that])
  moreover have "worker_tasks (mg_worker s p) = {#}" if "p \<in> pool gs" for p
    using assms(2) that by (auto simp: mig_finished_def pool_def)
  ultimately show ?thesis using assms(1) by (simp add: mig_inv_def mig_tasks_def)
qed

lemma mig_inv_done: "mig_inv gs s \<Longrightarrow> mset (mg_done s) \<subseteq># mset (concat (map gr_tasks gs))"
proof -
  assume "mig_inv gs s"
  moreover have "mset (mg_done s) \<subseteq># mig_tasks gs s" by (simp add: mig_tasks_def add.assoc)
  ultimately show ?thesis by (simp add: mig_inv_def)
qed

text \<open>C10: whatever the schedule of the workers, the migration ends after two steps per task and one per
  worker, no worker is stuck before that, at the end every planned task was executed exactly
  once and none was executed twice on the way, and the error channel never exceeds its
  capacity, the number of tasks.\<close>

theorem migration_executes_plan:
  assumes order: "\<forall>ks w. mset (ra_range api ks w) = mset ks"
    and run: "(mig_step api gs ^^ n) (mig_init gs w) s"
    and gs: "gs = map (\<lambda>k. the (map_of (groupSlotTasks tasks) k)) (ra_range api (map fst (groupSlotTasks tasks)) w)"
  shows "n \<le> 2 * length tasks + 16 * length gs
    \<and> (mig_finished gs s \<longleftrightarrow> n = 2 * length tasks + 16 * length gs)
    \<and> (mig_finished gs s \<or> (\<exists>s'. mig_step api gs s s'))
    \<and> mset (mg_done s) \<subseteq># mset tasks \<and> (mig_finished gs s \<longrightarrow> mset (mg_done s) = mset tasks)
    \<and> length (mg_errs s) \<le> length tasks"
proof -
  have all: "mset (concat (map gr_tasks gs)) = mset tasks"
    unfolding gs using ranged_groups [of "groupSlotTasks tasks"] groupSlotTasks_all [of tasks] order by simp
  then have len: "length (concat (map gr_tasks gs)) = length tasks" by (metis size_mset)
  have inv: "mig_inv gs s" and m: "2 * length tasks + 16 * length gs = mig_measure gs s + n"
    using mig_run [OF run] mig_measure_init [of gs w] len by (simp_all add: migrationWorkers_def)
  have "length (mg_done s) \<le> length tasks"
    using size_mset_mono [OF mig_inv_done [OF inv]] all by (metis size_mset)
  then have "length (mg_errs s) \<le> length tasks" using inv by (simp add: mig_inv_def)
  moreover have "mig_finished gs s \<or> (\<exists>s'. mig_step api gs s s')" using mig_progress by blast
  moreover have "mset (mg_done s) \<subseteq># mset tasks" "mig_finished gs s \<longrightarrow> mset (mg_done s) = mset tasks"
    using mig_inv_done [OF inv] mig_finished_done [OF inv] unfolding all by blast+
  moreover have "n \<le> 2 * length tasks + 16 * length gs" "mig_finished gs s \<longleftrightarrow> n = 2 * length tasks + 16 * length gs"
    using m mig_finished_iff [OF inv] by linarith+
  ultimately show ?thesis by blast
qed

lemma mig_can_finish: "mig_inv gs s \<Longrightarrow> \<exists>s'. (mig_step api gs)\<^sup>*\<^sup>* s s' \<and> mig_finished gs s'"
proof (induction "mig_measure gs s" arbitrary: s rule: less_induct)
  case less
  show ?case
  proof (cases "mig_finished gs s")
    case False
    then obtain s1 where s1: "mig_step api gs s s1" using mig_progress by blast
    have "mig_measure gs s1 < mig_measure gs s" using mig_step_measure [OF s1] by simp
    from less(1) [OF this mig_step_inv [OF s1 less(2)]]
    obtain s2 where s2: "(mig_step api gs)\<^sup>*\<^sup>* s1 s2" "mig_finished gs s2" by (elim exE conjE)
    then show ?thesis
      by (intro exI [of _ s2] conjI converse_rtranclp_into_rtranclp [where r = "mig_step api gs", OF s1])
  qed (intro exI [of _ s] conjI rtranclp.rtrancl_refl)
qed

lemma executeSlotMigration_total: "\<exists>w' errs. executeSlotMigration api groups w w' errs"
proof -
  let ?gs = "map (\<lambda>k. the (map_of groups k)) (ra_range api (map fst groups) w)"
  obtain s where "(mig_step api ?gs)\<^sup>*\<^sup>* (mig_init ?gs w) s" "mig_finished ?gs s"
    using mig_can_finish [OF mig_init_inv [of ?gs w], of api] by (elim exE conjE)
  then have "executeSlotMigration api groups w (mg_world s) (mg_errs s)"
    by (rule executeSlotMigration.intros) (rule refl)
  then show ?thesis by (intro exI)
qed

text \<open>A task of the example cluster.\<close>

definition demo_task :: slotTask where
  "demo_task = \<lparr>st_slot = 16383, st_fromID = ''m1'', st_fromIP = ''10.0.0.2'', st_toID = ''s1'', st_toIP = ''10.0.0.3'',
     st_destHostPort = 4002, st_fromHostPort = 4001, st_containerPort = 6379\<rparr>"

theorem migration_executes_plan_witness:
  "\<exists>gs n s. (mig_step demo_redis gs ^^ n) (mig_init gs 0) s \<and> mig_finished gs s \<and> mset (mg_done s) = {#demo_task#}"
proof -
  let ?m = "groupSlotTasks [demo_task]"
  let ?gs = "map (\<lambda>k. the (map_of ?m k)) (ra_range demo_redis (map fst ?m) 0)"
  obtain s where s: "(mig_step demo_redis ?gs)\<^sup>*\<^sup>* (mig_init ?gs 0) s" "mig_finished ?gs s"
    using mig_can_finish [OF mig_init_inv [of ?gs "0 :: int"], of demo_redis] by (elim exE conjE)
  then obtain n where n: "(mig_step demo_redis ?gs ^^ n) (mig_init ?gs 0) s" 
    using rtranclp_imp_relpowp [OF s(1)] by (elim exE)
  have "\<forall>ks w. mset (ra_range demo_redis ks w) = mset ks" by (simp add: demo_redis_def)
  from migration_executes_plan [OF this n refl] s(2) have "mset (mg_done s) = mset [demo_task]" by simp
  then show ?thesis using s(2) n by (intro exI [of _ ?gs] exI [of _ n] exI [of _ s]) simp
qed

section \<open>What is planned\<close>

definition node_slots :: "ClusterNode \<Rightarrow> int list" where
  "node_slots n = concat (map (\<lambda>r. [sr_Start r..sr_End r]) (cn_Slots n))"

text \<open>One task added by the inner loop, and the runs of the inner loop.\<close>

inductive move_slot ::
  "int \<Rightarrow> nat \<Rightarrow> int \<Rightarrow> 'w ClusterManager \<times> nat \<times> slotTask list \<Rightarrow> 'w ClusterManager \<times> nat \<times> slotTask list \<Rightarrow> bool" where
  "i < length (tp_empty (cm_topo c)) \<Longrightarrow> tp_empty (cm_topo c) ! i = Some p \<Longrightarrow>
   cn_ID (cm_heap c a) \<noteq> cn_ID (cm_heap c p) \<Longrightarrow> c1 = add_slots a (- 1) (add_slots p 1 c) \<Longrightarrow>
   move_slot newV a x (c, i, ts)
     (c1, if cn_SlotsNum (cm_heap c1 p) = newV then i + 1 else i, ts @ [buildSlotTask x (cm_heap c a) (cm_heap c p) c])"

inductive range_run ::
  "int \<Rightarrow> nat \<Rightarrow> int list \<Rightarrow> 'w ClusterManager \<times> nat \<times> slotTask list \<Rightarrow> 'w ClusterManager \<times> nat \<times> slotTask list \<Rightarrow> bool"
  for newV :: int and a :: nat where
  stop: "range_run newV a xs s s"
| last: "move_slot newV a x s s1 \<Longrightarrow> cn_SlotsNum (cm_heap (fst s1) a) = newV \<Longrightarrow> range_run newV a (x # xs) s s1"
| more: "move_slot newV a x s s1 \<Longrightarrow> cn_SlotsNum (cm_heap (fst s1) a) \<noteq> newV \<Longrightarrow> range_run newV a xs s1 s' \<Longrightarrow>
    range_run newV a (x # xs) s s'"

lemma collect_range_run: "collect_range newV a xs s = (s', e) \<Longrightarrow> range_run newV a xs s s'"
proof (induction newV a xs s arbitrary: s' e rule: collect_range.induct)
  case (1 newV a s)
  then show ?case by (simp add: range_run.stop)
next
  case (2 newV a x xs c i ts)
  show ?case
  proof (cases "i < length (tp_empty (cm_topo c)) \<and> (\<exists>p. tp_empty (cm_topo c) ! i = Some p \<and> cn_ID (cm_heap c a) \<noteq> cn_ID (cm_heap c p))")
    case False
    then have "s' = (c, i, ts)" using 2(2) by (auto split: if_splits option.splits)
    then show ?thesis by (simp add: range_run.stop)
  next
    case True
    then obtain p where p: "i < length (tp_empty (cm_topo c))" "tp_empty (cm_topo c) ! i = Some p"
      "cn_ID (cm_heap c a) \<noteq> cn_ID (cm_heap c p)" by blast
    let ?c1 = "add_slots a (- 1) (add_slots p 1 c)"
    let ?s1 = "(?c1, if cn_SlotsNum (cm_heap ?c1 p) = newV then i + 1 else i, ts @ [buildSlotTask x (cm_heap c a) (cm_heap c p) c])"
    have m: "move_slot newV a x (c, i, ts) ?s1" by (rule move_slot.intros [OF p refl])
    show ?thesis
    proof (cases "cn_SlotsNum (cm_heap ?c1 a) = newV")
      case True
      then have "s' = ?s1" using 2(2) p by (simp add: Let_def)
      then show ?thesis using range_run.last [OF m] True by simp
    next
      case False
      then have "collect_range newV a xs ?s1 = (s', e)" using 2(2) p by (simp add: Let_def)
      from 2(1) [OF _ p(2) p(3) refl refl refl False this] p(1) range_run.more [OF m] False
      show ?thesis by simp
    qed
  qed
qed

text \<open>Planning changes nothing but the slot counts.\<close>

definition same_plan :: "'w ClusterManager \<Rightarrow> 'w ClusterManager \<Rightarrow> bool" where
  "same_plan c d = (cm_topo d = cm_topo c \<and> cm_nodeManager d = cm_nodeManager c \<and> cm_world d = cm_world c
     \<and> cm_cacheInvalidator d = cm_cacheInvalidator c
     \<and> (\<forall>p. (cm_heap d p)\<lparr>cn_SlotsNum := 0\<rparr> = (cm_heap c p)\<lparr>cn_SlotsNum := 0\<rparr>))"

lemma same_plan_refl [simp]: "same_plan c c"
  by (simp add: same_plan_def)

lemma same_plan_trans: "same_plan c d \<Longrightarrow> same_plan d e \<Longrightarrow> same_plan c e"
  by (simp add: same_plan_def)

lemma same_plan_fields:
  assumes "same_plan c d"
  shows "cm_topo d = cm_topo c" "cm_nodeManager d = cm_nodeManager c"
    "cn_ID (cm_heap d p) = cn_ID (cm_heap c p)" "cn_IP (cm_heap d p) = cn_IP (cm_heap c p)"
    "cn_Slots (cm_heap d p) = cn_Slots (cm_heap c p)" "cn_ClusterName (cm_heap d p) = cn_ClusterName (cm_heap c p)"
proof -
  have "(cm_heap d p)\<lparr>cn_SlotsNum := 0\<rparr> = (cm_heap c p)\<lparr>cn_SlotsNum := 0\<rparr>"
    using assms unfolding same_plan_def by blast
  then show "cn_ID (cm_heap d p) = cn_ID (cm_heap c p)" "cn_IP (cm_heap d p) = cn_IP (cm_heap c p)"
    "cn_Slots (cm_heap d p) = cn_Slots (cm_heap c p)" "cn_ClusterName (cm_heap d p) = cn_ClusterName (cm_heap c p)"
    by (cases "cm_heap d p"; cases "cm_heap c p"; simp)+
  show "cm_topo d = cm_topo c" "cm_nodeManager d = cm_nodeManager c" using assms by (simp_all add: same_plan_def)
qed

lemma same_plan_add: "same_plan c (add_slots p d c)"
  by (simp add: same_plan_def add_slots_def)

lemma move_same: "move_slot newV a x s s1 \<Longrightarrow> same_plan (fst s) (fst s1)"
  by (induction rule: move_slot.induct) (auto intro: same_plan_trans same_plan_add)

lemma range_run_same: "range_run newV a xs s s' \<Longrightarrow> same_plan (fst s) (fst s')"
  by (induction rule: range_run.induct) (auto intro: same_plan_trans move_same)

lemma move_slotE:
  assumes "move_slot newV a x s s1"
  obtains p where "fst (snd s) < length (tp_empty (cm_topo (fst s)))" "tp_empty (cm_topo (fst s)) ! fst (snd s) = Some p" "p \<noteq> a"
    "cn_ID (cm_heap (fst s) a) \<noteq> cn_ID (cm_heap (fst s) p)"
    "\<And>q. cn_SlotsNum (cm_heap (fst s1) q) =
       cn_SlotsNum (cm_heap (fst s) q) + (if q = p then 1 else if q = a then - 1 else 0)"
    "fst (snd s1) = (if cn_SlotsNum (cm_heap (fst s) p) + 1 = newV then fst (snd s) + 1 else fst (snd s))"
    "snd (snd s1) = snd (snd s) @ [buildSlotTask x (cm_heap (fst s) a) (cm_heap (fst s) p) (fst s)]"
proof -
  from assms show thesis
  proof (cases rule: move_slot.cases)
    case (1 i c p c1 ts)
    have "p \<noteq> a" using 1 by auto
    then show thesis using 1 by (intro that [of p]) (auto simp: add_slots_def)
  qed
qed

text \<open>Who may receive: distinct nodes, none above its share, those still to be filled below it.\<close>

definition empties_ok :: "int \<Rightarrow> 'w ClusterManager \<times> nat \<times> slotTask list \<Rightarrow> bool" where
  "empties_ok newV s =
     (let es = tp_empty (cm_topo (fst s)) in distinct es \<and> None \<notin> set es
      \<and> (\<forall>j < length es. cn_SlotsNum (cm_heap (fst s) (the (es ! j))) \<le> newV
          \<and> (fst (snd s) \<le> j \<longrightarrow> cn_SlotsNum (cm_heap (fst s) (the (es ! j))) < newV)))"

lemma move_empties:
  assumes "move_slot newV a x s s1" "empties_ok newV s"
  shows "empties_ok newV s1"
proof -
  let ?es = "tp_empty (cm_topo (fst s))"
  obtain p where p: "fst (snd s) < length ?es" "?es ! fst (snd s) = Some p" "p \<noteq> a"
    "\<And>q. cn_SlotsNum (cm_heap (fst s1) q) = cn_SlotsNum (cm_heap (fst s) q) + (if q = p then 1 else if q = a then - 1 else 0)"
    "fst (snd s1) = (if cn_SlotsNum (cm_heap (fst s) p) + 1 = newV then fst (snd s) + 1 else fst (snd s))"
    using move_slotE [OF assms(1)] by metis
  have es: "distinct ?es" "None \<notin> set ?es"
    and b: "\<And>j. j < length ?es \<Longrightarrow> cn_SlotsNum (cm_heap (fst s) (the (?es ! j))) \<le> newV"
    "\<And>j. j < length ?es \<Longrightarrow> fst (snd s) \<le> j \<Longrightarrow> cn_SlotsNum (cm_heap (fst s) (the (?es ! j))) < newV"
    using assms(2) by (simp_all add: empties_ok_def Let_def)
  have topo: "tp_empty (cm_topo (fst s1)) = ?es" using same_plan_fields(1) [OF move_same [OF assms(1)]] by simp
  have eq: "the (?es ! j) = p \<longleftrightarrow> j = fst (snd s)" if "j < length ?es" for j
  proof -
    have "?es ! j = Some p \<longleftrightarrow> j = fst (snd s)" using nth_eq_iff_index_eq [OF es(1) that p(1)] p(2) by simp
    moreover have "?es ! j \<noteq> None" using es(2) that nth_mem by metis
    ultimately show ?thesis by auto
  qed
  have "cn_SlotsNum (cm_heap (fst s1) (the (?es ! j))) \<le> newV
      \<and> (fst (snd s1) \<le> j \<longrightarrow> cn_SlotsNum (cm_heap (fst s1) (the (?es ! j))) < newV)" if j: "j < length ?es" for j
    using b(1) [OF j] b(2) [OF j] b(2) [OF p(1)] eq [OF j] p(2,3) by (auto simp: p(4,5))
  then show ?thesis using es by (simp add: empties_ok_def Let_def topo)
qed

lemma range_run_empties: "range_run newV a xs s s' \<Longrightarrow> empties_ok newV s \<Longrightarrow> empties_ok newV s'"
  by (induction rule: range_run.induct) (auto intro: move_empties)

lemma range_run_lower:
  "range_run newV a xs s s' \<Longrightarrow> newV < cn_SlotsNum (cm_heap (fst s) a) \<Longrightarrow> newV \<le> cn_SlotsNum (cm_heap (fst s') a)"
proof (induction rule: range_run.induct)
  case (more x s s1 xs s')
  obtain p where "p \<noteq> a" "cn_SlotsNum (cm_heap (fst s1) a) = cn_SlotsNum (cm_heap (fst s) a) + (if a = p then 1 else if a = a then - 1 else 0)"
    by (rule move_slotE [OF more(1)]) blast
  then show ?case using more by auto
qed auto

lemma range_run_mono:
  "range_run newV a xs s s' \<Longrightarrow> b \<noteq> a \<Longrightarrow> cn_SlotsNum (cm_heap (fst s) b) \<le> cn_SlotsNum (cm_heap (fst s') b)"
proof (induction rule: range_run.induct)
  case (last x s s1 xs)
  then show ?case by (auto elim!: move_slotE)
next
  case (more x s s1 xs s')
  have "cn_SlotsNum (cm_heap (fst s) b) \<le> cn_SlotsNum (cm_heap (fst s1) b)"
    using more(1,5) by (auto elim!: move_slotE)
  then show ?case using more by simp
qed simp

text \<open>A task that moves a slot away from the node at \<open>a\<close>.\<close>

definition task_from :: "'w ClusterManager \<Rightarrow> nat \<Rightarrow> slotTask \<Rightarrow> bool" where
  "task_from c a t =
     (st_fromID t = cn_ID (cm_heap c a) \<and> st_fromIP t = cn_IP (cm_heap c a) \<and> st_toID t \<noteq> st_fromID t
      \<and> (\<exists>p. Some p \<in> set (tp_empty (cm_topo c)) \<and> st_toID t = cn_ID (cm_heap c p) \<and> st_toIP t = cn_IP (cm_heap c p)))"

lemma task_from_same: "same_plan c d \<Longrightarrow> task_from d = task_from c"
  by (simp add: fun_eq_iff task_from_def same_plan_fields)

lemma range_run_tasks:
  "range_run newV a xs s s' \<Longrightarrow> \<exists>new. snd (snd s') = snd (snd s) @ new \<and> prefix (map st_slot new) xs
     \<and> (\<forall>t \<in> set new. task_from (fst s) a t)"
proof (induction rule: range_run.induct)
  case (stop xs s)
  then show ?case by simp
next
  case (last x s s1 xs)
  obtain p where p: "fst (snd s) < length (tp_empty (cm_topo (fst s)))" "tp_empty (cm_topo (fst s)) ! fst (snd s) = Some p"
    "cn_ID (cm_heap (fst s) a) \<noteq> cn_ID (cm_heap (fst s) p)"
    "snd (snd s1) = snd (snd s) @ [buildSlotTask x (cm_heap (fst s) a) (cm_heap (fst s) p) (fst s)]"
    using move_slotE [OF last(1)] by metis
  have "Some p \<in> set (tp_empty (cm_topo (fst s)))" using p(1,2) by (metis nth_mem)
  then show ?case using p(3,4) by (auto simp: task_from_def buildSlotTask_def Let_def split: option.split)
next
  case (more x s s1 xs s')
  obtain p where p: "fst (snd s) < length (tp_empty (cm_topo (fst s)))" "tp_empty (cm_topo (fst s)) ! fst (snd s) = Some p"
    "cn_ID (cm_heap (fst s) a) \<noteq> cn_ID (cm_heap (fst s) p)"
    "snd (snd s1) = snd (snd s) @ [buildSlotTask x (cm_heap (fst s) a) (cm_heap (fst s) p) (fst s)]"
    using move_slotE [OF more(1)] by metis
  let ?t = "buildSlotTask x (cm_heap (fst s) a) (cm_heap (fst s) p) (fst s)"
  have "Some p \<in> set (tp_empty (cm_topo (fst s)))" using p(1,2) by (metis nth_mem)
  then have t: "task_from (fst s) a ?t" "st_slot ?t = x"
    using p(3) by (auto simp: task_from_def buildSlotTask_def Let_def split: option.split)
  obtain new where new: "snd (snd s') = snd (snd s1) @ new" "prefix (map st_slot new) xs" "\<forall>t \<in> set new. task_from (fst s1) a t"
    using more.IH by blast
  then show ?case using t p(4) task_from_same [OF move_same [OF more(1)]] by (intro exI [of _ "?t # new"]) simp
qed

text \<open>What a run over all the ranges of one master adds.\<close>

lemma collect_ranges_plan:
  "collect_ranges newV a rs s = (s', e) \<Longrightarrow> empties_ok newV s \<Longrightarrow>
   same_plan (fst s) (fst s') \<and> empties_ok newV s'
   \<and> (\<forall>b. b \<noteq> a \<longrightarrow> cn_SlotsNum (cm_heap (fst s) b) \<le> cn_SlotsNum (cm_heap (fst s') b))
   \<and> (\<exists>new. snd (snd s') = snd (snd s) @ new \<and> (\<forall>t \<in> set new. task_from (fst s) a t)
        \<and> set (map st_slot new) \<subseteq> set (concat (map (\<lambda>r. [sr_Start r..sr_End r]) rs))
        \<and> (distinct (concat (map (\<lambda>r. [sr_Start r..sr_End r]) rs)) \<longrightarrow> distinct (map st_slot new)))"
proof (induction rs arbitrary: s)
  case (Cons r rs)
  let ?R = "\<lambda>r. [sr_Start r..sr_End r]"
  obtain s1 e1 where c: "collect_range newV a (rev (?R r)) s = (s1, e1)" by fastforce
  note run = collect_range_run [OF c]
  obtain n1 where n1: "snd (snd s1) = snd (snd s) @ n1" "prefix (map st_slot n1) (rev (?R r))" "\<forall>t \<in> set n1. task_from (fst s) a t"
    using range_run_tasks [OF run] by blast
  have sub: "set (map st_slot n1) \<subseteq> set (?R r)" using set_mono_prefix [OF n1(2)] by simp
  have dist: "distinct (map st_slot n1)"
    using n1(2) by (metis distinct_append distinct_rev distinct_upto prefix_def)
  note one = range_run_same [OF run] range_run_empties [OF run Cons.prems(2)] range_run_mono [OF run]
  show ?case
  proof (cases e1)
    case None
    have rest: "collect_ranges newV a rs s1 = (s', e)" using Cons.prems(1) c None by simp
    obtain n2 where IH: "same_plan (fst s1) (fst s')" "empties_ok newV s'"
      "\<And>b. b \<noteq> a \<Longrightarrow> cn_SlotsNum (cm_heap (fst s1) b) \<le> cn_SlotsNum (cm_heap (fst s') b)"
      "snd (snd s') = snd (snd s1) @ n2" "\<forall>t \<in> set n2. task_from (fst s1) a t"
      "set (map st_slot n2) \<subseteq> set (concat (map ?R rs))"
      "distinct (concat (map ?R rs)) \<longrightarrow> distinct (map st_slot n2)"
      using Cons.IH [OF rest one(2)] by blast
    have "same_plan (fst s) (fst s')" using same_plan_trans [OF one(1) IH(1)] .
    moreover have "\<forall>b. b \<noteq> a \<longrightarrow> cn_SlotsNum (cm_heap (fst s) b) \<le> cn_SlotsNum (cm_heap (fst s') b)"
      using one(3) IH(3) order_trans by blast
    moreover have "\<forall>t \<in> set (n1 @ n2). task_from (fst s) a t"
      using n1(3) IH(5) task_from_same [OF one(1)] by auto
    moreover have "set (map st_slot (n1 @ n2)) \<subseteq> set (concat (map ?R (r # rs)))" using sub IH(6) by auto
    moreover have "distinct (concat (map ?R (r # rs))) \<longrightarrow> distinct (map st_slot (n1 @ n2))"
      using dist sub IH(6,7) by (simp only: map_append distinct_append list.map concat.simps) blast
    moreover have "snd (snd s') = snd (snd s) @ (n1 @ n2)" using IH(4) n1(1) by simp
    ultimately show ?thesis using IH(2) by blast
  next
    case (Some x)
    then have "s' = s1" using Cons.prems(1) c by simp
    then show ?thesis using one n1(1,3) sub dist by auto
  qed
qed simp

lemma collect_ranges_topo: "collect_ranges newV a rs s = (s', e) \<Longrightarrow> cm_topo (fst s') = cm_topo (fst s)"
proof (induction rs arbitrary: s)
  case (Cons r rs)
  obtain s1 e1 where c: "collect_range newV a (rev [sr_Start r..sr_End r]) s = (s1, e1)" by fastforce
  then show ?case
    using Cons.IH [of s1] Cons.prems same_plan_fields(1) [OF range_run_same [OF collect_range_run [OF c]]]
    by (cases e1) simp_all
qed simp

lemma collect_single_lower:
  assumes "collect_ranges newV a rs s = (s', e)" "length rs \<le> 1" "newV < cn_SlotsNum (cm_heap (fst s) a)"
  shows "newV \<le> cn_SlotsNum (cm_heap (fst s') a)"
proof (cases rs)
  case (Cons r rs')
  then obtain s1 e1 where c: "collect_range newV a (rev [sr_Start r..sr_End r]) s = (s1, e1)" and "rs = [r]" "s1 = s'"
    using assms(1,2) by (cases "collect_range newV a (rev [sr_Start r..sr_End r]) s") (auto split: option.splits)
  then show ?thesis using range_run_lower [OF collect_range_run [OF c] assms(3)] by simp
qed (use assms in simp)

definition owned :: "'w ClusterManager \<Rightarrow> string \<Rightarrow> int list" where
  "owned c m = (case tp_nodes (cm_topo c) m of None \<Rightarrow> [] | Some a \<Rightarrow> node_slots (cm_heap c a))"

lemma owned_same: "same_plan c d \<Longrightarrow> owned d = owned c"
  by (simp add: fun_eq_iff owned_def node_slots_def same_plan_fields split: option.split)

text \<open>The ids of the index are the ids of the nodes they lead to.\<close>

definition ids_exact :: "'w ClusterManager \<Rightarrow> bool" where
  "ids_exact c = (\<forall>m a. tp_nodes (cm_topo c) m = Some a \<longrightarrow> cn_ID (cm_heap c a) = m)"

lemma ids_exact_same: "same_plan c d \<Longrightarrow> ids_exact d = ids_exact c"
  by (simp add: ids_exact_def same_plan_fields)

definition plan_task :: "'w ClusterManager \<Rightarrow> string list \<Rightarrow> slotTask \<Rightarrow> bool" where
  "plan_task c ids t = (\<exists>a. st_fromID t \<in> set ids \<and> tp_nodes (cm_topo c) (st_fromID t) = Some a
     \<and> task_from c a t \<and> st_slot t \<in> set (owned c (st_fromID t)))"

lemma plan_task_same: "same_plan c d \<Longrightarrow> plan_task d = plan_task c"
  by (simp add: fun_eq_iff plan_task_def task_from_same owned_same same_plan_fields)

lemma collect_masters_plan:
  "collect_masters cn newV ids s = (s', e) \<Longrightarrow> empties_ok newV s \<Longrightarrow> ids_exact (fst s) \<Longrightarrow>
   same_plan (fst s) (fst s') \<and> empties_ok newV s'
   \<and> (\<exists>new. snd (snd s') = snd (snd s) @ new \<and> (\<forall>t \<in> set new. plan_task (fst s) ids t)
        \<and> (distinct (concat (map (owned (fst s)) ids)) \<longrightarrow> distinct (map st_slot new)))"
proof (induction ids arbitrary: s)
  case (Cons m ids)
  show ?case
  proof (cases "collect_masters cn newV ids s = (s', e)")
    case True
    from Cons.IH [OF this Cons.prems(2,3)] obtain new where new: "same_plan (fst s) (fst s')" "empties_ok newV s'"
      "snd (snd s') = snd (snd s) @ new" "\<forall>t \<in> set new. plan_task (fst s) ids t"
      "distinct (concat (map (owned (fst s)) ids)) \<longrightarrow> distinct (map st_slot new)" by blast
    have "\<forall>t \<in> set new. plan_task (fst s) (m # ids) t" using new(4) by (auto simp: plan_task_def)
    then show ?thesis using new by (intro conjI exI [of _ new]) auto
  next
    case False
    then obtain a where a: "tp_nodes (cm_topo (fst s)) m = Some a" using Cons.prems(1) by (auto split: option.splits)
    obtain s1 e1 where c: "collectTasksFromMaster newV a s = (s1, e1)" by fastforce
    have res: "(s', e) = (case e1 of None \<Rightarrow> collect_masters cn newV ids s1 | Some x \<Rightarrow> (s1, Some x))"
      using Cons.prems(1) False a c by (auto simp: Let_def split: if_splits)
    note cr = c [unfolded collectTasksFromMaster_def]
    obtain n1 where p: "same_plan (fst s) (fst s1)" "empties_ok newV s1" "snd (snd s1) = snd (snd s) @ n1"
      "\<forall>t \<in> set n1. task_from (fst s) a t" "set (map st_slot n1) \<subseteq> set (node_slots (cm_heap (fst s) a))"
      "distinct (node_slots (cm_heap (fst s) a)) \<longrightarrow> distinct (map st_slot n1)"
      using collect_ranges_plan [OF cr Cons.prems(2)] unfolding node_slots_def by blast
    have own: "owned (fst s) m = node_slots (cm_heap (fst s) a)" by (simp add: owned_def a)
    have id: "cn_ID (cm_heap (fst s) a) = m" using Cons.prems(3) a by (simp add: ids_exact_def)
    have t1: "\<forall>t \<in> set n1. plan_task (fst s) (m # ids) t"
      using p(4,5) by (auto simp: plan_task_def task_from_def id a own)
    show ?thesis
    proof (cases e1)
      case (Some x)
      then show ?thesis using res p t1 own by (intro conjI exI [of _ n1]) auto
    next
      case None
      then have rest: "collect_masters cn newV ids s1 = (s', e)" using res by simp
      have ex: "ids_exact (fst s1)" using ids_exact_same [OF p(1)] Cons.prems(3) by simp
      obtain n2 where q: "same_plan (fst s1) (fst s')" "empties_ok newV s'" "snd (snd s') = snd (snd s1) @ n2"
        "\<forall>t \<in> set n2. plan_task (fst s) ids t"
        "distinct (concat (map (owned (fst s)) ids)) \<longrightarrow> distinct (map st_slot n2)"
        using Cons.IH [OF rest p(2) ex] unfolding plan_task_same [OF p(1)] owned_same [OF p(1)] by blast
      have "set (map st_slot n2) \<subseteq> set (concat (map (owned (fst s)) ids))"
        using q(4) by (auto simp: plan_task_def)
      then have d: "distinct (concat (map (owned (fst s)) (m # ids))) \<longrightarrow> distinct (map st_slot (n1 @ n2))"
        using p(5,6) q(5) own by (simp only: map_append distinct_append list.map concat.simps) blast
      have "\<forall>t \<in> set (n1 @ n2). plan_task (fst s) (m # ids) t"
        using t1 q(4) by (auto simp: plan_task_def)
      then show ?thesis using same_plan_trans [OF p(1) q(1)] q(2,3) p(3) d by (intro conjI exI [of _ "n1 @ n2"]) simp_all
    qed
  qed
qed simp

lemma collect_masters_mono:
  "collect_masters cn newV ids s = (s', e) \<Longrightarrow> empties_ok newV s \<Longrightarrow> \<forall>m \<in> set ids. tp_nodes (cm_topo (fst s)) m \<noteq> Some b \<Longrightarrow>
   cn_SlotsNum (cm_heap (fst s) b) \<le> cn_SlotsNum (cm_heap (fst s') b)"
proof (induction ids arbitrary: s)
  case (Cons m ids)
  show ?case
  proof (cases "collect_masters cn newV ids s = (s', e)")
    case True
    then show ?thesis using Cons.IH Cons.prems(2,3) by simp
  next
    case False
    then obtain a where a: "tp_nodes (cm_topo (fst s)) m = Some a" using Cons.prems(1) by (auto split: option.splits)
    then have ab: "b \<noteq> a" using Cons.prems(3) by auto
    obtain s1 e1 where c: "collectTasksFromMaster newV a s = (s1, e1)" by fastforce
    have res: "(s', e) = (case e1 of None \<Rightarrow> collect_masters cn newV ids s1 | Some x \<Rightarrow> (s1, Some x))"
      using Cons.prems(1) False a c by (auto simp: Let_def split: if_splits)
    have p: "same_plan (fst s) (fst s1)" "empties_ok newV s1"
      "cn_SlotsNum (cm_heap (fst s) b) \<le> cn_SlotsNum (cm_heap (fst s1) b)"
      using collect_ranges_plan [OF c [unfolded collectTasksFromMaster_def] Cons.prems(2)] ab by blast+
    show ?thesis
    proof (cases e1)
      case None
      then have "cn_SlotsNum (cm_heap (fst s1) b) \<le> cn_SlotsNum (cm_heap (fst s') b)"
        using Cons.IH [of s1] res p(2) Cons.prems(3) same_plan_fields(1) [OF p(1)] by simp
      then show ?thesis using p(3) by simp
    qed (use res p(3) in simp)
  qed
qed simp

lemma collect_masters_lower:
  "collect_masters cn newV ids s = (s', e) \<Longrightarrow> empties_ok newV s \<Longrightarrow> ids_exact (fst s) \<Longrightarrow> distinct ids \<Longrightarrow>
   length (cn_Slots (cm_heap (fst s) a)) \<le> 1 \<Longrightarrow> newV \<le> cn_SlotsNum (cm_heap (fst s) a) \<Longrightarrow>
   newV \<le> cn_SlotsNum (cm_heap (fst s') a)"
proof (induction ids arbitrary: s)
  case (Cons m ids)
  show ?case
  proof (cases "collect_masters cn newV ids s = (s', e)")
    case True
    then show ?thesis using Cons.IH Cons.prems(2-) by simp
  next
    case False
    then obtain b where b: "tp_nodes (cm_topo (fst s)) m = Some b" "newV < cn_SlotsNum (cm_heap (fst s) b)"
      using Cons.prems(1) by (auto simp: Let_def split: option.splits if_splits)
    obtain s1 e1 where c: "collectTasksFromMaster newV b s = (s1, e1)" by fastforce
    note cr = c [unfolded collectTasksFromMaster_def]
    have res: "(s', e) = (case e1 of None \<Rightarrow> collect_masters cn newV ids s1 | Some x \<Rightarrow> (s1, Some x))"
      using Cons.prems(1) False b(1) c by (auto simp: Let_def split: if_splits)
    have p: "same_plan (fst s) (fst s1)" "empties_ok newV s1"
      "a \<noteq> b \<Longrightarrow> cn_SlotsNum (cm_heap (fst s) a) \<le> cn_SlotsNum (cm_heap (fst s1) a)"
      using collect_ranges_plan [OF cr Cons.prems(2)] by blast+
    have low: "newV \<le> cn_SlotsNum (cm_heap (fst s1) a)"
      using p(3) Cons.prems(5,6) collect_single_lower [OF cr] b(2) by (cases "a = b") force+
    show ?thesis
    proof (cases e1)
      case None
      then show ?thesis
        using Cons.IH [of s1] res p(2) ids_exact_same [OF p(1)] Cons.prems(3-5) low same_plan_fields(5) [OF p(1)] by simp
    qed (use res low in simp)
  qed
qed simp

text \<open>C2: the plan of a migration moves only slots that their source owns, each slot at most once, never
  to the source itself and only to the empty masters, and fills no empty master beyond its
  share. A master whose slots are one range keeps its share.\<close>

theorem collectSlotTasks_sound:
  assumes "collectSlotTasks clusterName c = (c', Inr tasks)" and "topo_inv c"
    and "distinct (tp_masterIDs (cm_topo c))" and "distinct (concat (map (owned c) (tp_masterIDs (cm_topo c))))"
    and "distinct (tp_empty (cm_topo c))" and "None \<notin> set (tp_empty (cm_topo c))"
    and "newV = TotalSlots div int (length (tp_masterIDs (cm_topo c)))"
    and "\<forall>p. Some p \<in> set (tp_empty (cm_topo c)) \<longrightarrow> cn_SlotsNum (cm_heap c p) < newV"
  shows "distinct (map st_slot tasks)
    \<and> (\<forall>t \<in> set tasks. st_slot t \<in> set (owned c (st_fromID t)) \<and> st_toID t \<noteq> st_fromID t
         \<and> (\<exists>p. Some p \<in> set (tp_empty (cm_topo c)) \<and> st_toID t = cn_ID (cm_heap c p)))
    \<and> (\<forall>p. Some p \<in> set (tp_empty (cm_topo c)) \<longrightarrow> cn_SlotsNum (cm_heap c' p) \<le> newV)
    \<and> (\<forall>a. length (cn_Slots (cm_heap c a)) \<le> 1 \<longrightarrow> newV \<le> cn_SlotsNum (cm_heap c a) \<longrightarrow> newV \<le> cn_SlotsNum (cm_heap c' a))"
proof -
  let ?ids = "tp_masterIDs (cm_topo c)" and ?es = "tp_empty (cm_topo c)"
  obtain i where run: "collect_masters clusterName newV ?ids (c, 0, []) = ((c', i, tasks), None)"
    using assms(1,7) by (auto simp: collectSlotTasks_def Let_def split: prod.splits option.splits)
  have "?es ! j = Some (the (?es ! j))" if "j < length ?es" for j
    using assms(6) nth_mem [OF that] by (cases "?es ! j") auto
  then have "Some (the (?es ! j)) \<in> set ?es" if "j < length ?es" for j using nth_mem that by metis
  then have "\<forall>j < length ?es. cn_SlotsNum (cm_heap c (the (?es ! j))) < newV" using assms(8) by blast
  then have ok: "empties_ok newV (c, 0, [])" using assms(5,6) by (simp add: empties_ok_def Let_def less_imp_le)
  have ex: "ids_exact (fst (c, 0 :: nat, [] :: slotTask list))" using topo_invD(3) [OF assms(2)] by (simp add: ids_exact_def)
  note plan = collect_masters_plan [OF run ok ex]
  have tasks: "\<forall>t \<in> set tasks. plan_task c ?ids t" "distinct (map st_slot tasks)"
    using plan assms(4) by auto
  have same: "same_plan c c'" and ok': "empties_ok newV (c', i, tasks)" using plan by simp_all
  have "cn_SlotsNum (cm_heap c' p) \<le> newV" if p: "Some p \<in> set ?es" for p
  proof -
    obtain j where "j < length ?es" "?es ! j = Some p" using p by (auto simp: in_set_conv_nth)
    then show ?thesis using ok' same_plan_fields(1) [OF same] by (fastforce simp: empties_ok_def Let_def)
  qed
  moreover have "newV \<le> cn_SlotsNum (cm_heap c' a)"
    if "length (cn_Slots (cm_heap c a)) \<le> 1" "newV \<le> cn_SlotsNum (cm_heap c a)" for a
    using collect_masters_lower [OF run ok ex assms(3), of a] that by simp
  ultimately show ?thesis using tasks unfolding plan_task_def task_from_def by blast
qed

section \<open>A master with several ranges\<close>

lemma collect_range_all:
  assumes "i < length (tp_empty (cm_topo c))" "tp_empty (cm_topo c) ! i = Some p" "cn_ID (cm_heap c a) \<noteq> cn_ID (cm_heap c p)"
    and "cn_SlotsNum (cm_heap c a) \<le> newV" "cn_SlotsNum (cm_heap c p) + int (length xs) < newV"
  shows "\<exists>c' ts'. collect_range newV a xs (c, i, ts) = ((c', i, ts @ ts'), None) \<and> length ts' = length xs
    \<and> cn_SlotsNum (cm_heap c' a) = cn_SlotsNum (cm_heap c a) - int (length xs)"
  using assms
proof (induction xs arbitrary: c ts)
  case (Cons x xs)
  let ?c = "add_slots a (- 1) (add_slots p 1 c)" and ?t = "buildSlotTask x (cm_heap c a) (cm_heap c p) c"
  have ap: "a \<noteq> p" using Cons.prems(3) by auto
  have c: "cm_topo ?c = cm_topo c" "cn_SlotsNum (cm_heap ?c a) = cn_SlotsNum (cm_heap c a) - 1"
    "cn_SlotsNum (cm_heap ?c p) = cn_SlotsNum (cm_heap c p) + 1" "cn_ID (cm_heap ?c q) = cn_ID (cm_heap c q)" for q
    using ap by (simp_all add: add_slots_def)
  have "\<exists>c' ts'. collect_range newV a xs (?c, i, ts @ [?t]) = ((c', i, (ts @ [?t]) @ ts'), None) \<and> length ts' = length xs
    \<and> cn_SlotsNum (cm_heap c' a) = cn_SlotsNum (cm_heap ?c a) - int (length xs)"
    using Cons.prems by (intro Cons.IH) (simp_all add: c)
  then obtain c' ts' where r: "collect_range newV a xs (?c, i, ts @ [?t]) = ((c', i, (ts @ [?t]) @ ts'), None)"
    "length ts' = length xs" "cn_SlotsNum (cm_heap c' a) = cn_SlotsNum (cm_heap ?c a) - int (length xs)" by blast
  then have "collect_range newV a (x # xs) (c, i, ts) = ((c', i, ts @ ?t # ts'), None)"
    using Cons.prems by (simp add: Let_def c)
  then show ?case using r c(2) by (intro exI [of _ c'] exI [of _ "?t # ts'"]) simp
qed simp

lemma collect_range_surplus:
  assumes "i < length (tp_empty (cm_topo c))" "tp_empty (cm_topo c) ! i = Some p" "cn_ID (cm_heap c a) \<noteq> cn_ID (cm_heap c p)"
    and "cn_SlotsNum (cm_heap c a) = newV + int k" "0 < k" "k \<le> length xs" "cn_SlotsNum (cm_heap c p) + int k < newV"
  shows "\<exists>c' ts'. collect_range newV a xs (c, i, ts) = ((c', i, ts @ ts'), None) \<and> length ts' = k \<and> same_plan c c'
    \<and> cn_SlotsNum (cm_heap c' a) = newV \<and> cn_SlotsNum (cm_heap c' p) = cn_SlotsNum (cm_heap c p) + int k"
  using assms
proof (induction xs arbitrary: c ts k)
  case (Cons x xs)
  let ?c = "add_slots a (- 1) (add_slots p 1 c)" and ?t = "buildSlotTask x (cm_heap c a) (cm_heap c p) c"
  have ap: "a \<noteq> p" using Cons.prems(3) by auto
  have c: "cm_topo ?c = cm_topo c" "cn_SlotsNum (cm_heap ?c a) = cn_SlotsNum (cm_heap c a) - 1"
    "cn_SlotsNum (cm_heap ?c p) = cn_SlotsNum (cm_heap c p) + 1" "cn_ID (cm_heap ?c q) = cn_ID (cm_heap c q)" for q
    using ap by (simp_all add: add_slots_def)
  have same: "same_plan c ?c" by (auto intro: same_plan_trans same_plan_add)
  show ?case
  proof (cases "k = 1")
    case True
    then have "collect_range newV a (x # xs) (c, i, ts) = ((?c, i, ts @ [?t]), None)"
      using Cons.prems by (simp add: Let_def c)
    then show ?thesis using True Cons.prems(4) c(2,3) same by (intro exI [of _ ?c] exI [of _ "[?t]"]) simp
  next
    case False
    then obtain j where j: "k = Suc j" "0 < j" using Cons.prems(5) by (cases k) auto
    have "\<exists>c' ts'. collect_range newV a xs (?c, i, ts @ [?t]) = ((c', i, (ts @ [?t]) @ ts'), None) \<and> length ts' = j \<and> same_plan ?c c'
      \<and> cn_SlotsNum (cm_heap c' a) = newV \<and> cn_SlotsNum (cm_heap c' p) = cn_SlotsNum (cm_heap ?c p) + int j"
      using Cons.prems j by (intro Cons.IH) (simp_all add: c)
    then obtain c' ts' where r: "collect_range newV a xs (?c, i, ts @ [?t]) = ((c', i, (ts @ [?t]) @ ts'), None)"
      "length ts' = j" "same_plan ?c c'" "cn_SlotsNum (cm_heap c' a) = newV"
      "cn_SlotsNum (cm_heap c' p) = cn_SlotsNum (cm_heap ?c p) + int j" by blast
    then have "collect_range newV a (x # xs) (c, i, ts) = ((c', i, ts @ ?t # ts'), None)"
      using Cons.prems j by (simp add: Let_def c)
    then show ?thesis using r c(3) j same_plan_trans [OF same r(3)] by (intro exI [of _ c'] exI [of _ "?t # ts'"]) simp
  qed
qed simp

text \<open>a master with two slot ranges loses more than its surplus. When the surplus \<open>k\<close> is found in the
  first range, the loop leaves that range only, and the whole second range is planned to move
  as well as long as the empty master has room: the master ends below its share.\<close>

theorem two_ranges_overdrained:
  assumes "cn_Slots (cm_heap c a) = [r1, r2]" and "cn_SlotsNum (cm_heap c a) = newV + int k"
    and "0 < k" and "int k \<le> sr_End r1 - sr_Start r1 + 1" and "sr_Start r2 \<le> sr_End r2"
    and "i < length (tp_empty (cm_topo c))" and "tp_empty (cm_topo c) ! i = Some p"
    and "cn_ID (cm_heap c a) \<noteq> cn_ID (cm_heap c p)"
    and "cn_SlotsNum (cm_heap c p) + int k + (sr_End r2 - sr_Start r2 + 1) < newV"
  shows "\<exists>c' moved. collectTasksFromMaster newV a (c, i, ts) = ((c', i, ts @ moved), None)
    \<and> int (length moved) = int k + (sr_End r2 - sr_Start r2 + 1)
    \<and> cn_SlotsNum (cm_heap c' a) = newV - (sr_End r2 - sr_Start r2 + 1)"
proof -
  let ?x1 = "rev [sr_Start r1..sr_End r1]" and ?x2 = "rev [sr_Start r2..sr_End r2]"
  have len: "k \<le> length ?x1" "int (length ?x2) = sr_End r2 - sr_Start r2 + 1" using assms(4,5) by simp_all
  obtain c1 t1 where one: "collect_range newV a ?x1 (c, i, ts) = ((c1, i, ts @ t1), None)" "length t1 = k" "same_plan c c1"
    "cn_SlotsNum (cm_heap c1 a) = newV" "cn_SlotsNum (cm_heap c1 p) = cn_SlotsNum (cm_heap c p) + int k"
    using collect_range_surplus [OF assms(6,7,8,2,3) len(1), of ts] assms(5,9) by auto
  note f = same_plan_fields [OF one(3)]
  have room: "cn_SlotsNum (cm_heap c1 p) + int (length ?x2) < newV" unfolding one(5) len(2) using assms(9) by simp
  have "\<exists>c' ts'. collect_range newV a ?x2 (c1, i, ts @ t1) = ((c', i, (ts @ t1) @ ts'), None) \<and> length ts' = length ?x2
    \<and> cn_SlotsNum (cm_heap c' a) = cn_SlotsNum (cm_heap c1 a) - int (length ?x2)"
    by (rule collect_range_all [of _ _ p]) (use assms(6-8) one(4) room in \<open>simp_all add: f\<close>)
  then obtain c2 t2 where two: "collect_range newV a ?x2 (c1, i, ts @ t1) = ((c2, i, (ts @ t1) @ t2), None)"
    "length t2 = length ?x2" "cn_SlotsNum (cm_heap c2 a) = newV - int (length ?x2)" using one(4) by auto
  show ?thesis
    using one(1,2) two len(2) assms(1)
    by (intro exI [of _ c2] exI [of _ "t1 @ t2"]) (simp add: collectTasksFromMaster_def del: length_upto length_rev)
qed

text \<open>The example cluster with the slave as an empty master and the slots of the master in two ranges.\<close>

definition demo_plan :: "RuntimeConfig \<Rightarrow> int \<Rightarrow> SlotRange list \<Rightarrow> int ClusterManager" where
  "demo_plan cfg k rs = (AddNewMaster ''s1'' (AddNewMaster ''m1'' (demo_met cfg)))
     \<lparr>cm_heap := (\<lambda>_. zero_node)(0 := demo_master\<lparr>cn_Slots := rs, cn_SlotsNum := k\<rparr>, Suc 0 := demo_slave),
      cm_topo := (cm_topo (AddNewMaster ''s1'' (AddNewMaster ''m1'' (demo_met cfg))))\<lparr>tp_empty := [Some (Suc 0)]\<rparr>\<rparr>"

lemma demo_plan_fields:
  "tp_nodes (cm_topo (demo_plan cfg k rs)) = [''m1'' \<mapsto> 0, ''s1'' \<mapsto> Suc 0]"
  "tp_masterIDs (cm_topo (demo_plan cfg k rs)) = [''m1'', ''s1'']" "tp_empty (cm_topo (demo_plan cfg k rs)) = [Some (Suc 0)]"
  "cm_heap (demo_plan cfg k rs) 0 = demo_master\<lparr>cn_Slots := rs, cn_SlotsNum := k\<rparr>"
  "cm_heap (demo_plan cfg k rs) (Suc 0) = demo_slave"
  by (simp_all add: demo_plan_def AddNewMaster_def demo_met_topo)

lemma demo_plan_inv: "topo_inv (demo_plan cfg k rs)"
proof (rule topo_inv_cong [OF demo_met_topo(6) [of cfg]])
  have n: "cm_next (demo_met cfg) = 2"
    by (simp add: demo_met_def meet_node_def demo_manager_def NewClusterManager_def newTopology_def
        demo_master_def demo_slave_def Let_def)
  show "cm_next (demo_met cfg) \<le> cm_next (demo_plan cfg k rs)" by (simp add: demo_plan_def AddNewMaster_def demo_met_topo)
  show "a < cm_next (demo_plan cfg k rs)" if "Some a \<in> set (tp_empty (cm_topo (demo_plan cfg k rs)))" for a
    using that n by (simp add: demo_plan_fields) (simp add: demo_plan_def AddNewMaster_def demo_met_topo)
  fix a assume "a < cm_next (demo_met cfg)"
  then have "a = 0 \<or> a = Suc 0" using n by auto
  then show "cn_ID (cm_heap (demo_plan cfg k rs) a) = cn_ID (cm_heap (demo_met cfg) a)
      \<and> cn_IP (cm_heap (demo_plan cfg k rs) a) = cn_IP (cm_heap (demo_met cfg) a)"
    by (auto simp: demo_plan_fields demo_met_topo)
qed (simp_all add: demo_plan_def AddNewMaster_def demo_met_topo)

theorem two_ranges_overdrained_witness:
  "\<forall>cfg. \<exists>c' moved. collectTasksFromMaster 6 0 (demo_plan cfg 7
       [\<lparr>sr_Start = 0, sr_End = 3\<rparr>, \<lparr>sr_Start = 10, sr_End = 12\<rparr>], 0, []) = ((c', 0, moved), None)
     \<and> length moved = 4 \<and> cn_SlotsNum (cm_heap c' 0) = 3"
proof
  fix cfg
  let ?r1 = "\<lparr>sr_Start = 0, sr_End = 3\<rparr>" and ?r2 = "\<lparr>sr_Start = 10, sr_End = 12\<rparr>"
  have "\<exists>c' moved. collectTasksFromMaster 6 0 (demo_plan cfg 7 [?r1, ?r2], 0, []) = ((c', 0, [] @ moved), None)
     \<and> int (length moved) = int 1 + (sr_End ?r2 - sr_Start ?r2 + 1) \<and> cn_SlotsNum (cm_heap c' 0) = 6 - (sr_End ?r2 - sr_Start ?r2 + 1)"
    by (rule two_ranges_overdrained [where p = "Suc 0" and ?r1.0 = ?r1])
       (simp_all add: demo_plan_fields demo_master_def demo_slave_def)
  then show "\<exists>c' moved. collectTasksFromMaster 6 0 (demo_plan cfg 7 [?r1, ?r2], 0, []) = ((c', 0, moved), None)
     \<and> length moved = 4 \<and> cn_SlotsNum (cm_heap c' 0) = 3" by auto
qed

text \<open>Planning with no nil pointer among the empty masters does not panic.\<close>

lemma collect_range_no_panic:
  "None \<notin> set (tp_empty (cm_topo c)) \<Longrightarrow> snd (collect_range newV a xs (c, i, ts)) = None"
proof (induction xs arbitrary: c i ts)
  case (Cons x xs)
  show ?case
  proof (cases "i < length (tp_empty (cm_topo c))")
    case True
    then obtain p where p: "tp_empty (cm_topo c) ! i = Some p" using Cons.prems nth_mem [OF True] by (cases "tp_empty (cm_topo c) ! i") auto
    have "tp_empty (cm_topo (add_slots a (- 1) (add_slots p 1 c))) = tp_empty (cm_topo c)" by (simp add: add_slots_def)
    then show ?thesis using Cons True p by (simp add: Let_def)
  qed simp
qed simp

lemma collect_ranges_no_panic:
  "None \<notin> set (tp_empty (cm_topo (fst s))) \<Longrightarrow> snd (collect_ranges newV a rs s) = None"
proof (induction rs arbitrary: s)
  case (Cons r rs)
  obtain s1 e1 where c: "collect_range newV a (rev [sr_Start r..sr_End r]) s = (s1, e1)" by fastforce
  have "e1 = None" using collect_range_no_panic [of "fst s" newV a _ "fst (snd s)" "snd (snd s)"] Cons.prems c by (metis prod.collapse snd_conv)
  moreover have "tp_empty (cm_topo (fst s1)) = tp_empty (cm_topo (fst s))"
    using same_plan_fields(1) [OF range_run_same [OF collect_range_run [OF c]]] by simp
  ultimately show ?case using Cons c by simp
qed simp

lemma collect_masters_no_panic:
  "None \<notin> set (tp_empty (cm_topo (fst s))) \<Longrightarrow> snd (collect_masters cn newV ids s) = None"
proof (induction ids arbitrary: s)
  case (Cons m ids)
  show ?case
  proof (cases "collect_masters cn newV (m # ids) s = collect_masters cn newV ids s")
    case False
    then obtain a where a: "tp_nodes (cm_topo (fst s)) m = Some a" by (auto split: option.splits)
    obtain s1 e1 where c: "collect_ranges newV a (cn_Slots (cm_heap (fst s) a)) s = (s1, e1)" by fastforce
    have "e1 = None" using collect_ranges_no_panic [OF Cons.prems] c by (metis snd_conv)
    moreover have "tp_empty (cm_topo (fst s1)) = tp_empty (cm_topo (fst s))"
      using collect_ranges_topo [OF c] by simp
    ultimately show ?thesis using Cons False a c by (simp add: collectTasksFromMaster_def Let_def)
  qed (use Cons in simp)
qed simp

lemma collectSlotTasks_returns:
  assumes "None \<notin> set (tp_empty (cm_topo c))"
  obtains c' tasks where "collectSlotTasks cn c = (c', Inr tasks)"
proof -
  let ?n = "TotalSlots div int (length (tp_masterIDs (cm_topo c)))"
  obtain c' i tasks e where r: "collect_masters cn ?n (tp_masterIDs (cm_topo c)) (c, 0, []) = ((c', i, tasks), e)"
    by (metis prod.collapse)
  moreover have "e = None" using collect_masters_no_panic [of "(c, 0, [])" cn ?n] assms r by (metis fst_conv snd_conv)
  ultimately show thesis using that by (simp add: collectSlotTasks_def)
qed

theorem collectSlotTasks_sound_witness:
  "\<forall>cfg. \<exists>c' tasks. collectSlotTasks ''c1'' (demo_plan cfg 16384 [\<lparr>sr_Start = 0, sr_End = 16383\<rparr>]) = (c', Inr tasks)
     \<and> distinct (map st_slot tasks) \<and> 8192 \<le> cn_SlotsNum (cm_heap c' 0)"
proof
  fix cfg
  let ?c = "demo_plan cfg 16384 [\<lparr>sr_Start = 0, sr_End = 16383\<rparr>]"
  obtain c' tasks where r: "collectSlotTasks ''c1'' ?c = (c', Inr tasks)"
    by (rule collectSlotTasks_returns [of ?c "''c1''"]) (simp_all add: demo_plan_fields)
  have own: "owned ?c ''m1'' = [0..16383]" "owned ?c ''s1'' = []"
    by (simp_all add: owned_def demo_plan_fields node_slots_def demo_slave_def del: upto.simps)
  have "distinct (map st_slot tasks) \<and> (8192 :: int) \<le> cn_SlotsNum (cm_heap c' 0)"
    using collectSlotTasks_sound [OF r demo_plan_inv, of 8192]
    by (simp add: demo_plan_fields own TotalSlots_def demo_slave_def demo_master_def)
  then show "\<exists>c' tasks. collectSlotTasks ''c1'' ?c = (c', Inr tasks) \<and> distinct (map st_slot tasks) \<and> 8192 \<le> cn_SlotsNum (cm_heap c' 0)"
    using r by blast
qed

section \<open>Keys and invalidation\<close>

lemma chunks_cover: "0 < n \<Longrightarrow> concat (chunks n xs) = xs"
proof (induction n xs rule: chunks.induct)
  case (1 n xs)
  then show ?case by (subst chunks.simps) simp
qed

lemma chunks_sizes: "c \<in> set (chunks n xs) \<Longrightarrow> c \<noteq> [] \<and> length c \<le> n"
proof (induction n xs rule: chunks.induct)
  case (1 n xs)
  then show ?case by (subst (asm) chunks.simps) (auto split: if_splits)
qed

lemma chunks_number: "0 < n \<Longrightarrow> length xs \<le> k * n \<Longrightarrow> length (chunks n xs) \<le> k"
proof (induction k arbitrary: xs)
  case 0
  then show ?case by (subst chunks.simps) simp
next
  case (Suc k)
  have "length (chunks n (drop n xs)) \<le> k" using Suc by (intro Suc.IH) auto
  then show ?case by (subst chunks.simps) simp
qed

lemma chunk_size_ok: "0 < chunk_size n" "n \<le> 11 * chunk_size n"
proof -
  have "n = 10 * (n div 10) + n mod 10" "n mod 10 < 10" by simp_all
  then show "n \<le> 11 * chunk_size n" unfolding chunk_size_def chunkDivisor_def Let_def by (split if_split) linarith
qed (simp add: chunk_size_def Let_def)

lemma classifyKeys_spec:
  "classifyKeys api cli keys w = (w', normal, big, failed) \<Longrightarrow>
     mset keys = mset normal + mset (map ke_key big) + mset failed \<and> (\<forall>e \<in> set big. bigKeyThreshold \<le> ke_size e)"
proof (induction keys arbitrary: w w' normal big failed)
  case (Cons k ks)
  obtain w1 r where m: "ra_MemoryUsage api cli k w = (w1, r)" by fastforce
  obtain w2 n b f where c: "classifyKeys api cli ks w1 = (w2, n, b, f)" by (metis prod_cases4)
  show ?case using Cons.IH [OF c] Cons.prems m c by (auto split: sum.splits if_splits)
qed simp

text \<open>when the keys of a slot are sorted by size, each key goes to exactly one of the normal, the big and
  the failed keys; the big ones are at least as large as the threshold; the batches in which the normal keys are
  moved contain every one of them once and in order, none is empty, and there are at most eleven whatever
  the number of keys.\<close>

theorem migration_batches:
  assumes "classifyKeys api cli keys w = (w', normal, big, failed)"
  shows "mset keys = mset normal + mset (map ke_key big) + mset failed
    \<and> (\<forall>e \<in> set big. bigKeyThreshold \<le> ke_size e)
    \<and> concat (chunks (chunk_size (length normal)) normal) = normal
    \<and> (\<forall>b \<in> set (chunks (chunk_size (length normal)) normal). b \<noteq> [] \<and> length b \<le> chunk_size (length normal))
    \<and> length (chunks (chunk_size (length normal)) normal) \<le> 11"
  using classifyKeys_spec [OF assms] chunks_cover [OF chunk_size_ok(1)] chunks_sizes
    chunks_number [OF chunk_size_ok, of normal] by blast

theorem migration_batches_witness:
  "classifyKeys (demo_redis\<lparr>ra_MemoryUsage := (\<lambda>cli key w. (w, if key = ''b'' then Inr 20000000 else if key = ''x'' then Inl (Errorf ''gone'') else Inr 64))\<rparr>)
       ''127.0.0.1:6379'' [''a'', ''b'', ''x'', ''c''] 0
     = (0, [''a'', ''c''], [\<lparr>ke_key = ''b'', ke_size = 20000000\<rparr>], [''x''])
   \<and> concat (chunks (chunk_size 2) [''a'', ''c'']) = [''a'', ''c'']"
proof -
  let ?api = "demo_redis\<lparr>ra_MemoryUsage := (\<lambda>cli key w. (w, if key = ''b'' then Inr 20000000 else if key = ''x'' then Inl (Errorf ''gone'') else Inr 64))\<rparr>"
  have c: "classifyKeys ?api ''127.0.0.1:6379'' [''a'', ''b'', ''x'', ''c''] 0
     = (0, [''a'', ''c''], [\<lparr>ke_key = ''b'', ke_size = 20000000\<rparr>], [''x''])"
    by (simp add: bigKeyThreshold_def)
  then show ?thesis using migration_batches [OF c] by (simp add: numeral_2_eq_2)
qed

text \<open>a slot is handed over, and its migration reported as successful, as soon as the SETSLOT commands
  succeed: nothing is required of the commands that move its keys.\<close>

theorem slot_moves_without_keys:
  assumes ok: "\<And>cli args u. hd args \<noteq> ''MIGRATE'' \<Longrightarrow> \<exists>r. snd (ra_Do api cli args u) = Inr r"
  shows "snd (migrateSlotShared api sourceCli t w) = None"
proof -
  have run: "\<exists>w' r. ExecuteClusterCommand api cli args u = (w', Inr r)" if "hd args \<noteq> ''MIGRATE''" for cli args u
    using ok [OF that, of cli u] by (cases "ra_Do api cli args u") (auto simp: ExecuteClusterCommand_def)
  have begins: "\<exists>w'. setupSlotMigration api d sourceCli t u = (w', None)" for d u
  proof -
    obtain w1 r1 where 1: "ExecuteClusterCommand api d [''cluster'', ''SETSLOT'', strconv_Itoa (st_slot t), ''IMPORTING'', st_fromID t] u = (w1, Inr r1)"
      using run by fastforce
    obtain w2 r2 where "ExecuteClusterCommand api sourceCli [''CLUSTER'', ''SETSLOT'', strconv_Itoa (st_slot t), ''MIGRATING'', st_toID t] w1 = (w2, Inr r2)"
      using run by fastforce
    then show ?thesis using 1 by (simp add: setupSlotMigration_def)
  qed
  have ends: "\<exists>w'. finalizeSlotMigration api d sourceCli t u = (w', None)" for d u
  proof -
    obtain w1 r1 where 1: "ExecuteClusterCommand api d [''CLUSTER'', ''SETSLOT'', strconv_Itoa (st_slot t), ''NODE'', st_toID t] u = (w1, Inr r1)"
      using run by fastforce
    obtain w2 r2 where "ExecuteClusterCommand api sourceCli [''CLUSTER'', ''SETSLOT'', strconv_Itoa (st_slot t), ''NODE'', st_toID t] w1 = (w2, Inr r2)"
      using run by fastforce
    then show ?thesis using 1 by (simp add: finalizeSlotMigration_def)
  qed
  obtain d where d: "CreateRedisClient (local_addr (st_destHostPort t)) = Inr d" by (simp add: CreateRedisClient_def)
  obtain w1 where s: "setupSlotMigration api d sourceCli t w = (w1, None)" using begins by blast
  obtain w2 keys where k: "ra_ClusterGetKeysInSlot api sourceCli (st_slot t) 1000 w1 = (w2, keys)" by fastforce
  show ?thesis
    using ends [of d "if length keys > 0 then migrateSlotKeys api sourceCli t keys w2 else w2"] d s k
    by (auto simp: migrateSlotShared_def Let_def)
qed

definition demo_stuck :: "int redis_api" where
  "demo_stuck = demo_redis\<lparr>
     ra_ClusterGetKeysInSlot := (\<lambda>cli slot count w. (w, [''k'']))
   , ra_Do := (\<lambda>cli args w. if hd args = ''MIGRATE'' then (w, Inl (Errorf ''IOERR'')) else (w + 1, Inr ''OK''))\<rparr>"

theorem slot_moves_without_keys_witness:
  "migrateKeyBatch demo_stuck ''127.0.0.1:6379'' demo_task [''k''] 5000 7 = 7
   \<and> snd (migrateSlotShared demo_stuck ''127.0.0.1:6379'' demo_task 7) = None"
  using slot_moves_without_keys [of demo_stuck "''127.0.0.1:6379''" demo_task 7]
  by (simp add: demo_stuck_def migrateKeyBatch_def)

lemma bounds_fold:
  "foldl (\<lambda>(l, u) t. ((if st_slot t < l then st_slot t else l), (if st_slot t > u then st_slot t else u))) (l, u) ts =
     (Min (insert l (st_slot ` set ts)), Max (insert u (st_slot ` set ts)))"
proof (induction ts arbitrary: l u)
  case (Cons t ts)
  have mn: "Min (insert (if st_slot t < l then st_slot t else l) (st_slot ` set ts)) = Min (insert l (insert (st_slot t) (st_slot ` set ts)))"
    by (cases "st_slot ` set ts = {}") (auto simp: min_def)
  have mx: "Max (insert (if st_slot t > u then st_slot t else u) (st_slot ` set ts)) = Max (insert u (insert (st_slot t) (st_slot ` set ts)))"
    by (cases "st_slot ` set ts = {}") (auto simp: max_def)
  show ?case by (simp add: Cons.IH mn mx)
qed simp

text \<open>after a migration the cache is told to drop one interval of slots, which contains every slot that was
  planned to move and whose ends are such slots.\<close>

theorem invalidation_covers_moved_slots:
  assumes "tasks \<noteq> []"
  shows "\<exists>lo hi. invalidateCacheAfterMigration api tasks w = ra_InvalidateSlots api lo hi w
    \<and> st_slot ` set tasks \<subseteq> {lo..hi} \<and> lo \<in> st_slot ` set tasks \<and> hi \<in> st_slot ` set tasks"
proof -
  have ins: "insert (st_slot (hd tasks)) (st_slot ` set tasks) = st_slot ` set tasks" using assms by auto
  have b: "slot_bounds tasks = (Min (st_slot ` set tasks), Max (st_slot ` set tasks))"
    unfolding slot_bounds_def bounds_fold ins ..
  show ?thesis
    by (rule exI [of _ "Min (st_slot ` set tasks)"], rule exI [of _ "Max (st_slot ` set tasks)"])
      (use assms in \<open>auto simp: invalidateCacheAfterMigration_def b\<close>)
qed

theorem invalidation_covers_moved_slots_witness:
  "\<exists>lo hi. invalidateCacheAfterMigration demo_redis [demo_task\<lparr>st_slot := 9\<rparr>, demo_task\<lparr>st_slot := 4\<rparr>] 0 = ra_InvalidateSlots demo_redis lo hi 0
     \<and> {9, 4} \<subseteq> {lo..hi} \<and> lo \<in> {9, 4} \<and> hi \<in> {9, 4}"
  using invalidation_covers_moved_slots [of "[demo_task\<lparr>st_slot := 9\<rparr>, demo_task\<lparr>st_slot := 4\<rparr>]" demo_redis 0] by simp


section \<open>The migration under a given scheduler\<close>

text \<open>
  The order in which the workers run is the Go scheduler's: a function from the state to the
  worker that runs next. When it names a worker that has left, the first one still in its loop
  runs.
\<close>

type_synonym 'w scheduler = "'w mig_state \<Rightarrow> nat \<times> nat"

definition active_worker :: "group list \<Rightarrow> 'w mig_state \<Rightarrow> nat \<times> nat \<Rightarrow> bool" where
  "active_worker gs s p = (fst p < length gs \<and> snd p < migrationWorkers \<and> mg_worker s p \<noteq> Gone)"

definition next_worker :: "'w scheduler \<Rightarrow> group list \<Rightarrow> 'w mig_state \<Rightarrow> (nat \<times> nat) option" where
  "next_worker sch gs s =
     (if active_worker gs s (sch s) then Some (sch s)
      else find (active_worker gs s) (List.product [0..<length gs] [0..<migrationWorkers]))"

text \<open>One turn of a worker: the range over its channel, then the task.\<close>

definition worker_turn :: "'w redis_api \<Rightarrow> group list \<Rightarrow> nat \<times> nat \<Rightarrow> 'w mig_state \<Rightarrow> 'w mig_state" where
  "worker_turn api gs p s =
     (case mg_worker s p of
        Idle \<Rightarrow>
          (case mg_queue s (fst p) of
             t # q \<Rightarrow> s\<lparr>mg_worker := (mg_worker s)(p := Busy t), mg_queue := (mg_queue s)(fst p := q)\<rparr>
           | [] \<Rightarrow> s\<lparr>mg_worker := (mg_worker s)(p := Gone)\<rparr>)
      | Busy t \<Rightarrow>
          let (w, e) = migrateSlotShared api (local_addr (gr_fromHostPort (gs ! fst p))) t (mg_world s)
          in s\<lparr>mg_worker := (mg_worker s)(p := Idle), mg_done := mg_done s @ [t], mg_world := w,
               mg_errs := mg_errs s @ (case e of None \<Rightarrow> [] | Some err \<Rightarrow> [ErrorfW ''slot'' err])\<rparr>
      | Gone \<Rightarrow> s)"

fun run_workers :: "'w scheduler \<Rightarrow> 'w redis_api \<Rightarrow> group list \<Rightarrow> nat \<Rightarrow> 'w mig_state \<Rightarrow> 'w mig_state" where
  "run_workers sch api gs 0 s = s"
| "run_workers sch api gs (Suc n) s =
     (case next_worker sch gs s of None \<Rightarrow> s | Some p \<Rightarrow> run_workers sch api gs n (worker_turn api gs p s))"

definition run_migration :: "'w scheduler \<Rightarrow> 'w redis_api \<Rightarrow> (string, group) gomap \<Rightarrow> 'w \<Rightarrow> 'w \<times> go_error list" where
  "run_migration sch api groups w =
     (let gs = map (\<lambda>k. the (map_of groups k)) (ra_range api (map fst groups) w);
          s = run_workers sch api gs (2 * length (concat (map gr_tasks gs)) + migrationWorkers * length gs) (mig_init gs w)
      in (mg_world s, mg_errs s))"

definition migrateScheduled ::
  "'w scheduler \<Rightarrow> 'w redis_api \<Rightarrow> string \<Rightarrow> 'w ClusterManager \<Rightarrow> 'w ClusterManager \<times> go_err" where
  "migrateScheduled sch api clusterName c =
     (if tp_empty (cm_topo c) = [] then (c, Some (Errorf ''no Empty master''))
      else if tp_masterIDs (cm_topo c) = [] then (c, Some (Errorf ''no master nodes for slot migration''))
      else case collectSlotTasks clusterName c of
        (c1, Inl e) \<Rightarrow> (c1, Some e)
      | (c1, Inr []) \<Rightarrow> (c1, None)
      | (c1, Inr tasks) \<Rightarrow>
          let w = fst (run_migration sch api (groupSlotTasks tasks) (cm_world c1));
              w' = (if cm_cacheInvalidator c1 then invalidateCacheAfterMigration api tasks w else w);
              (c2, r) = PrintClusterNodesInfo api (c1\<lparr>cm_world := w'\<rparr>)
          in (c2, case r of Inl e \<Rightarrow> Some e | Inr _ \<Rightarrow> None))"

lemma worker_turn_step:
  assumes "active_worker gs s p"
  shows "mig_step api gs s (worker_turn api gs p s)"
proof -
  obtain g k where p: "p = (g, k)" "g < length gs" "k < migrationWorkers" using assms by (cases p) (auto simp: active_worker_def)
  show ?thesis
  proof (cases "mg_worker s p")
    case Idle
    then show ?thesis
      using mig_step.mig_take [OF p(2,3), of s _ _ api] mig_step.mig_exit [OF p(2,3), of s api] p(1)
      by (cases "mg_queue s g") (simp_all add: worker_turn_def)
  next
    case (Busy t)
    obtain w e where "migrateSlotShared api (local_addr (gr_fromHostPort (gs ! g))) t (mg_world s) = (w, e)" by fastforce
    then show ?thesis using mig_step.mig_exec [OF p(2,3) Busy [unfolded p(1)]] Busy p(1) by (simp add: worker_turn_def)
  qed (use assms in \<open>simp add: active_worker_def\<close>)
qed

lemma next_worker_None: "next_worker sch gs s = None \<Longrightarrow> mig_finished gs s"
  by (auto simp: next_worker_def find_None_iff active_worker_def mig_finished_def split: if_splits)

lemma next_worker_Some: "next_worker sch gs s = Some p \<Longrightarrow> active_worker gs s p"
  by (auto simp: next_worker_def find_Some_iff split: if_splits)

lemma run_workers_finish:
  "mig_inv gs s \<Longrightarrow> mig_measure gs s \<le> n \<Longrightarrow>
   (mig_step api gs)\<^sup>*\<^sup>* s (run_workers sch api gs n s) \<and> mig_finished gs (run_workers sch api gs n s)"
proof (induction n arbitrary: s)
  case 0
  then show ?case using mig_finished_iff [OF 0(1)] by simp
next
  case (Suc n)
  show ?case
  proof (cases "next_worker sch gs s")
    case None
    then show ?thesis using next_worker_None [OF None] by simp
  next
    case (Some p)
    note step = worker_turn_step [OF next_worker_Some [OF Some], of api]
    have "mig_measure gs (worker_turn api gs p s) \<le> n" using mig_step_measure [OF step] Suc.prems(2) by simp
    note IH = Suc.IH [OF mig_step_inv [OF step Suc.prems(1)] this]
    then show ?thesis
      using converse_rtranclp_into_rtranclp [where r = "mig_step api gs", OF step conjunct1 [OF IH]] Some by simp
  qed
qed

lemma run_migration_sound:
  "executeSlotMigration api groups w (fst (run_migration sch api groups w)) (snd (run_migration sch api groups w))"
proof -
  let ?gs = "map (\<lambda>k. the (map_of groups k)) (ra_range api (map fst groups) w)"
  let ?n = "2 * length (concat (map gr_tasks ?gs)) + migrationWorkers * length ?gs"
  have "mig_measure ?gs (mig_init ?gs w) \<le> ?n" by (simp only: mig_measure_init)
  note r = run_workers_finish [OF mig_init_inv this, of api sch]
  show ?thesis
    using executeSlotMigration.intros [OF conjunct1 [OF r] conjunct2 [OF r] refl]
    by (simp only: run_migration_def Let_def fst_conv snd_conv)
qed


end
