(* ===== verification/Ops.thy ===== *)
theory Ops
  imports Slot_Migration Store
begin

text \<open>
  The package \<^verbatim>\<open>cluster/ops\<close>: creating, scaling and deleting a cluster as pipelines over the
  cluster manager, the files of the runtime configuration and the database. The state of an
  operation is the database, extended by the manager, which holds the external state. File
  operations, the YAML library and the order of the migration workers are functions on that
  state. A step that panics ends the process without a rollback, and a step that does not return
  leaves it hanging: such a process takes no further step.
\<close>

section \<open>The process\<close>

datatype 's proc = Running 's | Crashed 's string | Hung

text \<open>A step of a running process; \<^const>\<open>None\<close> is a call that does not return.\<close>

definition in_process :: "('s \<Rightarrow> ('s \<times> go_err) option) \<Rightarrow> 's proc \<Rightarrow> 's proc \<times> go_err" where
  "in_process f p =
     (case p of
        Running s \<Rightarrow>
          (case f s of
             None \<Rightarrow> (Hung, None)
           | Some (s', Some (Panic m)) \<Rightarrow> (Crashed s' m, None)
           | Some (s', e) \<Rightarrow> (Running s', e))
      | _ \<Rightarrow> (p, None))"

text \<open>A call that neither panics nor hangs.\<close>

definition in_store :: "('s \<Rightarrow> 's \<times> 'r) \<Rightarrow> 'r \<Rightarrow> 's proc \<Rightarrow> 's proc \<times> 'r" where
  "in_store f r p = (case p of Running s \<Rightarrow> (case f s of (s', x) \<Rightarrow> (Running s', x)) | _ \<Rightarrow> (p, r))"

definition process_persister :: "'s Persister \<Rightarrow> 's proc Persister" where
  "process_persister ps =
     \<lparr>ps_Save = (\<lambda>n st. in_store (ps_Save ps n st) None), ps_Start = (\<lambda>n st. in_store (ps_Start ps n st) None),
      ps_Fail = (\<lambda>n st. in_store (ps_Fail ps n st) None), ps_Load = (\<lambda>n. in_store (ps_Load ps n) (Inr [])),
      ps_Delete = (\<lambda>n. in_store (ps_Delete ps n) None)\<rparr>"

definition process_step ::
  "string \<Rightarrow> int \<Rightarrow> ('s \<Rightarrow> ('s \<times> go_err) option) \<Rightarrow> ('s \<Rightarrow> ('s \<times> go_err) option) option \<Rightarrow> 's proc Step" where
  "process_step name retry do undo =
     \<lparr>st_Name = name, st_Do = (\<lambda>ctx. in_process do), st_Undo = map_option (\<lambda>u ctx. in_process u) undo,
      st_Retry = retry, st_Timeout = 0\<rparr>"

text \<open>Wrapping with \<^verbatim>\<open>%w\<close>; a panic unwinds unwrapped.\<close>

definition wrapW :: "string \<Rightarrow> go_error \<Rightarrow> go_error" where
  "wrapW msg e = (case e of Panic m \<Rightarrow> Panic m | _ \<Rightarrow> ErrorfW msg e)"

section \<open>Files\<close>

record 'w os_api =
  oa_redis :: "'w redis_api"
  oa_scheduler :: "'w scheduler"
  oa_IsNotExist :: "string \<Rightarrow> 'w \<Rightarrow> bool"
  oa_Remove :: "string \<Rightarrow> 'w \<Rightarrow> 'w \<times> go_err"
  oa_Create :: "string \<Rightarrow> 'w \<Rightarrow> 'w \<times> go_err"
  oa_Write :: "string \<Rightarrow> string \<Rightarrow> 'w \<Rightarrow> 'w \<times> go_err"
  oa_ReadFile :: "string \<Rightarrow> 'w \<Rightarrow> string go_result"
  oa_ReadDir :: "string \<Rightarrow> 'w \<Rightarrow> string list go_result"
  oa_Marshal :: "RedisClusterConfig \<Rightarrow> string go_result"
  oa_Unmarshal :: "string \<Rightarrow> RedisClusterConfig go_result"

abbreviation oa_podman :: "'w os_api \<Rightarrow> 'w podman_api" where
  "oa_podman api \<equiv> ra_podman (oa_redis api)"

definition WriteToYAMLFile :: "'w os_api \<Rightarrow> string \<Rightarrow> RedisClusterConfig \<Rightarrow> 'w \<Rightarrow> 'w \<times> go_err" where
  "WriteToYAMLFile api fileName v w =
     (case oa_Marshal api v of
        Inl err \<Rightarrow> (w, Some err)
      | Inr yamlData \<Rightarrow>
          (case oa_Create api fileName w of
             (w1, Some err) \<Rightarrow> (w1, Some err)
           | (w1, None) \<Rightarrow> oa_Write api fileName yamlData w1))"

definition ReadFromYAMLFile :: "'w os_api \<Rightarrow> string \<Rightarrow> 'w \<Rightarrow> RedisClusterConfig go_result" where
  "ReadFromYAMLFile api fileName w =
     (case oa_ReadFile api fileName w of Inl err \<Rightarrow> Inl err | Inr fileData \<Rightarrow> oa_Unmarshal api fileData)"

definition FileExists :: "'w os_api \<Rightarrow> string \<Rightarrow> 'w \<Rightarrow> bool" where
  "FileExists api fileName w = (\<not> oa_IsNotExist api fileName w)"

section \<open>State\<close>

record 'w ops_state = Store +
  os_cm :: "'w ClusterManager"

abbreviation os_world :: "'w ops_state \<Rightarrow> 'w" where
  "os_world s \<equiv> cm_world (os_cm s)"

abbreviation set_world :: "'w \<Rightarrow> 'w ops_state \<Rightarrow> 'w ops_state" where
  "set_world w s \<equiv> s\<lparr>os_cm := (os_cm s)\<lparr>cm_world := w\<rparr>\<rparr>"

text \<open>A call of the manager, of its node manager, and of the file system.\<close>

definition on_cm ::
  "('w ClusterManager \<Rightarrow> 'w ClusterManager \<times> go_err) \<Rightarrow> 'w ops_state \<Rightarrow> ('w ops_state \<times> go_err) option" where
  "on_cm f s = (case f (os_cm s) of (c, e) \<Rightarrow> Some (s\<lparr>os_cm := c\<rparr>, e))"

definition on_pods ::
  "(PodmanNodeManager \<times> 'w \<Rightarrow> (PodmanNodeManager \<times> 'w) \<times> go_err) \<Rightarrow> 'w ClusterManager \<Rightarrow> 'w ClusterManager \<times> go_err" where
  "on_pods f c =
     (case f (cm_nodeManager c, cm_world c) of ((nm, w), e) \<Rightarrow> (c\<lparr>cm_nodeManager := nm, cm_world := w\<rparr>, e))"

definition on_world :: "('w \<Rightarrow> 'w \<times> go_err) \<Rightarrow> 'w ops_state \<Rightarrow> ('w ops_state \<times> go_err) option" where
  "on_world f s = (case f (os_world s) of (w, e) \<Rightarrow> Some (set_world w s, e))"

definition delete_resources :: "'w os_api \<Rightarrow> string \<Rightarrow> 'w ops_state \<Rightarrow> ('w ops_state \<times> go_err) option" where
  "delete_resources api clusterName = on_world (DeleteResources (oa_podman api) clusterName)"

fun find_node :: "string \<Rightarrow> int \<Rightarrow> RuntimeNode list \<Rightarrow> int" where
  "find_node clusterName i [] = - 1"
| "find_node clusterName i (node # rest) = (if rn_ClusterName node = clusterName then i else find_node clusterName (i + 1) rest)"

definition findClusterNode :: "PodmanNodeManager \<Rightarrow> string \<Rightarrow> int" where
  "findClusterNode nm clusterName = find_node clusterName 0 (pm_GetNodes nm)"

text \<open>The persister is the store when a path is configured and it opens.\<close>

definition open_persister :: "RuntimeConfig \<Rightarrow> 'w ops_state \<Rightarrow> 'w ops_state \<times> 'w ops_state proc Persister option" where
  "open_persister cfg s =
     (if rt_DBPath cfg \<noteq> [] then
        (case OpenStore s of
           (s1, None) \<Rightarrow> (s1, Some (process_persister store_persister))
         | (s1, Some _) \<Rightarrow> (s1, None))
      else (s, None))"

definition new_manager :: "bool \<Rightarrow> int \<Rightarrow> PodmanNodeManager \<Rightarrow> 'w ops_state \<Rightarrow> 'w ops_state" where
  "new_manager invalidator nodesPerShard nm s =
     (let cm = NewClusterManager nodesPerShard nm (os_world s)
      in s\<lparr>os_cm := (if invalidator then SetCacheInvalidator cm else cm)\<rparr>)"

text \<open>New pipeline, its steps added, and its run.\<close>

definition run_pipeline ::
  "string \<Rightarrow> 'w ops_state proc Persister option \<Rightarrow> 'w ops_state proc Step list \<Rightarrow> 'w ops_state \<Rightarrow>
     'w ops_state proc \<times> go_err" where
  "run_pipeline name persister steps s =
     (let (p, w) = NewPipeline name persister (Running s);
          (p', w', e) = Run Background (fold AddStep steps p) w
      in (w', e))"

section \<open>Steps that create and scale share\<close>

definition meet_step :: "'w os_api \<Rightarrow> string \<Rightarrow> string \<Rightarrow> string \<Rightarrow> 'w ClusterManager \<Rightarrow> 'w ClusterManager \<times> go_err" where
  "meet_step api clusterName noNode noClient c =
     (let idx = findClusterNode (cm_nodeManager c) clusterName
      in if idx < 0 then (c, Some (Errorf noNode))
         else case CreateRedisClient (ClientConnAddr (cm_GetNodes c ! nat idx)) of
           Inl err \<Rightarrow> (c, Some (ErrorfW noClient err))
         | Inr cli \<Rightarrow> MeetNodes (oa_redis api) cli clusterName c)"

definition topology_step :: "'w os_api \<Rightarrow> string \<Rightarrow> string \<Rightarrow> 'w ClusterManager \<Rightarrow> 'w ClusterManager \<times> go_err" where
  "topology_step api clusterName noNode c =
     (let idx = findClusterNode (cm_nodeManager c) clusterName
      in if idx < 0 then (c, Some (Errorf noNode))
         else UpdateAfterMeet (oa_redis api) (cm_GetNodes c ! nat idx) clusterName c)"

definition container_record :: "string \<Rightarrow> RuntimeNode \<Rightarrow> ContainerRecord" where
  "container_record clusterName node =
     \<lparr>ct_ClusterName = clusterName, ct_Name = rn_Name node, ct_ContainerID = rn_ID node,
      ct_HostIP = rn_HostIP node, ct_HostPort = uint (rn_HostPort node),
      ct_ContainerIP = rn_ConIp node, ct_ContainerPort = uint (rn_ConPort node),
      ct_NodeIndex = atoi_value (strings_TrimPrefix (rn_Name node) (clusterName @ ''-redis-'')),
      ct_Role = [], ct_Status = ''running'', ct_Hostname = rn_Hostname node\<rparr>"

definition cluster_record :: "RuntimeConfig \<Rightarrow> string \<Rightarrow> int \<Rightarrow> int \<Rightarrow> ClusterRecord" where
  "cluster_record cfg clusterName shards nodesPerShard =
     \<lparr>cr_Name = clusterName, cr_Backend = rt_Backend cfg, cr_Shards = shards, cr_NodesPerShard = nodesPerShard,
      cr_RedisPort = uint (rt_RedisContainerPort cfg), cr_Image = rt_ImageName cfg, cr_Status = ''ready'',
      cr_CreatedAt = [], cr_UpdatedAt = []\<rparr>"

definition upsert_nodes :: "string \<Rightarrow> RuntimeNode list \<Rightarrow> 'w ops_state \<Rightarrow> 'w ops_state" where
  "upsert_nodes clusterName nodes s =
     fold (\<lambda>node u. if rn_ClusterName node \<noteq> clusterName then u else fst (UpsertContainer (container_record clusterName node) u))
       nodes s"

text \<open>
  The step \<^verbatim>\<open>persist-db\<close> of create and scale. Errors of the statements are ignored; the rows of
  the pipeline are deleted when it has a persister.
\<close>

definition persist_step ::
  "RuntimeConfig \<Rightarrow> bool \<Rightarrow> string \<Rightarrow> string \<Rightarrow> ('w ops_state \<Rightarrow> ClusterRecord) \<Rightarrow> string \<Rightarrow> ('w ops_state \<Rightarrow> string) \<Rightarrow>
     'w ops_state \<Rightarrow> ('w ops_state \<times> go_err) option" where
  "persist_step cfg persister pname clusterName rec op detail s =
     (if rt_DBPath cfg = [] then Some (s, None)
      else case OpenStore s of
        (s1, Some err) \<Rightarrow> Some (s1, Some err)
      | (s1, None) \<Rightarrow>
          let s2 = fst (UpsertCluster (rec s1) s1);
              s3 = upsert_nodes clusterName (cm_GetNodes (os_cm s2)) s2;
              s4 = fst (LogOperation clusterName op (detail s3) True s3);
              s5 = (if persister then fst (DeletePipeline pname s4) else s4)
          in Some (s5, None))"

section \<open>Create\<close>

definition create_validate ::
  "'w os_api \<Rightarrow> int \<Rightarrow> int \<Rightarrow> string \<Rightarrow> 'w ClusterManager \<Rightarrow> 'w ClusterManager \<times> go_err" where
  "create_validate api shardCount nodesPerShard clusterName c =
     (if shardCount \<le> 0 then (c, Some (Errorf ''shard count must be greater than 0''))
      else if nodesPerShard < 2 then (c, Some (Errorf ''nodes per shard must be at least 2''))
      else if clusterName = [] then (c, Some (Errorf ''cluster name must not be empty''))
      else case on_pods (ListPodsByCluster (oa_podman api) clusterName) c of
        (c1, Some err) \<Rightarrow> (c1, Some (wrapV ''list cluster pods fail'' err))
      | (c1, None) \<Rightarrow>
          if pm_HasCluster (cm_nodeManager c1) clusterName
          then (c1, Some (ErrorfW ''cluster already exists'' ErrClusterExists))
          else (c1, None))"

definition create_containers ::
  "'w os_api \<Rightarrow> string \<Rightarrow> int \<Rightarrow> 'w ops_state \<Rightarrow> ('w ops_state \<times> go_err) option" where
  "create_containers api clusterName nodeSum s =
     (case CreatePodsForCluster (oa_redis api) clusterName nodeSum (os_cm s) of
        None \<Rightarrow> None
      | Some (c, e) \<Rightarrow> Some (s\<lparr>os_cm := c\<rparr>, e))"

definition create_config :: "'w os_api \<Rightarrow> RuntimeConfig \<Rightarrow> string \<Rightarrow> 'w ClusterManager \<Rightarrow> 'w ClusterManager \<times> go_err" where
  "create_config api cfg clusterName c =
     (case pa_mkdir (oa_podman api) (ClusterStateDir cfg clusterName) (cm_world c) of
        (w1, Some err) \<Rightarrow> (c\<lparr>cm_world := w1\<rparr>, Some err)
      | (w1, None) \<Rightarrow>
          let path = ClusterRuntimeConfigPath cfg clusterName;
              w2 = (if FileExists api path w1 then fst (oa_Remove api path w1) else w1);
              (w3, e) = WriteToYAMLFile api path
                \<lparr>rcc_NodesPerShard = NodesPerShard c, rcc_Port = rt_RedisContainerPort cfg\<rparr> w2
          in (c\<lparr>cm_world := w3\<rparr>, e))"

definition undo_config :: "'w os_api \<Rightarrow> RuntimeConfig \<Rightarrow> string \<Rightarrow> 'w ops_state \<Rightarrow> ('w ops_state \<times> go_err) option" where
  "undo_config api cfg clusterName = on_world (\<lambda>w. (fst (oa_Remove api (ClusterRuntimeConfigPath cfg clusterName) w), None))"

definition undo_db :: "RuntimeConfig \<Rightarrow> string \<Rightarrow> 'w ops_state \<Rightarrow> ('w ops_state \<times> go_err) option" where
  "undo_db cfg clusterName s =
     (if rt_DBPath cfg = [] then Some (s, None)
      else case OpenStore s of
        (s1, Some err) \<Rightarrow> Some (s1, Some err)
      | (s1, None) \<Rightarrow> Some (fst (DeleteCluster clusterName s1), None))"

definition print_info :: "'w os_api \<Rightarrow> 'w ClusterManager \<Rightarrow> 'w ClusterManager \<times> go_err" where
  "print_info api c =
     (case PrintClusterNodesInfo (oa_redis api) c of
        (c1, Inl e) \<Rightarrow> (c1, Some e) | (c1, Inr lines) \<Rightarrow> (c1, None))"

definition create_steps ::
  "'w os_api \<Rightarrow> RuntimeConfig \<Rightarrow> bool \<Rightarrow> int \<Rightarrow> int \<Rightarrow> string \<Rightarrow> 'w ops_state proc Step list" where
  "create_steps api cfg persister shardCount nodesPerShard clusterName =
     [process_step ''validate'' 0 (on_cm (create_validate api shardCount nodesPerShard clusterName)) None,
      process_step ''create-containers'' 1 (create_containers api clusterName (shardCount * nodesPerShard))
        (Some (delete_resources api clusterName)),
      process_step ''meet-nodes'' 0 (on_cm (meet_step api clusterName ''no node found for cluster'' ''create redis client fail'')) None,
      process_step ''update-topology'' 0 (on_cm (topology_step api clusterName ''no node found for cluster'')) None,
      process_step ''set-roles'' 0 (on_cm (SetAllNodeRole (oa_redis api) clusterName)) None,
      process_step ''alloc-slots'' 0 (on_cm (AllocateSlots (oa_redis api) clusterName)) None,
      process_step ''persist-config'' 0 (on_cm (create_config api cfg clusterName)) (Some (undo_config api cfg clusterName)),
      process_step ''persist-db'' 0
        (persist_step cfg persister (''create-cluster-'' @ clusterName) clusterName
           (\<lambda>s. cluster_record cfg clusterName shardCount nodesPerShard) ''create''
           (\<lambda>s. ''shards='' @ strconv_Itoa shardCount @ '' nodes_per_shard='' @ strconv_Itoa nodesPerShard))
        (Some (undo_db cfg clusterName)),
      process_step ''print-info'' 0 (on_cm (print_info api)) None]"

definition CreateClusterAction ::
  "'w os_api \<Rightarrow> RuntimeConfig \<Rightarrow> bool \<Rightarrow> int \<Rightarrow> int \<Rightarrow> string \<Rightarrow> 'w ops_state \<Rightarrow> 'w ops_state proc \<times> go_err" where
  "CreateClusterAction api cfg invalidator shardCount nodesPerShard clusterName s =
     (case NewNodeManager cfg of
        Inl err \<Rightarrow> (Running s, Some (ErrorfV ''create node manager fail'' err))
      | Inr nodeManager \<Rightarrow>
          let (s1, persister) = open_persister cfg (new_manager invalidator nodesPerShard nodeManager s);
              (w, e) = run_pipeline (''create-cluster-'' @ clusterName) persister
                (create_steps api cfg (\<not> Option.is_none persister) shardCount nodesPerShard clusterName) s1
          in (w, map_option (ErrorfW ''create cluster'') e))"

section \<open>Scale\<close>

definition scale_validate :: "'w os_api \<Rightarrow> int \<Rightarrow> string \<Rightarrow> 'w ClusterManager \<Rightarrow> 'w ClusterManager \<times> go_err" where
  "scale_validate api additionalShards clusterName c =
     (if additionalShards \<le> 0 then (c, Some (Errorf ''additional shards must be > 0''))
      else case on_pods (ListPodsByCluster (oa_podman api) clusterName) c of
        (c1, Some err) \<Rightarrow> (c1, Some err)
      | (c1, None) \<Rightarrow>
          if cm_GetNodeCount c1 = 0 then (c1, Some (ErrorfW ''no pods'' ErrClusterNotFound)) else (c1, None))"

definition scale_sync :: "'w os_api \<Rightarrow> string \<Rightarrow> 'w ClusterManager \<Rightarrow> 'w ClusterManager \<times> go_err" where
  "scale_sync api clusterName c =
     (let idx = findClusterNode (cm_nodeManager c) clusterName
      in if idx < 0 then (c, Some (ErrorfW ''cluster not found'' ErrClusterNotFound))
         else
           let loginNode = cm_GetNodes c ! nat idx
           in case UpdateAfterMeet (oa_redis api) loginNode clusterName c of
                (c1, Some err) \<Rightarrow> (c1, Some (wrapW ''meet info'' err))
              | (c1, None) \<Rightarrow>
                  (case UpdateAfterSetNodeRole (oa_redis api) loginNode clusterName c1 of
                     (c2, Some err) \<Rightarrow> (c2, Some (wrapW ''node role'' err))
                   | (c2, None) \<Rightarrow>
                       (case UpdateSlots (oa_redis api) loginNode clusterName c2 of
                          (c3, Some err) \<Rightarrow> (c3, Some (wrapW ''slots info'' err))
                        | (c3, None) \<Rightarrow> (c3, None))))"

text \<open>The variables of the step \<^verbatim>\<open>set-roles\<close>; the map of slaves is local to the step.\<close>

record role_vars =
  rv_masterToSlave :: "(string, string list) gomap"
  rv_IDToIP :: "string \<Rightarrow> string option"
  rv_count :: int
  rv_masterID :: string

fun role_loop ::
  "int \<Rightarrow> int list \<Rightarrow> role_vars \<Rightarrow> 'w ClusterManager \<Rightarrow> (role_vars \<times> 'w ClusterManager) \<times> go_err" where
  "role_loop nodesPerShard [] v c = ((v, c), None)"
| "role_loop nodesPerShard (i # is) v c =
     (if i < 0 \<or> int (length (cm_GetNodes c)) \<le> i then ((v, c), Some (Panic ''index out of range''))
      else
        let ip = rn_ConIp (cm_GetNodes c ! nat i); ID = NodeIDByIP c ip;
            count = (if rv_count v = nodesPerShard then 0 else rv_count v);
            v1 = v\<lparr>rv_IDToIP := (rv_IDToIP v)(ID \<mapsto> ip), rv_count := count + 1\<rparr>
        in if count = 0
           then role_loop nodesPerShard is
                  (v1\<lparr>rv_masterToSlave := AList.update ID [] (rv_masterToSlave v1), rv_masterID := ID\<rparr>) (AddNewMaster ID c)
           else role_loop nodesPerShard is
                  (v1\<lparr>rv_masterToSlave := append_entry (rv_masterID v1) ID (rv_masterToSlave v1)\<rparr>) c)"

abbreviation map_string :: "(string \<Rightarrow> string option) \<Rightarrow> string \<Rightarrow> string" where
  "map_string m k \<equiv> (case m k of None \<Rightarrow> [] | Some v \<Rightarrow> v)"

fun scale_slaves ::
  "'w redis_api \<Rightarrow> string \<Rightarrow> (string \<Rightarrow> string option) \<Rightarrow> string \<Rightarrow> string list \<Rightarrow> 'w ClusterManager \<Rightarrow> 'w ClusterManager \<times> go_err" where
  "scale_slaves api clusterName IDToIP masterIP [] c = (c, None)"
| "scale_slaves api clusterName IDToIP masterIP (slaveID # rest) c =
     (case SetNodeAsSlave api masterIP (map_string IDToIP slaveID) clusterName c of
        (c1, Some err) \<Rightarrow> (c1, Some err)
      | (c1, None) \<Rightarrow> scale_slaves api clusterName IDToIP masterIP rest c1)"

fun scale_masters ::
  "'w redis_api \<Rightarrow> string \<Rightarrow> role_vars \<Rightarrow> string list \<Rightarrow> 'w ClusterManager \<Rightarrow> 'w ClusterManager \<times> go_err" where
  "scale_masters api clusterName v [] c = (c, None)"
| "scale_masters api clusterName v (k # ks) c =
     (case scale_slaves api clusterName (rv_IDToIP v) (map_string (rv_IDToIP v) k)
             (case map_of (rv_masterToSlave v) k of None \<Rightarrow> [] | Some slaves \<Rightarrow> slaves) c of
        (c1, Some err) \<Rightarrow> (c1, Some err)
      | (c1, None) \<Rightarrow> scale_masters api clusterName v ks c1)"

definition scale_roles :: "'w os_api \<Rightarrow> int \<Rightarrow> int \<Rightarrow> string \<Rightarrow> 'w ClusterManager \<Rightarrow> 'w ClusterManager \<times> go_err" where
  "scale_roles api additionalShards nodesPerShard clusterName c0 =
     (let c = ResetEmptyMasters c0;
          nodeSum = additionalShards * nodesPerShard;
          newStart = cm_GetNodeCount c - nodeSum
      in case role_loop nodesPerShard [newStart..newStart + nodeSum - 1]
                \<lparr>rv_masterToSlave = [], rv_IDToIP = Map.empty, rv_count = 0, rv_masterID = []\<rparr> c of
           ((v, c1), Some e) \<Rightarrow> (c1, Some e)
         | ((v, c1), None) \<Rightarrow>
             scale_masters (oa_redis api) clusterName v
               (ra_range (oa_redis api) (map fst (rv_masterToSlave v)) (cm_world c1)) c1)"

definition scale_steps ::
  "'w os_api \<Rightarrow> RuntimeConfig \<Rightarrow> bool \<Rightarrow> int \<Rightarrow> int \<Rightarrow> string \<Rightarrow> 'w ops_state proc Step list" where
  "scale_steps api cfg persister additionalShards nodesPerShard clusterName =
     [process_step ''validate'' 0 (on_cm (scale_validate api additionalShards clusterName)) None,
      process_step ''sync-state'' 0 (on_cm (scale_sync api clusterName)) None,
      process_step ''create-containers'' 1 (create_containers api clusterName (additionalShards * nodesPerShard))
        (Some (delete_resources api clusterName)),
      process_step ''meet-nodes'' 0 (on_cm (meet_step api clusterName ''no login node for meet'' ''redis client'')) None,
      process_step ''update-topology'' 0 (on_cm (topology_step api clusterName ''no login node'')) None,
      process_step ''set-roles'' 0 (on_cm (scale_roles api additionalShards nodesPerShard clusterName)) None,
      process_step ''migrate-slots'' 1 (on_cm (migrateScheduled (oa_scheduler api) (oa_redis api) clusterName)) None,
      process_step ''persist-db'' 0
        (persist_step cfg persister (''scale-cluster-'' @ clusterName) clusterName
           (\<lambda>s. cluster_record cfg clusterName (MasterCount (os_cm s)) nodesPerShard) ''scale''
           (\<lambda>s. ''added '' @ strconv_Itoa additionalShards @ '' shards total='' @ strconv_Itoa (MasterCount (os_cm s))))
        None]"

text \<open>The configuration is shared with the node manager, so that the new port reaches it.\<close>

definition ScaleClusterAction ::
  "'w os_api \<Rightarrow> RuntimeConfig \<Rightarrow> bool \<Rightarrow> int \<Rightarrow> string \<Rightarrow> 'w ops_state \<Rightarrow> 'w ops_state proc \<times> go_err" where
  "ScaleClusterAction api cfg0 invalidator additionalShards clusterName s =
     (case NewNodeManager cfg0 of
        Inl err \<Rightarrow> (Running s, Some (ErrorfV ''create node manager fail'' err))
      | Inr nodeManager \<Rightarrow>
          (case ReadFromYAMLFile api (ClusterRuntimeConfigPath cfg0 clusterName) (os_world s) of
             Inl err \<Rightarrow> (Running s, Some (ErrorfW ''read YAML'' err))
           | Inr configFromFile \<Rightarrow>
               let nodesPerShard = EffectiveNodesPerShard configFromFile;
                   cfg = cfg0\<lparr>rt_RedisContainerPort := rcc_Port configFromFile\<rparr>;
                   (s1, persister) = open_persister cfg
                     (new_manager invalidator nodesPerShard (nodeManager\<lparr>pm_config := cfg\<rparr>) s);
                   (w, e) = run_pipeline (''scale-cluster-'' @ clusterName) persister
                     (scale_steps api cfg (\<not> Option.is_none persister) additionalShards nodesPerShard clusterName) s1
               in (w, map_option (ErrorfW ''scale cluster'') e)))"

section \<open>Delete\<close>

definition delete_config :: "'w os_api \<Rightarrow> RuntimeConfig \<Rightarrow> string \<Rightarrow> 'w \<Rightarrow> 'w \<times> go_err" where
  "delete_config api cfg clusterName w =
     (let path = ClusterRuntimeConfigPath cfg clusterName
      in if FileExists api path w then oa_Remove api path w else (w, None))"

definition delete_db ::
  "RuntimeConfig \<Rightarrow> bool \<Rightarrow> string \<Rightarrow> string \<Rightarrow> 'w ops_state \<Rightarrow> ('w ops_state \<times> go_err) option" where
  "delete_db cfg persister pname clusterName s =
     (if rt_DBPath cfg = [] then Some (s, None)
      else case OpenStore s of
        (s1, Some err) \<Rightarrow> Some (s1, Some err)
      | (s1, None) \<Rightarrow>
          let s2 = fst (DeleteCluster clusterName s1);
              s3 = fst (LogOperation clusterName ''delete'' ''removed all containers'' True s2);
              s4 = (if persister then fst (DeletePipeline pname s3) else s3)
          in Some (s4, None))"

definition cleanup_state :: "'w os_api \<Rightarrow> RuntimeConfig \<Rightarrow> string \<Rightarrow> 'w \<Rightarrow> 'w \<times> go_err" where
  "cleanup_state api cfg clusterName w =
     (let dir = ClusterStateDir cfg clusterName
      in case oa_ReadDir api dir w of
           Inl _ \<Rightarrow> (w, None)
         | Inr entries \<Rightarrow> if length entries = 0 then oa_Remove api dir w else (w, None))"

definition delete_steps :: "'w os_api \<Rightarrow> RuntimeConfig \<Rightarrow> bool \<Rightarrow> string \<Rightarrow> 'w ops_state proc Step list" where
  "delete_steps api cfg persister clusterName =
     [process_step ''delete-config'' 0 (on_world (delete_config api cfg clusterName)) None,
      process_step ''delete-resources'' 2 (delete_resources api clusterName) None,
      process_step ''persist-db'' 0 (delete_db cfg persister (''delete-cluster-'' @ clusterName) clusterName) None,
      process_step ''cleanup-state'' 0 (on_world (cleanup_state api cfg clusterName)) None]"

text \<open>Delete has no manager of its own; the node manager of a deletion is never filled.\<close>

definition DeleteAllContainers ::
  "'w os_api \<Rightarrow> RuntimeConfig \<Rightarrow> string \<Rightarrow> 'w ops_state \<Rightarrow> 'w ops_state proc \<times> go_err" where
  "DeleteAllContainers api cfg clusterName s =
     (case NewNodeManager cfg of
        Inl err \<Rightarrow> (Running s, Some (ErrorfV ''create node manager fail'' err))
      | Inr nodeManager \<Rightarrow>
          let (s1, persister) = open_persister cfg s;
              (w, e) = run_pipeline (''delete-cluster-'' @ clusterName) persister
                (delete_steps api cfg (\<not> Option.is_none persister) clusterName) s1
          in (w, map_option (ErrorfW ''delete cluster'') e))"

section \<open>The persister of a process\<close>

lemma in_store_Running [simp]: "in_store f r (Running s) = (Running (fst (f s)), snd (f s))"
  by (simp add: in_store_def split: prod.split)

lemma dead_calls [simp]: "in_process f (Crashed s m) = (Crashed s m, None)" "in_process f Hung = (Hung, None)"
  "in_store g r (Crashed s m) = (Crashed s m, r)" "in_store g r Hung = (Hung, r)"
  by (simp_all add: in_process_def in_store_def)

definition running :: "('s \<Rightarrow> bool) \<Rightarrow> 's proc \<Rightarrow> bool" where
  "running P w = (case w of Running s \<Rightarrow> P s | _ \<Rightarrow> False)"

definition if_running :: "('s \<Rightarrow> bool) \<Rightarrow> 's proc \<Rightarrow> bool" where
  "if_running P w = (case w of Running s \<Rightarrow> P s | _ \<Rightarrow> True)"

definition process_steps :: "'a Store_scheme proc \<Rightarrow> string \<Rightarrow> string set" where
  "process_steps w n = (case w of Running s \<Rightarrow> completed_steps s n | _ \<Rightarrow> {})"

lemma running_simps [simp]: "running P (Running s) = P s" "if_running P (Running s) = P s"
  "\<not> running P (Crashed s m)" "\<not> running P Hung" "if_running P (Crashed s m)" "if_running P Hung"
  "process_steps (Running u) = completed_steps u"
  by (simp_all add: running_def if_running_def process_steps_def fun_eq_iff)

lemma in_process_if_running:
  assumes "if_running P w" "\<And>s s' e. P s \<Longrightarrow> f s = Some (s', e) \<Longrightarrow> P s'"
  shows "if_running P (fst (in_process f w))"
proof (cases w)
  case (Running s)
  then show ?thesis using assms
    by (cases "f s") (auto simp: in_process_def split: option.split go_error.split)
qed simp_all

text \<open>The contract of the pipeline's storage, kept by a running process.\<close>

interpretation process: step_store "process_persister store_persister :: 'a Store_scheme proc Persister" process_steps "running no_faults"
proof unfold_locales
  fix w :: "'a Store_scheme proc" and n s
  assume "running no_faults w"
  then obtain u where w: "w = Running u" and h: "no_faults u" by (cases w) simp_all
  show "\<exists>xs. ps_Load (process_persister store_persister) n w = (w, Inr xs) \<and> set xs = process_steps w n"
    using sqlite.load_spec [OF h, of n] w by (auto simp: process_persister_def)
  show "running no_faults (fst (ps_Start (process_persister store_persister) n s w))
      \<and> process_steps (fst (ps_Start (process_persister store_persister) n s w)) = process_steps w"
    using sqlite.start_spec [OF h, of n s] w by (simp add: process_persister_def)
  show "running no_faults (fst (ps_Save (process_persister store_persister) n s w))
      \<and> process_steps (fst (ps_Save (process_persister store_persister) n s w))
        = (process_steps w)(n := insert s (process_steps w n))"
    using sqlite.save_spec [OF h, of n s] w by (simp add: process_persister_def)
  show "running no_faults (fst (ps_Fail (process_persister store_persister) n s w))
      \<and> process_steps (fst (ps_Fail (process_persister store_persister) n s w))
        = (process_steps w)(n := process_steps w n - {s})"
    using sqlite.fail_spec [OF h, of n s] w by (simp add: process_persister_def)
  show "running no_faults (fst (ps_Delete (process_persister store_persister) n w))
      \<and> process_steps (fst (ps_Delete (process_persister store_persister) n w)) = (process_steps w)(n := {})"
    using sqlite.delete_spec [OF h, of n] w by (simp add: process_persister_def)
qed

text \<open>What the persister leaves alone whatever its statements return.\<close>

definition same_data :: "'w ops_state \<Rightarrow> 'w ops_state \<Rightarrow> bool" where
  "same_data s t = (os_cm t = os_cm s \<and> db_clusters t = db_clusters s \<and> db_containers t = db_containers s
     \<and> db_created t = db_created s \<and> db_has_hostname t = db_has_hostname s)"

lemma same_data_exec: "(\<And>d. same_data d (f d)) \<Longrightarrow> same_data s (fst (db_exec f s))"
  by (auto simp: db_exec_def same_data_def split: list.split option.split)

lemma same_data_persister:
  "same_data s (fst (ps_Save store_persister n st s))" "same_data s (fst (ps_Start store_persister n st s))"
  "same_data s (fst (ps_Fail store_persister n st s))" "same_data s (fst (ps_Delete store_persister n s))"
  "same_data s (fst (ps_Load store_persister n s))"
  unfolding store_persister_def Persister.simps SavePipelineStep_def StartPipelineStep_def FailPipelineStep_def
    DeletePipeline_def LoadPipelineSteps_def db_query_def Let_def
  by (auto intro!: same_data_exec simp: same_data_def upsert_run_def db_exec_def
      split: list.split option.split prod.split)

definition store_or_none :: "'w ops_state proc Persister option \<Rightarrow> bool" where
  "store_or_none persister = (persister = None \<or> persister = Some (process_persister store_persister))"

text \<open>A property of the state that starting and saving a step cannot change.\<close>

definition store_keeps :: "('w ops_state \<Rightarrow> bool) \<Rightarrow> bool" where
  "store_keeps P = (\<forall>s n st. P s \<longrightarrow> P (fst (ps_Start store_persister n st s)) \<and> P (fst (ps_Save store_persister n st s)))"

lemma in_store_if_running: "if_running P w \<Longrightarrow> (\<And>s. P s \<Longrightarrow> P (fst (f s))) \<Longrightarrow> if_running P (fst (in_store f r w))"
  by (cases w) simp_all

lemma store_keepsD:
  "store_keeps P \<Longrightarrow> P s \<Longrightarrow> P (fst (ps_Start store_persister n st s))"
  "store_keeps P \<Longrightarrow> P s \<Longrightarrow> P (fst (ps_Save store_persister n st s))"
  by (simp_all add: store_keeps_def)

lemma persist_call_if_running:
  assumes "store_or_none (pl_Persist p)" "store_keeps P" "if_running P w"
  shows "if_running P (persist_call p (\<lambda>ps n. ps_Start ps n st) w)" "if_running P (persist_call p (\<lambda>ps n. ps_Save ps n st) w)"
proof -
  consider "pl_Persist p = None" | "pl_Persist p = Some (process_persister store_persister)"
    using assms(1) unfolding store_or_none_def by (elim disjE)
  then show "if_running P (persist_call p (\<lambda>ps n. ps_Start ps n st) w)" "if_running P (persist_call p (\<lambda>ps n. ps_Save ps n st) w)"
    by (cases; simp add: persist_call_def process_persister_def assms(3) in_store_if_running [OF assms(3)] store_keepsD [OF assms(2)])+
qed

lemma persist_call_dead:
  assumes "store_or_none (pl_Persist p)" "w = Hung \<or> w = Crashed s m"
  shows "persist_call p ps_Delete w = w" "persist_call p (\<lambda>ps n. ps_Save ps n st) w = w"
    "persist_call p (\<lambda>ps n. ps_Start ps n st) w = w" "persist_call p (\<lambda>ps n. ps_Fail ps n st) w = w"
  using assms by (auto simp: persist_call_def store_or_none_def process_persister_def)

section \<open>Runs\<close>

lemma attempt_loop_if_running:
  assumes "\<And>u. if_running P u \<Longrightarrow> if_running P (fst (f c u))"
  shows "if_running P w \<Longrightarrow> if_running P (fst (attempt_loop n f c le w))"
proof (induction n arbitrary: le w)
  case (Suc n)
  obtain u r where u: "f c w = (u, r)" by fastforce
  have "if_running P u" using assms [OF Suc.prems] unfolding u by simp
  then show ?case using Suc.IH [of u] u by (cases r) simp_all
qed simp

lemma executeStep_if_running:
  assumes "\<And>c u. if_running P u \<Longrightarrow> if_running P (fst (st_Do step c u))" "if_running P w"
  shows "if_running P (fst (executeStep ctx step w))"
  unfolding executeStep_def Let_def by (rule attempt_loop_if_running [OF assms])

text \<open>What the steps that are still to run and the persister keep holds after a successful run.\<close>

lemma run_loop_if_running:
  assumes "run_loop ctx i xs p w = (p', w', None)" "store_or_none (pl_Persist p)" "if_running P w"
    and "store_keeps P"
    and "\<forall>step \<in> set xs. st_Name step \<in> C \<or> (\<forall>c u. if_running P u \<longrightarrow> if_running P (fst (st_Do step c u)))"
    and "C \<subseteq> pl_Completed p"
  shows "if_running P w'"
  using assms(1,2,3,5,6)
proof (induction xs arbitrary: i p w)
  case (Cons step xs)
  show ?case
  proof (cases "st_Name step \<in> pl_Completed p")
    case False
    let ?w1 = "persist_call p (\<lambda>ps n. ps_Start ps n (st_Name step)) w"
    let ?p = "p\<lparr>pl_Completed := insert (st_Name step) (pl_Completed p)\<rparr>"
    obtain w2 r where x: "executeStep ctx step ?w1 = (w2, r)" by fastforce
    then have r: "r = None" using Cons.prems(1) False by (auto simp: Let_def split: prod.splits option.splits)
    let ?w3 = "persist_call ?p (\<lambda>ps n. ps_Save ps n (st_Name step)) w2"
    have run: "run_loop ctx (Suc i) xs ?p ?w3 = (p', w', None)"
      using Cons.prems(1) False x r by (simp add: Let_def)
    have "if_running P ?w1"
      using persist_call_if_running [OF Cons.prems(2) assms(4) Cons.prems(3)] by simp
    then have "if_running P w2"
      using executeStep_if_running [of P step ?w1 ctx] Cons.prems(4,5) False x by auto
    then have "if_running P ?w3"
      using persist_call_if_running [of ?p P w2] Cons.prems(2) assms(4) by simp
    then show ?thesis using Cons.IH [OF run] Cons.prems(2,4,5) by auto
  qed (use Cons in auto)
qed simp

text \<open>A process that crashed or hangs takes no further step.\<close>

lemma run_loop_dead:
  assumes "w = Hung \<or> w = Crashed s m" "store_or_none (pl_Persist p)"
    and "\<forall>step \<in> set xs. 0 \<le> st_Retry step \<and> (\<exists>f. st_Do step = (\<lambda>c. in_process f))"
  shows "\<exists>p'. run_loop ctx i xs p w = (p', w, None)"
  using assms(2,3)
proof (induction xs arbitrary: i p)
  case (Cons step xs)
  have "executeStep ctx step w = (w, None)"
  proof -
    obtain n where n: "nat (st_Retry step + 1) = Suc n" using Cons.prems(2) by (cases "nat (st_Retry step + 1)") auto
    obtain f where "st_Do step = (\<lambda>c. in_process f)" using Cons.prems(2) by auto
    then show ?thesis using assms(1) n by (auto simp: executeStep_def)
  qed
  note x = this
  let ?p = "p\<lparr>pl_Completed := insert (st_Name step) (pl_Completed p)\<rparr>"
  have rest: "\<forall>step \<in> set xs. 0 \<le> st_Retry step \<and> (\<exists>f. st_Do step = (\<lambda>c. in_process f))" using Cons.prems(2) by simp
  have "store_or_none (pl_Persist ?p)" using Cons.prems(1) by simp
  then obtain p' where "run_loop ctx (Suc i) xs ?p w = (p', w, None)" using Cons.IH [OF _ rest] by blast
  moreover obtain p'' where "run_loop ctx (Suc i) xs p w = (p'', w, None)" using Cons.IH [OF Cons.prems(1) rest] by blast
  moreover have "persist_call ?p (\<lambda>ps n. ps_Save ps n (st_Name step)) w = w"
    by (rule persist_call_dead(2) [OF _ assms(1)]) (simp add: Cons.prems(1))
  ultimately show ?case
    by (cases "st_Name step \<in> pl_Completed p") (simp_all add: Let_def x persist_call_dead(3) [OF Cons.prems(1) assms(1)])
qed simp

text \<open>A failed run ends with the rollback of the steps before the failed one.\<close>

lemma run_loop_error_rollback:
  assumes "run_loop ctx i xs p w = (p', w', Some e)"
  obtains j p1 w1 where "i \<le> j" "j < i + length xs" "rollback ctx j p1 w1 = (p', w')"
    "pl_Steps p1 = pl_Steps p" "pl_Name p1 = pl_Name p" "pl_Persist p1 = pl_Persist p"
  using assms
proof (induction xs arbitrary: i p w thesis)
  case (Cons step xs)
  let ?p = "p\<lparr>pl_Completed := insert (st_Name step) (pl_Completed p)\<rparr>"
  obtain w2 r where x: "executeStep ctx step (persist_call p (\<lambda>ps n. ps_Start ps n (st_Name step)) w) = (w2, r)" by fastforce
  show ?case
  proof (cases "st_Name step \<in> pl_Completed p")
    case True
    then have run: "run_loop ctx (Suc i) xs p w = (p', w', Some e)" using Cons.prems(2) by simp
    show ?thesis
    proof (rule Cons.IH [OF _ run])
      fix j p1 w1
      assume "Suc i \<le> j" "j < Suc i + length xs" and rest: "rollback ctx j p1 w1 = (p', w')"
        "pl_Steps p1 = pl_Steps p" "pl_Name p1 = pl_Name p" "pl_Persist p1 = pl_Persist p"
      then have "i \<le> j" "j < i + length (step # xs)" "pl_Steps p1 = pl_Steps p" "pl_Name p1 = pl_Name p" "pl_Persist p1 = pl_Persist p"
        by simp_all
      then show ?thesis by (rule Cons.prems(1) [OF _ _ rest(1)])
    qed
  next
    case False
    show ?thesis
    proof (cases r)
      case None
      then have run: "run_loop ctx (Suc i) xs ?p (persist_call ?p (\<lambda>ps n. ps_Save ps n (st_Name step)) w2) = (p', w', Some e)"
        using Cons.prems(2) False x by (simp add: Let_def)
      show ?thesis
      proof (rule Cons.IH [OF _ run])
        fix j p1 w1
        assume "Suc i \<le> j" "j < Suc i + length xs" and rest: "rollback ctx j p1 w1 = (p', w')"
          "pl_Steps p1 = pl_Steps ?p" "pl_Name p1 = pl_Name ?p" "pl_Persist p1 = pl_Persist ?p"
        then have "i \<le> j" "j < i + length (step # xs)" "pl_Steps p1 = pl_Steps p" "pl_Name p1 = pl_Name p" "pl_Persist p1 = pl_Persist p"
          by simp_all
        then show ?thesis by (rule Cons.prems(1) [OF _ _ rest(1)])
      qed
    next
      case (Some err)
      then have "rollback ctx i p (persist_call p (\<lambda>ps n. ps_Fail ps n (st_Name step)) w2) = (p', w')"
        using Cons.prems(2) False x by (simp add: Let_def split: prod.splits)
      then show ?thesis by (rule Cons.prems(1) [OF order_refl _ _ refl refl refl, rotated]) simp
    qed
  qed
qed simp

lemma rollback_steps_skip: "\<forall>s \<in> set xs. st_Undo s = None \<Longrightarrow> rollback_steps ctx xs p w = (p, w)"
  by (induction xs) auto

lemma rollback_steps_keeps:
  "pl_Name (fst (rollback_steps ctx xs p w)) = pl_Name p" "pl_Persist (fst (rollback_steps ctx xs p w)) = pl_Persist p"
  by (induction xs arbitrary: p w) (simp_all add: Let_def split: option.split)

section \<open>Start of a pipeline\<close>

definition up_to_date :: "'a Store_scheme \<Rightarrow> bool" where
  "up_to_date s = (db_created s \<and> db_has_hostname s)"

lemma same_data_refl [simp]: "same_data s s" and same_data_trans: "same_data s t \<Longrightarrow> same_data t u \<Longrightarrow> same_data s u"
  by (simp_all add: same_data_def)

lemma same_data_faults [simp]: "same_data s (t\<lparr>db_faults := fs\<rparr>) = same_data s t"
  by (simp add: same_data_def)

lemma completed_faults [simp]: "completed_steps (s\<lparr>db_faults := fs\<rparr>) = completed_steps s"
  by (simp add: completed_steps_def fun_eq_iff)

lemma OpenStore_faults:
  assumes "up_to_date s"
  obtains fs e where "OpenStore s = (s\<lparr>db_faults := fs\<rparr>, e)"
proof -
  have id: "\<exists>fs. s = s\<lparr>db_faults := fs\<rparr>" by (rule exI [of _ "db_faults s"]) simp
  have "\<exists>fs. fst (OpenStore s) = s\<lparr>db_faults := fs\<rparr>"
    using assms id
    by (auto simp: OpenStore_def migrate_def db_query_def db_exec_def up_to_date_def create_tables_def
        split: list.split option.split prod.split bool.split)
  then show thesis using that by (metis prod.collapse)
qed

lemma OpenStore_healthy:
  assumes "up_to_date s" "no_faults s"
  shows "OpenStore s = (s, None)"
  using assms by (simp add: OpenStore_def migrate_def db_query_healthy db_exec_healthy no_faults_def up_to_date_def create_tables_def)

lemma open_persister_cases:
  assumes "open_persister cfg s = (s1, persister)" "up_to_date s"
  shows "same_data s s1" "store_or_none persister" "completed_steps s1 = completed_steps s"
    "no_faults s \<Longrightarrow> s1 = s" "no_faults s \<Longrightarrow> rt_DBPath cfg \<noteq> [] \<Longrightarrow> persister = Some (process_persister store_persister)"
proof -
  obtain fs e where o: "OpenStore s = (s\<lparr>db_faults := fs\<rparr>, e)" using OpenStore_faults [OF assms(2)] by blast
  then show "same_data s s1" "store_or_none persister" "completed_steps s1 = completed_steps s"
    using assms(1) by (auto simp: open_persister_def store_or_none_def split: if_splits option.splits)
  show "no_faults s \<Longrightarrow> s1 = s" "no_faults s \<Longrightarrow> rt_DBPath cfg \<noteq> [] \<Longrightarrow> persister = Some (process_persister store_persister)"
    using assms(1) OpenStore_healthy [OF assms(2)] by (auto simp: open_persister_def split: if_splits)
qed

lemma fold_AddStep:
  "\<forall>st \<in> set steps. 0 \<le> st_Retry st \<Longrightarrow> fold AddStep steps p = p\<lparr>pl_Steps := pl_Steps p @ steps\<rparr>"
  by (induction steps arbitrary: p) (simp_all add: AddStep_def Let_def)

lemma Load_cases:
  obtains (failed) fs e where "ps_Load store_persister n s = (s\<lparr>db_faults := fs\<rparr>, Inl e)"
  | (loaded) fs xs where "ps_Load store_persister n s = (s\<lparr>db_faults := fs\<rparr>, Inr xs)" "set xs = completed_steps s n"
proof -
  have r: "set (map pr_step_name (filter (\<lambda>r. pr_pipeline_name r = n \<and> pr_status r = RunCompleted) (db_runs s))) = completed_steps s n"
    by (auto simp: completed_steps_def run_key_iff)
  let ?q = "\<lambda>d. map pr_step_name (filter (\<lambda>r. pr_pipeline_name r = n \<and> pr_status r = RunCompleted) (db_runs d))"
  have load: "ps_Load store_persister n s = db_query ?q s" by (simp add: store_persister_def LoadPipelineSteps_def)
  show thesis
  proof (cases rule: db_exec_cases [of id s])
    case (executed d)
    then have "db_query ?q s = (s\<lparr>db_faults := tl (db_faults s)\<rparr>, Inr (?q s))" by (simp add: db_query_def)
    then show ?thesis using that(2) r unfolding load by blast
  next
    case prems: (failed e)
    then have "db_query ?q s = (s\<lparr>db_faults := tl (db_faults s)\<rparr>, Inl e)" by (simp add: db_query_def)
    then show ?thesis using that(1) unfolding load by blast
  qed
qed

lemma run_pipeline_loop:
  assumes "store_or_none persister" "\<forall>st \<in> set steps. 0 \<le> st_Retry st"
  obtains p fs where
    "run_pipeline name persister steps s = (case run_loop Background 0 steps p (Running (s\<lparr>db_faults := fs\<rparr>)) of (p', w', e) \<Rightarrow> (w', e))"
    "pl_Steps p = steps" "pl_Name p = name" "pl_Persist p = persister" "pl_Completed p \<subseteq> completed_steps s name"
    "no_faults s \<Longrightarrow> fs = [] \<and> (persister \<noteq> None \<longrightarrow> pl_Completed p = completed_steps s name)"
proof -
  let ?p = "\<lparr>pl_Name = name, pl_Steps = steps, pl_Completed = {}, pl_Persist = persister\<rparr>"
  consider (none) "persister = None" | (store) "persister = Some (process_persister store_persister)"
    using assms(1) unfolding store_or_none_def by (elim disjE)
  then show thesis
  proof cases
    case none
    then show ?thesis
      by (intro that [of ?p "db_faults s"])
        (simp_all add: run_pipeline_def NewPipeline_def fold_AddStep [OF assms(2)] Run_def case_prod_beta no_faults_def)
  next
    case store
    show ?thesis
    proof (cases rule: Load_cases [of name s])
      case (failed fs e)
      then have "\<not> no_faults s" by (auto simp: store_persister_def LoadPipelineSteps_def db_query_healthy no_faults_def)
      then show ?thesis using failed store
        by (intro that [of ?p fs])
          (simp_all add: run_pipeline_def NewPipeline_def fold_AddStep [OF assms(2)] Run_def case_prod_beta process_persister_def)
    next
      case (loaded fs xs)
      then have "no_faults s \<Longrightarrow> fs = []"
        by (cases s) (simp add: store_persister_def LoadPipelineSteps_def db_query_healthy no_faults_def)
      then show ?thesis using loaded store
        by (intro that [of "?p\<lparr>pl_Completed := set xs\<rparr>" fs])
          (simp_all add: run_pipeline_def NewPipeline_def fold_AddStep [OF assms(2)] Run_def case_prod_beta process_persister_def)
    qed
  qed
qed

text \<open>An operation from its start on: the run of its steps by a pipeline that knows the completed ones.\<close>

lemma started_run:
  assumes "up_to_date s" "\<And>b. \<forall>st \<in> set (steps b). 0 \<le> st_Retry st"
  obtains p s1 b where
    "(let (s1, persister) = open_persister cfg s; (w, e) = run_pipeline name persister (steps (\<not> Option.is_none persister)) s1
      in (w, map_option msg e)) = (case run_loop Background 0 (steps b) p (Running s1) of (p', w', e) \<Rightarrow> (w', map_option msg e))"
    "same_data s s1" "store_or_none (pl_Persist p)" "pl_Steps p = steps b" "pl_Name p = name"
    "pl_Completed p \<subseteq> completed_steps s name"
    "no_faults s \<longrightarrow> no_faults s1 \<and> completed_steps s1 = completed_steps s"
    "no_faults s \<and> rt_DBPath cfg \<noteq> [] \<longrightarrow>
       b \<and> pl_Persist p = Some (process_persister store_persister) \<and> pl_Completed p = completed_steps s name"
proof -
  obtain s0 persister where o: "open_persister cfg s = (s0, persister)" by fastforce
  note op = open_persister_cases [OF o assms(1)]
  let ?b = "\<not> Option.is_none persister"
  from run_pipeline_loop [OF op(2) assms(2), of name ?b s0]
  obtain p fs where run: "run_pipeline name persister (steps ?b) s0
      = (case run_loop Background 0 (steps ?b) p (Running (s0\<lparr>db_faults := fs\<rparr>)) of (p', w', e) \<Rightarrow> (w', e))"
    and p: "pl_Steps p = steps ?b" "pl_Name p = name" "pl_Persist p = persister" "pl_Completed p \<subseteq> completed_steps s0 name"
    and ok: "no_faults s0 \<Longrightarrow> fs = [] \<and> (persister \<noteq> None \<longrightarrow> pl_Completed p = completed_steps s0 name)"
    by blast
  show thesis
  proof (rule that)
    show "(let (s1, persister) = open_persister cfg s; (w, e) = run_pipeline name persister (steps (\<not> Option.is_none persister)) s1
      in (w, map_option msg e)) = (case run_loop Background 0 (steps ?b) p (Running (s0\<lparr>db_faults := fs\<rparr>)) of (p', w', e) \<Rightarrow> (w', map_option msg e))"
      by (simp add: o run case_prod_beta)
    show "no_faults s \<longrightarrow> no_faults (s0\<lparr>db_faults := fs\<rparr>) \<and> completed_steps (s0\<lparr>db_faults := fs\<rparr>) = completed_steps s"
      using op(3,4) ok by (simp add: no_faults_def)
    show "no_faults s \<and> rt_DBPath cfg \<noteq> [] \<longrightarrow>
       ?b \<and> pl_Persist p = Some (process_persister store_persister) \<and> pl_Completed p = completed_steps s name"
      using op(3,4,5) ok p(3) by auto
  qed (use op p in simp_all)
qed

lemma steps_retry [simp]:
  "\<forall>st \<in> set (create_steps api cfg b n k cn). 0 \<le> st_Retry st"
  "\<forall>st \<in> set (scale_steps api cfg b n k cn). 0 \<le> st_Retry st"
  "\<forall>st \<in> set (delete_steps api cfg b cn). 0 \<le> st_Retry st"
  by (simp_all add: create_steps_def scale_steps_def delete_steps_def process_step_def)

section \<open>Create\<close>

lemma persist_call_Running:
  assumes "store_or_none (pl_Persist p)"
  shows "\<exists>t. persist_call p ps_Delete (Running s) = Running t \<and> same_data s t"
    "\<exists>t. persist_call p (\<lambda>ps n. ps_Save ps n st) (Running s) = Running t \<and> same_data s t"
    "\<exists>t. persist_call p (\<lambda>ps n. ps_Start ps n st) (Running s) = Running t \<and> same_data s t"
    "\<exists>t. persist_call p (\<lambda>ps n. ps_Fail ps n st) (Running s) = Running t \<and> same_data s t"
proof -
  consider "pl_Persist p = None" | "pl_Persist p = Some (process_persister store_persister)"
    using assms unfolding store_or_none_def by (elim disjE)
  then show "\<exists>t. persist_call p ps_Delete (Running s) = Running t \<and> same_data s t"
    "\<exists>t. persist_call p (\<lambda>ps n. ps_Save ps n st) (Running s) = Running t \<and> same_data s t"
    "\<exists>t. persist_call p (\<lambda>ps n. ps_Start ps n st) (Running s) = Running t \<and> same_data s t"
    "\<exists>t. persist_call p (\<lambda>ps n. ps_Fail ps n st) (Running s) = Running t \<and> same_data s t"
    by (cases; simp add: persist_call_def process_persister_def same_data_persister)+
qed

lemma in_process_error: "f s = Some (t, Some err) \<Longrightarrow> \<forall>m. err \<noteq> Panic m \<Longrightarrow> in_process f (Running s) = (Running t, Some err)"
  by (simp add: in_process_def split: go_error.split)

lemma same_data_on_cm: "same_data s t \<Longrightarrow> on_cm f s = Some (s1, e) \<Longrightarrow> \<exists>t1. on_cm f t = Some (t1, e) \<and> same_data s1 t1"
  by (auto simp: on_cm_def same_data_def split: prod.splits)

lemma run_loop_first_fails:
  assumes "store_or_none (pl_Persist p)" "name \<notin> pl_Completed p" "f (os_cm s) = (c, Some err)" "\<forall>m. err \<noteq> Panic m"
  shows "\<exists>p' t. run_loop ctx 0 (process_step name 0 (on_cm f) undo # rest) p (Running s)
      = (p', Running t, Some (ErrorfW ''pipeline step'' (ErrorfW ''after attempts'' err))) \<and> same_data (s\<lparr>os_cm := c\<rparr>) t"
proof -
  obtain s1 where s1: "persist_call p (\<lambda>ps n. ps_Start ps n name) (Running s) = Running s1" "same_data s s1"
    using persist_call_Running(3) [OF assms(1)] by blast
  obtain s2 where s2: "on_cm f s1 = Some (s2, Some err)" "same_data (s\<lparr>os_cm := c\<rparr>) s2"
    using same_data_on_cm [OF s1(2), of f] assms(3) by (auto simp: on_cm_def)
  obtain s3 where s3: "persist_call p (\<lambda>ps n. ps_Fail ps n name) (Running s2) = Running s3" "same_data s2 s3"
    using persist_call_Running(4) [OF assms(1)] by blast
  have "executeStep ctx (process_step name 0 (on_cm f) undo) (Running s1) = (Running s2, Some (ErrorfW ''after attempts'' err))"
    using in_process_error [of "on_cm f", OF s2(1) assms(4)] by (simp add: executeStep_def process_step_def)
  moreover have "st_Name (process_step name 0 (on_cm f) undo) = name" by (simp add: process_step_def)
  ultimately show ?thesis
    using assms(2) s1(1) s3 same_data_trans [OF s2(2) s3(2)] by (simp add: Let_def rollback_def)
qed

lemma new_manager_fields [simp]:
  "cm_nodeManager (os_cm (new_manager b k nm s)) = nm" "os_world (new_manager b k nm s) = os_world s"
  "completed_steps (new_manager b k nm s) = completed_steps s" "up_to_date (new_manager b k nm s) = up_to_date s"
  "no_faults (new_manager b k nm s) = no_faults s" "db_clusters (new_manager b k nm s) = db_clusters s"
  "db_containers (new_manager b k nm s) = db_containers s" "tp_list (cm_topo (os_cm (new_manager b k nm s))) = []"
  "cm_nodesPerShard (os_cm (new_manager b k nm s)) = k"
  by (simp_all add: new_manager_def Let_def NewClusterManager_def SetCacheInvalidator_def completed_steps_def up_to_date_def
      no_faults_def fun_eq_iff newTopology_def)

lemma create_run:
  assumes "rt_Backend cfg = ''podman''" "up_to_date s"
  obtains p s1 b where
    "CreateClusterAction api cfg invalidator n k cn s = (case run_loop Background 0 (create_steps api cfg b n k cn) p (Running s1) of (p', w', e) \<Rightarrow> (w', map_option (ErrorfW ''create cluster'') e))"
    "same_data (new_manager invalidator k (NewPodmanNodeManager cfg) s) s1" "store_or_none (pl_Persist p)" "pl_Steps p = create_steps api cfg b n k cn" "pl_Name p = ''create-cluster-'' @ cn"
    "pl_Completed p \<subseteq> completed_steps s (''create-cluster-'' @ cn)"
    "no_faults s \<longrightarrow> no_faults s1 \<and> completed_steps s1 = completed_steps s"
    "no_faults s \<and> rt_DBPath cfg \<noteq> [] \<longrightarrow>
       b \<and> pl_Persist p = Some (process_persister store_persister) \<and> pl_Completed p = completed_steps s (''create-cluster-'' @ cn)"
proof -
  have upd: "up_to_date (new_manager invalidator k (NewPodmanNodeManager cfg) s)" using assms(2) by simp
  show thesis
    by (rule started_run [where steps = "\<lambda>b. create_steps api cfg b n k cn" and msg = "ErrorfW ''create cluster''" and cfg = cfg
        and name = "''create-cluster-'' @ cn", OF upd])
      (use assms that in \<open>simp_all add: CreateClusterAction_def NewNodeManager_def\<close>)
qed

lemma delete_run:
  assumes "rt_Backend cfg = ''podman''" "up_to_date s"
  obtains p s1 b where
    "DeleteAllContainers api cfg cn s = (case run_loop Background 0 (delete_steps api cfg b cn) p (Running s1) of (p', w', e) \<Rightarrow> (w', map_option (ErrorfW ''delete cluster'') e))"
    "same_data (s) s1" "store_or_none (pl_Persist p)" "pl_Steps p = delete_steps api cfg b cn" "pl_Name p = ''delete-cluster-'' @ cn"
    "pl_Completed p \<subseteq> completed_steps s (''delete-cluster-'' @ cn)"
    "no_faults s \<longrightarrow> no_faults s1 \<and> completed_steps s1 = completed_steps s"
    "no_faults s \<and> rt_DBPath cfg \<noteq> [] \<longrightarrow>
       b \<and> pl_Persist p = Some (process_persister store_persister) \<and> pl_Completed p = completed_steps s (''delete-cluster-'' @ cn)"
proof -
  have upd: "up_to_date (s)" using assms(2) by simp
  show thesis
    by (rule started_run [where steps = "\<lambda>b. delete_steps api cfg b cn" and msg = "ErrorfW ''delete cluster''" and cfg = cfg
        and name = "''delete-cluster-'' @ cn", OF upd])
      (use assms that in \<open>simp_all add: DeleteAllContainers_def NewNodeManager_def\<close>)
qed

lemma scale_run:
  assumes "rt_Backend cfg = ''podman''" "up_to_date s"
    "ReadFromYAMLFile api (ClusterRuntimeConfigPath cfg cn) (os_world s) = Inr conf"
  obtains p s1 b where
    "ScaleClusterAction api cfg invalidator n cn s = (case run_loop Background 0 (scale_steps api (cfg\<lparr>rt_RedisContainerPort := rcc_Port conf\<rparr>) b n (EffectiveNodesPerShard conf) cn) p (Running s1) of (p', w', e) \<Rightarrow> (w', map_option (ErrorfW ''scale cluster'') e))"
    "same_data (new_manager invalidator (EffectiveNodesPerShard conf) (NewPodmanNodeManager (cfg\<lparr>rt_RedisContainerPort := rcc_Port conf\<rparr>)) s) s1" "store_or_none (pl_Persist p)" "pl_Steps p = scale_steps api (cfg\<lparr>rt_RedisContainerPort := rcc_Port conf\<rparr>) b n (EffectiveNodesPerShard conf) cn" "pl_Name p = ''scale-cluster-'' @ cn"
    "pl_Completed p \<subseteq> completed_steps s (''scale-cluster-'' @ cn)"
    "no_faults s \<longrightarrow> no_faults s1 \<and> completed_steps s1 = completed_steps s"
    "no_faults s \<and> rt_DBPath cfg \<noteq> [] \<longrightarrow>
       b \<and> pl_Persist p = Some (process_persister store_persister) \<and> pl_Completed p = completed_steps s (''scale-cluster-'' @ cn)"
proof -
  have upd: "up_to_date (new_manager invalidator (EffectiveNodesPerShard conf) (NewPodmanNodeManager (cfg\<lparr>rt_RedisContainerPort := rcc_Port conf\<rparr>)) s)" using assms(2) by simp
  show thesis
    by (rule started_run [where steps = "\<lambda>b. scale_steps api (cfg\<lparr>rt_RedisContainerPort := rcc_Port conf\<rparr>) b n (EffectiveNodesPerShard conf) cn" and msg = "ErrorfW ''scale cluster''" and cfg = "cfg\<lparr>rt_RedisContainerPort := rcc_Port conf\<rparr>"
        and name = "''scale-cluster-'' @ cn", OF upd])
      (use assms that in \<open>simp_all add: ScaleClusterAction_def NewNodeManager_def NewPodmanNodeManager_def\<close>)
qed

text \<open>C7: creating a cluster that already has containers is refused before anything is changed: the only
  commands sent are those of the listing, no row of a cluster or container changes, and the caller
  finds ErrClusterExists in the error.\<close>

theorem create_existing_rejected:
  assumes "rt_Backend cfg = ''podman''" and "0 < shards" and "2 \<le> nodesPerShard" and "cn \<noteq> []"
    and "up_to_date s" and "''validate'' \<notin> completed_steps s (''create-cluster-'' @ cn)"
    and "ListPodsByCluster (oa_podman api) cn (NewPodmanNodeManager cfg, os_world s) = ((nm, w), None)" and "pm_HasCluster nm cn"
  shows "\<exists>s' e. CreateClusterAction api cfg invalidator shards nodesPerShard cn s = (Running s', Some e) \<and> errors_Is e ErrClusterExists
    \<and> os_world s' = w \<and> db_clusters s' = db_clusters s \<and> db_containers s' = db_containers s"
proof -
  let ?s = "new_manager invalidator nodesPerShard (NewPodmanNodeManager cfg) s"
  let ?V = "create_validate api shards nodesPerShard cn"
  obtain p s1 b where run: "CreateClusterAction api cfg invalidator shards nodesPerShard cn s
      = (case run_loop Background 0 (create_steps api cfg b shards nodesPerShard cn) p (Running s1) of
           (p', w', e) \<Rightarrow> (w', map_option (ErrorfW ''create cluster'') e))"
    and p: "same_data ?s s1" "store_or_none (pl_Persist p)" "pl_Completed p \<subseteq> completed_steps s (''create-cluster-'' @ cn)"
    by (rule create_run [OF assms(1,5)])
  let ?steps = "create_steps api cfg b shards nodesPerShard cn" and ?c' = "(os_cm ?s)\<lparr>cm_nodeManager := nm, cm_world := w\<rparr>"
  have v: "?V (os_cm s1) = (?c', Some (ErrorfW ''cluster already exists'' ErrClusterExists))"
    using assms(2,3,4,7,8) p(1) by (simp add: create_validate_def on_pods_def same_data_def)
  have steps: "?steps = process_step ''validate'' 0 (on_cm ?V) None # tl ?steps" by (simp add: create_steps_def)
  have "''validate'' \<notin> pl_Completed p" using p(3) assms(6) by auto
  then obtain p' t where "run_loop Background 0 ?steps p (Running s1) = (p', Running t, Some (ErrorfW ''pipeline step''
      (ErrorfW ''after attempts'' (ErrorfW ''cluster already exists'' ErrClusterExists))))"
    and "same_data (s1\<lparr>os_cm := ?c'\<rparr>) t"
    using run_loop_first_fails [of p "''validate''" ?V s1, OF p(2) _ v, of Background None "tl ?steps"] unfolding steps [symmetric] by auto
  then show ?thesis using run p(1) by (simp add: same_data_def)
qed

section \<open>Failure after the containers were created\<close>

lemma delete_resources_Running:
  "fst (in_process (delete_resources api cn) (Running s)) = Running (set_world (fst (DeleteResources (oa_podman api) cn (os_world s))) s)"
  by (auto simp: in_process_def delete_resources_def on_world_def DeleteResources_def split: prod.split sum.split)

lemma failure_deletes:
  assumes "run_loop ctx (Suc (length pre)) rest p w = (p', Running s', Some e)" "pl_Steps p = pre @ c # rest"
    and "\<forall>st \<in> set pre. st_Undo st = None" "st_Undo c = Some (\<lambda>ctx. in_process (delete_resources api cn))"
    and "store_or_none (pl_Persist p)"
  shows "\<exists>u. os_world s' = fst (DeleteResources (oa_podman api) cn u)"
proof -
  obtain j p1 w1 where j: "Suc (length pre) \<le> j" and r: "rollback ctx j p1 w1 = (p', Running s')"
    and p1: "pl_Steps p1 = pl_Steps p" "pl_Persist p1 = pl_Persist p"
    by (rule run_loop_error_rollback [OF assms(1)])
  obtain k where k: "j = length pre + Suc k" using j by (metis add_Suc_right add_Suc le_Suc_ex)
  obtain p2 w2 where later: "rollback_steps ctx (rev (take k rest)) p1 w1 = (p2, w2)" by fastforce
  have p2: "store_or_none (pl_Persist p2)" using rollback_steps_keeps(2) [of ctx "rev (take k rest)" p1 w1] later p1 assms(5) by simp
  let ?p = "p2\<lparr>pl_Completed := pl_Completed p2 - {st_Name c}\<rparr>" and ?w = "fst (in_process (delete_resources api cn) w2)"
  have "rollback ctx j p1 w1 = (?p, persist_call ?p ps_Delete ?w)"
    using rollback_steps_skip [of "rev pre"] assms(2,3,4) later
    by (simp add: rollback_def p1 k rollback_steps_append Let_def)
  then have fin: "persist_call ?p ps_Delete ?w = Running s'" using r by simp
  have sp: "store_or_none (pl_Persist ?p)" using p2 by simp
  show ?thesis
  proof (cases w2)
    case (Running u)
    obtain t where t: "persist_call ?p ps_Delete ?w = Running t" "same_data (set_world (fst (DeleteResources (oa_podman api) cn (os_world u))) u) t"
      using persist_call_Running(1) [OF sp] unfolding Running delete_resources_Running by blast
    then have "os_world s' = fst (DeleteResources (oa_podman api) cn (os_world u))" using fin by (simp add: same_data_def)
    then show ?thesis by (rule exI)
  qed (use fin persist_call_dead(1) [OF sp, of w2] in simp_all)
qed

lemma run_loop_step_ok:
  assumes "store_or_none (pl_Persist p)" "pl_Completed p = C" "name \<notin> C" "0 \<le> r"
    and f: "\<And>t. os_cm t = os_cm s \<Longrightarrow> f t = Some (t\<lparr>os_cm := c\<rparr>, None)"
  obtains p1 t where "run_loop ctx i (process_step name r f undo # rest) p (Running s) = run_loop ctx (Suc i) rest p1 (Running t)"
    "os_cm t = c" "pl_Steps p1 = pl_Steps p" "pl_Persist p1 = pl_Persist p" "pl_Completed p1 = insert name C"
proof -
  let ?p = "p\<lparr>pl_Completed := insert name (pl_Completed p)\<rparr>"
  obtain s1 where s1: "persist_call p (\<lambda>ps n. ps_Start ps n name) (Running s) = Running s1" "same_data s s1"
    using persist_call_Running(3) [OF assms(1)] by blast
  have "f s1 = Some (s1\<lparr>os_cm := c\<rparr>, None)" using f s1(2) by (simp add: same_data_def)
  then have "in_process f (Running s1) = (Running (s1\<lparr>os_cm := c\<rparr>), None)" by (simp add: in_process_def)
  moreover obtain m where "nat (r + 1) = Suc m" using assms(4) by (cases "nat (r + 1)") auto
  ultimately have x: "executeStep ctx (process_step name r f undo) (Running s1) = (Running (s1\<lparr>os_cm := c\<rparr>), None)"
    by (simp add: executeStep_def process_step_def)
  obtain t where t: "persist_call ?p (\<lambda>ps n. ps_Save ps n name) (Running (s1\<lparr>os_cm := c\<rparr>)) = Running t" "same_data (s1\<lparr>os_cm := c\<rparr>) t"
    using persist_call_Running(2) [of ?p] assms(1) by auto
  have n: "st_Name (process_step name r f undo) = name" by (simp add: process_step_def)
  show thesis
    by (rule that [of ?p t]) (use assms(2,3) s1(1) x t n in \<open>simp_all add: Let_def same_data_def\<close>)
qed

lemma on_cm_ok: "f c = (d, None) \<Longrightarrow> os_cm t = c \<Longrightarrow> on_cm f t = Some (t\<lparr>os_cm := d\<rparr>, None)"
  by (simp add: on_cm_def)

lemma create_containers_ok:
  "CreatePodsForCluster (oa_redis api) cn n c = Some (d, None) \<Longrightarrow> os_cm t = c \<Longrightarrow>
   create_containers api cn n t = Some (t\<lparr>os_cm := d\<rparr>, None)"
  by (simp add: create_containers_def)

text \<open>C16: when creating a cluster fails after its containers were started, the last commands of the rollback are
  those that remove the containers of the cluster.\<close>

theorem failed_create_removes_containers:
  assumes "rt_Backend cfg = ''podman''" and "up_to_date s" and "completed_steps s (''create-cluster-'' @ cn) = {}"
    and "create_validate api n k cn (os_cm (new_manager invalidator k (NewPodmanNodeManager cfg) s)) = (c1, None)"
    and "CreatePodsForCluster (oa_redis api) cn (n * k) c1 = Some (c2, None)"
    and "CreateClusterAction api cfg invalidator n k cn s = (Running s', Some e)"
  shows "\<exists>w. os_world s' = fst (DeleteResources (oa_podman api) cn w)"
  supply run_loop.simps [simp del]
proof -
  obtain p s1 b where run: "CreateClusterAction api cfg invalidator n k cn s
      = (case run_loop Background 0 (create_steps api cfg b n k cn) p (Running s1) of
           (p', w', e) \<Rightarrow> (w', map_option (ErrorfW ''create cluster'') e))"
    and p: "same_data (new_manager invalidator k (NewPodmanNodeManager cfg) s) s1" "store_or_none (pl_Persist p)"
      "pl_Steps p = create_steps api cfg b n k cn" "pl_Completed p \<subseteq> completed_steps s (''create-cluster-'' @ cn)"
    by (rule create_run [OF assms(1,2)])
  let ?v = "process_step ''validate'' 0 (on_cm (create_validate api n k cn)) None"
  let ?c = "process_step ''create-containers'' 1 (create_containers api cn (n * k)) (Some (delete_resources api cn))"
  obtain rest where steps: "create_steps api cfg b n k cn = [?v] @ ?c # rest" by (simp add: create_steps_def)
  have C: "pl_Completed p = {}" using p(4) assms(3) by simp
  have c0: "create_validate api n k cn (os_cm s1) = (c1, None)" using assms(4) p(1) by (simp add: same_data_def)
  obtain p1 t1 where r1: "run_loop Background 0 (?v # ?c # rest) p (Running s1) = run_loop Background (Suc 0) (?c # rest) p1 (Running t1)"
    and p1: "os_cm t1 = c1" "pl_Steps p1 = pl_Steps p" "pl_Persist p1 = pl_Persist p" "pl_Completed p1 = insert ''validate'' {}"
    by (rule run_loop_step_ok [OF p(2) C _ order_refl on_cm_ok [of "create_validate api n k cn", OF c0], of "''validate''"]) simp
  have sp1: "store_or_none (pl_Persist p1)" using p(2) p1(3) by simp
  obtain p2 t2 where r2: "run_loop Background (Suc 0) (?c # rest) p1 (Running t1) = run_loop Background (Suc (Suc 0)) rest p2 (Running t2)"
    and p2: "pl_Steps p2 = pl_Steps p1" "pl_Persist p2 = pl_Persist p1"
    by (rule run_loop_step_ok [OF sp1 p1(4) _ zero_le_one create_containers_ok [OF assms(5)], of "''create-containers''" t1]) (simp_all add: p1(1))
  obtain p' e' where fin: "run_loop Background (Suc (length [?v])) rest p2 (Running t2) = (p', Running s', Some e')"
    using assms(6) run r1 r2 unfolding steps by (auto split: prod.splits)
  have "pl_Steps p2 = [?v] @ ?c # rest" using p1 p2 p(3) steps by simp
  from failure_deletes [OF fin this] show ?thesis using p2 sp1 by (simp add: process_step_def)
qed

text \<open>when scaling fails after the new containers were started, the last commands of the rollback are those of
  a deletion of the cluster: they name every container of the cluster, not only the new ones.\<close>

theorem failed_scale_deletes_cluster:
  assumes "rt_Backend cfg = ''podman''" and "up_to_date s" and "completed_steps s (''scale-cluster-'' @ cn) = {}"
    and "ReadFromYAMLFile api (ClusterRuntimeConfigPath cfg cn) (os_world s) = Inr conf"
    and "scale_validate api n cn (os_cm (new_manager invalidator (EffectiveNodesPerShard conf)
           (NewPodmanNodeManager (cfg\<lparr>rt_RedisContainerPort := rcc_Port conf\<rparr>)) s)) = (c1, None)"
    and "scale_sync api cn c1 = (c2, None)"
    and "CreatePodsForCluster (oa_redis api) cn (n * EffectiveNodesPerShard conf) c2 = Some (c3, None)"
    and "ScaleClusterAction api cfg invalidator n cn s = (Running s', Some e)"
  shows "\<exists>w. os_world s' = fst (DeleteResources (oa_podman api) cn w)"
  supply run_loop.simps [simp del]
proof -
  let ?k = "EffectiveNodesPerShard conf" and ?cfg = "cfg\<lparr>rt_RedisContainerPort := rcc_Port conf\<rparr>"
  obtain p s1 b where run: "ScaleClusterAction api cfg invalidator n cn s
      = (case run_loop Background 0 (scale_steps api ?cfg b n ?k cn) p (Running s1) of
           (p', w', e) \<Rightarrow> (w', map_option (ErrorfW ''scale cluster'') e))"
    and p: "same_data (new_manager invalidator ?k (NewPodmanNodeManager ?cfg) s) s1" "store_or_none (pl_Persist p)"
      "pl_Steps p = scale_steps api ?cfg b n ?k cn" "pl_Completed p \<subseteq> completed_steps s (''scale-cluster-'' @ cn)"
    by (rule scale_run [OF assms(1,2,4)])
  let ?v = "process_step ''validate'' 0 (on_cm (scale_validate api n cn)) None"
  let ?y = "process_step ''sync-state'' 0 (on_cm (scale_sync api cn)) None"
  let ?c = "process_step ''create-containers'' 1 (create_containers api cn (n * ?k)) (Some (delete_resources api cn))"
  obtain rest where steps: "scale_steps api ?cfg b n ?k cn = [?v, ?y] @ ?c # rest" by (simp add: scale_steps_def)
  have C: "pl_Completed p = {}" using p(4) assms(3) by simp
  have c0: "scale_validate api n cn (os_cm s1) = (c1, None)" using assms(5) p(1) by (simp add: same_data_def)
  obtain p1 t1 where r1: "run_loop Background 0 (?v # ?y # ?c # rest) p (Running s1) = run_loop Background (Suc 0) (?y # ?c # rest) p1 (Running t1)"
    and p1: "os_cm t1 = c1" "pl_Steps p1 = pl_Steps p" "pl_Persist p1 = pl_Persist p" "pl_Completed p1 = insert ''validate'' {}"
    by (rule run_loop_step_ok [OF p(2) C _ order_refl on_cm_ok [of "scale_validate api n cn", OF c0], of "''validate''"]) simp
  have sp1: "store_or_none (pl_Persist p1)" using p(2) p1(3) by simp
  obtain p2 t2 where r2: "run_loop Background (Suc 0) (?y # ?c # rest) p1 (Running t1) = run_loop Background (Suc (Suc 0)) (?c # rest) p2 (Running t2)"
    and p2: "os_cm t2 = c2" "pl_Steps p2 = pl_Steps p1" "pl_Persist p2 = pl_Persist p1" "pl_Completed p2 = insert ''sync-state'' (insert ''validate'' {})"
    by (rule run_loop_step_ok [OF sp1 p1(4) _ order_refl on_cm_ok [of "scale_sync api cn", OF assms(6)], of "''sync-state''" t1]) (simp_all add: p1(1))
  have sp2: "store_or_none (pl_Persist p2)" using sp1 p2(3) by simp
  obtain p3 t3 where r3: "run_loop Background (Suc (Suc 0)) (?c # rest) p2 (Running t2) = run_loop Background (Suc (Suc (Suc 0))) rest p3 (Running t3)"
    and p3: "pl_Steps p3 = pl_Steps p2" "pl_Persist p3 = pl_Persist p2"
    by (rule run_loop_step_ok [OF sp2 p2(4) _ zero_le_one create_containers_ok [OF assms(7)], of "''create-containers''" t2]) (simp_all add: p2(1))
  obtain p' e' where fin: "run_loop Background (Suc (length [?v, ?y])) rest p3 (Running t3) = (p', Running s', Some e')"
    using assms(8) run r1 r2 r3 unfolding steps by (auto split: prod.splits)
  have "pl_Steps p3 = [?v, ?y] @ ?c # rest" using p1 p2 p3 p(3) steps by simp
  from failure_deletes [OF fin this] show ?thesis using p3 sp2 by (simp add: process_step_def)
qed

section \<open>Delete\<close>

lemma store_keeps_data:
  assumes "\<And>s t. P s \<Longrightarrow> same_data s t \<Longrightarrow> P t"
  shows "store_keeps P" "store_keeps (\<lambda>s. no_faults s \<and> P s)" "store_keeps (\<lambda>s. no_faults s \<and> x \<in> completed_steps s n \<and> P s)"
proof -
  have keep: "no_faults (fst (ps_Start store_persister m st s)) \<and> completed_steps (fst (ps_Start store_persister m st s)) = completed_steps s"
    "no_faults (fst (ps_Save store_persister m st s)) \<and> x \<in> completed_steps (fst (ps_Save store_persister m st s)) n"
    if "no_faults s" "x \<in> completed_steps s n" for s :: "'a ops_state" and m st
    using sqlite.start_spec [OF that(1), of m st] sqlite.save_spec [OF that(1), of m st] that(2) by auto
  have P: "P (fst (ps_Start store_persister m st s)) \<and> P (fst (ps_Save store_persister m st s))" if "P s" for m st s
    using assms [OF that same_data_persister(1)] assms [OF that same_data_persister(2)] by blast
  have nf: "no_faults (fst (ps_Start store_persister m st s)) \<and> no_faults (fst (ps_Save store_persister m st s))"
    if "no_faults s" for m st and s :: "'a ops_state"
    using sqlite.start_spec [OF that, of m st] sqlite.save_spec [OF that, of m st] by blast
  show "store_keeps P" "store_keeps (\<lambda>s. no_faults s \<and> P s)" using P nf by (simp_all add: store_keeps_def)
  show "store_keeps (\<lambda>s. no_faults s \<and> x \<in> completed_steps s n \<and> P s)"
    using P keep by (simp add: store_keeps_def)
qed

lemma on_world_keeps:
  assumes "\<And>s w. P s \<Longrightarrow> P (set_world w s)" "if_running P u"
  shows "if_running P (fst (in_process (on_world f) u))"
  using assms by (intro in_process_if_running) (auto simp: on_world_def split: prod.splits)

lemma run_loop_success_Running:
  assumes "run_loop ctx i xs p w = (p', Running s', None)" "store_or_none (pl_Persist p)"
    and "\<forall>step \<in> set xs. 0 \<le> st_Retry step \<and> (\<exists>f. st_Do step = (\<lambda>c. in_process f))"
  obtains s where "w = Running s"
  using run_loop_dead [OF _ assms(2,3), of w _ _ ctx i] assms(1) by (cases w) auto

lemma process_step_shape [simp]:
  "st_Name (process_step n r f u) = n" "st_Retry (process_step n r f u) = r" "st_Do (process_step n r f u) = (\<lambda>c. in_process f)"
  by (simp_all add: process_step_def)

lemma DeletePipeline_healthy:
  "no_faults s \<Longrightarrow> fst (DeletePipeline n s) = s\<lparr>db_runs := filter (\<lambda>r. pr_pipeline_name r \<noteq> n) (db_runs s)\<rparr>"
  by (simp add: DeletePipeline_def db_exec_healthy no_faults_def)

lemma delete_db_healthy:
  assumes "no_faults s" "up_to_date s" "rt_DBPath cfg \<noteq> []"
  obtains t where "delete_db cfg b n cn s = Some (t, None)" "no_faults t"
    "db_clusters t = filter (\<lambda>r. cr_Name (cl_rec r) \<noteq> cn) (db_clusters s)"
    "db_containers t = filter (\<lambda>r. ct_ClusterName (cnt_rec r) \<noteq> cn) (db_containers s)"
proof (rule that)
  show "delete_db cfg b n cn s = Some (fst (the (delete_db cfg b n cn s)), None)"
    using assms by (simp add: delete_db_def OpenStore_healthy Let_def)
qed (use assms in \<open>simp_all add: delete_db_def OpenStore_healthy DeleteCluster_def LogOperation_def DeletePipeline_def
    db_exec_healthy no_faults_def Let_def\<close>)

text \<open>A step that succeeds on a healthy database is recorded.\<close>

lemma run_loop_recorded_step:
  assumes "pl_Persist p = Some (process_persister store_persister)" "name \<notin> pl_Completed p" "no_faults s"
    and f: "\<And>t. same_data s t \<Longrightarrow> no_faults t \<Longrightarrow> \<exists>u. f t = Some (u, None) \<and> no_faults u \<and> Q u"
    and Q: "\<And>u v. Q u \<Longrightarrow> same_data u v \<Longrightarrow> Q v"
  obtains p1 t where "run_loop ctx i (process_step name 0 f undo # rest) p (Running s) = run_loop ctx (Suc i) rest p1 (Running t)"
    "no_faults t" "name \<in> completed_steps t (pl_Name p)" "Q t" "pl_Persist p1 = pl_Persist p"
proof -
  let ?p = "p\<lparr>pl_Completed := insert name (pl_Completed p)\<rparr>"
  let ?s1 = "fst (ps_Start store_persister (pl_Name p) name s)"
  have s1: "no_faults ?s1" "same_data s ?s1"
    using sqlite.start_spec [OF assms(3), of "pl_Name p" name] same_data_persister(2) by blast+
  obtain u where u: "f ?s1 = Some (u, None)" "no_faults u" "Q u" using f [OF s1(2,1)] by blast
  let ?t = "fst (ps_Save store_persister (pl_Name p) name u)"
  have t: "no_faults ?t" "name \<in> completed_steps ?t (pl_Name p)" "Q ?t"
    using sqlite.save_spec [OF u(2), of "pl_Name p" name] Q [OF u(3) same_data_persister(1)] by simp_all
  have "executeStep ctx (process_step name 0 f undo) (Running ?s1) = (Running u, None)"
    using u(1) by (simp add: executeStep_def in_process_def)
  then have "run_loop ctx i (process_step name 0 f undo # rest) p (Running s) = run_loop ctx (Suc i) rest ?p (Running ?t)"
    using assms(1,2) by (simp add: persist_call_def process_persister_def Let_def)
  then show thesis by (rule that) (use t in simp_all)
qed

text \<open>A run of the deletion whose database step is still to do.\<close>

lemma delete_run_db:
  assumes "run_loop Background 0 (delete_steps api cfg b cn) p (Running s) = (p', Running s', None)"
    and "pl_Persist p = Some (process_persister store_persister)" "pl_Name p = n" "''persist-db'' \<notin> pl_Completed p"
    and "no_faults s" "up_to_date s" "rt_DBPath cfg \<noteq> []"
  shows "no_faults s'" "''persist-db'' \<in> completed_steps s' n"
    "db_clusters s' = filter (\<lambda>r. cr_Name (cl_rec r) \<noteq> cn) (db_clusters s)"
    "db_containers s' = filter (\<lambda>r. ct_ClusterName (cnt_rec r) \<noteq> cn) (db_containers s)"
proof -
  let ?f = "process_step ''delete-config'' 0 (on_world (delete_config api cfg cn)) None"
  let ?r = "process_step ''delete-resources'' 2 (delete_resources api cn) None"
  let ?d = "process_step ''persist-db'' 0 (delete_db cfg b (''delete-cluster-'' @ cn) cn) None"
  let ?c = "process_step ''cleanup-state'' 0 (on_world (cleanup_state api cfg cn)) None"
  have sp: "store_or_none (pl_Persist p)" using assms(2) by (simp add: store_or_none_def)
  have steps: "delete_steps api cfg b cn = [?f, ?r] @ [?d, ?c]" by (simp add: delete_steps_def)
  obtain p1 w1 where r1: "run_loop Background 0 [?f, ?r] p (Running s) = (p1, w1, None)"
    and r2: "run_loop Background (0 + length [?f, ?r]) [?d, ?c] p1 w1 = (p', Running s', None)"
    using assms(1) unfolding steps run_loop_append by (auto simp del: run_loop.simps split: prod.splits option.splits)
  have p1: "pl_Persist p1 = pl_Persist p" "pl_Name p1 = n" "''persist-db'' \<notin> pl_Completed p1"
    using run_loop_frame [OF r1] run_loop_ok_completed [OF r1] assms(3,4) by auto
  then have sp1: "store_or_none (pl_Persist p1)" using sp by simp
  obtain s1 where s1: "w1 = Running s1" by (rule run_loop_success_Running [OF r2 sp1]) auto
  let ?P = "\<lambda>t. no_faults t \<and> db_clusters t = db_clusters s \<and> db_containers t = db_containers s \<and> up_to_date t"
  have "store_keeps ?P" by (rule store_keeps_data(2)) (simp add: same_data_def up_to_date_def)
  from run_loop_if_running [OF r1 sp _ this, of "{}"]
  have P: "?P s1" using assms(5,6) unfolding s1
    by (simp add: delete_resources_def on_world_keeps no_faults_def up_to_date_def)
  let ?Q = "\<lambda>t. db_clusters t = filter (\<lambda>r. cr_Name (cl_rec r) \<noteq> cn) (db_clusters s)
    \<and> db_containers t = filter (\<lambda>r. ct_ClusterName (cnt_rec r) \<noteq> cn) (db_containers s)"
  have Q: "?Q v" if "?Q u" "same_data u v" for u v using that by (simp add: same_data_def)
  have db: "\<exists>u. delete_db cfg b (''delete-cluster-'' @ cn) cn t = Some (u, None) \<and> no_faults u \<and> ?Q u"
    if "same_data s1 t" "no_faults t" for t
  proof -
    have "up_to_date t" "db_clusters t = db_clusters s" "db_containers t = db_containers s"
      using P that(1) by (simp_all add: same_data_def up_to_date_def)
    then show ?thesis using delete_db_healthy [OF that(2) _ assms(7), of b "''delete-cluster-'' @ cn" cn] by metis
  qed
  have pp: "pl_Persist p1 = Some (process_persister store_persister)" using p1(1) assms(2) by simp
  have nf: "no_faults s1" using P by simp
  obtain p2 s2 where r3: "run_loop Background (0 + length [?f, ?r]) [?d, ?c] p1 (Running s1) = run_loop Background (Suc (0 + length [?f, ?r])) [?c] p2 (Running s2)"
    and s2: "no_faults s2" "''persist-db'' \<in> completed_steps s2 (pl_Name p1)" "?Q s2" and p2: "pl_Persist p2 = pl_Persist p1"
    by (rule run_loop_recorded_step [of p1 "''persist-db''" s1 _ ?Q, OF pp p1(3) nf db Q])
  let ?R = "\<lambda>t. no_faults t \<and> ''persist-db'' \<in> completed_steps t n \<and> ?Q t"
  have keep: "store_keeps ?R" by (rule store_keeps_data(3)) (rule Q)
  have sp2: "store_or_none (pl_Persist p2)" using sp1 p2 by simp
  have "?R s'"
    using run_loop_if_running [OF r2 [unfolded s1 r3] sp2 _ keep, of "{}"] s2 p1(2)
    by (simp add: on_world_keeps no_faults_def completed_steps_def)
  then show "no_faults s'" "''persist-db'' \<in> completed_steps s' n"
    "db_clusters s' = filter (\<lambda>r. cr_Name (cl_rec r) \<noteq> cn) (db_clusters s)"
    "db_containers s' = filter (\<lambda>r. ct_ClusterName (cnt_rec r) \<noteq> cn) (db_containers s)"
    by simp_all
qed

lemma delete_records:
  assumes "rt_Backend cfg = ''podman''" "up_to_date s" "no_faults s" "rt_DBPath cfg \<noteq> []"
    and "''persist-db'' \<notin> completed_steps s (''delete-cluster-'' @ cn)"
    and "DeleteAllContainers api cfg cn s = (Running s', None)"
  shows "''persist-db'' \<in> completed_steps s' (''delete-cluster-'' @ cn)"
    "db_clusters s' = filter (\<lambda>r. cr_Name (cl_rec r) \<noteq> cn) (db_clusters s)"
    "db_containers s' = filter (\<lambda>r. ct_ClusterName (cnt_rec r) \<noteq> cn) (db_containers s)"
proof -
  obtain p s1 b where run: "DeleteAllContainers api cfg cn s = (case run_loop Background 0 (delete_steps api cfg b cn) p (Running s1) of
      (p', w', e) \<Rightarrow> (w', map_option (ErrorfW ''delete cluster'') e))"
    and d: "same_data s s1" and n: "pl_Name p = ''delete-cluster-'' @ cn"
    and nf: "no_faults s \<longrightarrow> no_faults s1 \<and> completed_steps s1 = completed_steps s"
    and p: "no_faults s \<and> rt_DBPath cfg \<noteq> [] \<longrightarrow>
       b \<and> pl_Persist p = Some (process_persister store_persister) \<and> pl_Completed p = completed_steps s (''delete-cluster-'' @ cn)"
    by (rule delete_run [OF assms(1,2)])
  obtain p' where r: "run_loop Background 0 (delete_steps api cfg b cn) p (Running s1) = (p', Running s', None)"
    using assms(6) run by (auto simp del: run_loop.simps split: prod.splits)
  have "up_to_date s1" using d assms(2) by (simp add: same_data_def up_to_date_def)
  note fin = delete_run_db [OF r _ n _ _ this assms(4)]
  show "''persist-db'' \<in> completed_steps s' (''delete-cluster-'' @ cn)"
    "db_clusters s' = filter (\<lambda>r. cr_Name (cl_rec r) \<noteq> cn) (db_clusters s)"
    "db_containers s' = filter (\<lambda>r. ct_ClusterName (cnt_rec r) \<noteq> cn) (db_containers s)"
    using fin p nf d assms(3,4,5) by (simp_all add: same_data_def)
qed


text \<open>a successful deletion leaves its database step marked as completed, because the step removes the marks and
  is itself marked afterwards. A later deletion of a cluster with that name therefore skips the step: it
  reports success and leaves every row of the cluster and of its containers in the database.\<close>

theorem second_delete_keeps_rows:
  assumes "rt_Backend cfg = ''podman''" and "rt_DBPath cfg \<noteq> []" and "up_to_date s" and "no_faults s"
    and "''persist-db'' \<notin> completed_steps s (''delete-cluster-'' @ cn)"
    and "DeleteAllContainers api cfg cn s = (Running s1, None)"
    and "up_to_date s2" and "no_faults s2"
    and "completed_steps s2 (''delete-cluster-'' @ cn) = completed_steps s1 (''delete-cluster-'' @ cn)"
    and "DeleteAllContainers api cfg cn s2 = (Running s3, None)"
  shows "db_clusters s3 = db_clusters s2 \<and> db_containers s3 = db_containers s2"
proof -
  have mark: "''persist-db'' \<in> completed_steps s2 (''delete-cluster-'' @ cn)"
    using delete_records(1) [OF assms(1,3,4,2,5,6)] assms(9) by simp
  obtain p t b where run: "DeleteAllContainers api cfg cn s2 = (case run_loop Background 0 (delete_steps api cfg b cn) p (Running t) of
      (p', w', e) \<Rightarrow> (w', map_option (ErrorfW ''delete cluster'') e))"
    and d: "same_data s2 t" and sp: "store_or_none (pl_Persist p)"
    and p: "no_faults s2 \<and> rt_DBPath cfg \<noteq> [] \<longrightarrow>
       b \<and> pl_Persist p = Some (process_persister store_persister) \<and> pl_Completed p = completed_steps s2 (''delete-cluster-'' @ cn)"
    by (rule delete_run [OF assms(1,7)])
  have C: "{''persist-db''} \<subseteq> pl_Completed p" using p assms(2,8) mark by simp
  obtain p' where r: "run_loop Background 0 (delete_steps api cfg b cn) p (Running t) = (p', Running s3, None)"
    using assms(10) run by (auto simp del: run_loop.simps split: prod.splits)
  let ?P = "\<lambda>u. db_clusters u = db_clusters s2 \<and> db_containers u = db_containers s2"
  have keep: "store_keeps ?P" by (rule store_keeps_data(1)) (simp add: same_data_def)
  show ?thesis
    using run_loop_if_running [OF r sp _ keep _ C] d
    by (simp add: delete_steps_def delete_resources_def on_world_keeps same_data_def)
qed

section \<open>Resuming a create\<close>

text \<open>A new process tracks no node and knows no topology.\<close>

definition fresh :: "'w ops_state \<Rightarrow> bool" where
  "fresh s = (cm_GetNodes (os_cm s) = [] \<and> tp_list (cm_topo (os_cm s)) = [])"

lemma store_keeps_fresh: "store_keeps fresh"
  by (rule store_keeps_data(1)) (simp add: same_data_def fresh_def)

lemma on_cm_fresh:
  assumes "\<And>c d e. cm_GetNodes c = [] \<Longrightarrow> tp_list (cm_topo c) = [] \<Longrightarrow> f c = (d, e) \<Longrightarrow> cm_GetNodes d = [] \<and> tp_list (cm_topo d) = []"
    and "if_running fresh u"
  shows "if_running fresh (fst (in_process (on_cm f) u))"
proof (rule in_process_if_running [OF assms(2)])
  fix s s' e
  assume s: "fresh s" "on_cm f s = Some (s', e)"
  obtain d e' where f: "f (os_cm s) = (d, e')" by fastforce
  then have "s' = s\<lparr>os_cm := d\<rparr>" using s(2) by (simp add: on_cm_def)
  then show "fresh s'" using assms(1) [OF _ _ f] s(1) by (simp add: fresh_def)
qed

lemma SetAllNodeRole_fresh:
  assumes "cm_GetNodes c = []" "tp_list (cm_topo c) = []" "SetAllNodeRole api cn c = (d, e)"
  shows "d = c"
  using assms by (auto simp: SetAllNodeRole_def assignMastersAndSlaves_def verifyNodeTypeSet_def split: if_splits)

lemma db_exec_cm: "(\<And>d. os_cm (f d) = os_cm d) \<Longrightarrow> os_cm (fst (db_exec f s)) = os_cm s"
  by (auto simp: db_exec_def split: list.split option.split)

lemma store_op_cm:
  "os_cm (fst (UpsertContainer r s)) = os_cm s" "os_cm (fst (UpsertCluster q s)) = os_cm s"
  "os_cm (fst (LogOperation a b c d s)) = os_cm s" "os_cm (fst (DeletePipeline n s)) = os_cm s"
  by (auto simp: UpsertContainer_def UpsertCluster_def LogOperation_def DeletePipeline_def upsert_container_def
      upsert_cluster_def Let_def intro!: db_exec_cm)

lemma OpenStore_cm: "os_cm (fst (OpenStore s)) = os_cm s"
proof -
  have x: "os_cm u = os_cm v" if "db_exec id v = (u, e) \<or> db_exec create_tables v = (u, e) \<or> db_exec add_hostname_column v = (u, e)" for u v e
    using that db_exec_cm [of id v] db_exec_cm [of create_tables v] db_exec_cm [of add_hostname_column v]
    by (auto simp: create_tables_def add_hostname_column_def)
  have q: "os_cm u = os_cm v" if "db_query db_has_hostname v = (u, r)" for u v r
    using that x [of v u] by (auto simp: db_query_def split: prod.splits option.splits)
  have m: "os_cm (fst (migrate v)) = os_cm v" for v
  proof -
    obtain v1 e1 where 1: "db_exec create_tables v = (v1, e1)" by fastforce
    obtain v2 r where 2: "db_query db_has_hostname v1 = (v2, r)" by fastforce
    obtain v3 e3 where 3: "db_exec add_hostname_column v2 = (v3, e3)" by fastforce
    show ?thesis using x [of v v1 e1] x [of v2 v3 e3] q [OF 2] 1 2 3
      by (simp add: migrate_def split: option.split sum.split bool.split)
  qed
  obtain t e where o: "db_exec id s = (t, e)" by fastforce
  obtain t1 e1 where m1: "migrate t = (t1, e1)" by fastforce
  show ?thesis using x [of s t e] o m [of t] m1 by (simp add: OpenStore_def split: option.split)
qed

lemma upsert_nodes_cm: "os_cm (upsert_nodes cn ns s) = os_cm s"
  by (induction ns arbitrary: s) (simp_all add: upsert_nodes_def store_op_cm)

lemma persist_step_cm: "persist_step cfg b n cn r o1 d s = Some (t, e) \<Longrightarrow> os_cm t = os_cm s"
  using OpenStore_cm [of s]
  by (auto simp: persist_step_def Let_def store_op_cm upsert_nodes_cm split: if_splits prod.splits option.splits)

lemma create_steps_fresh:
  assumes "st \<in> set (create_steps api cfg b n k cn)" "st_Name st \<notin> {''validate'', ''create-containers''}" "if_running fresh u"
  shows "if_running fresh (fst (st_Do st c u))"
proof -
  have 1: "if_running fresh (fst (in_process (on_cm (meet_step api cn x y)) u))" for x y
    by (rule on_cm_fresh [OF _ assms(3)]) (auto simp: meet_step_def findClusterNode_def)
  have 2: "if_running fresh (fst (in_process (on_cm (topology_step api cn x)) u))" for x
    by (rule on_cm_fresh [OF _ assms(3)]) (auto simp: topology_step_def findClusterNode_def)
  have 3: "if_running fresh (fst (in_process (on_cm (SetAllNodeRole (oa_redis api) cn)) u))"
    by (rule on_cm_fresh [OF _ assms(3)]) (use SetAllNodeRole_fresh in blast)
  have 4: "if_running fresh (fst (in_process (on_cm (AllocateSlots (oa_redis api) cn)) u))"
    by (rule on_cm_fresh [OF _ assms(3)]) (auto simp: AllocateSlots_def)
  have 5: "if_running fresh (fst (in_process (on_cm (create_config api cfg cn)) u))"
    by (rule on_cm_fresh [OF _ assms(3)]) (auto simp: create_config_def Let_def split: prod.splits option.splits)
  have 6: "if_running fresh (fst (in_process (persist_step cfg b x cn r y d) u))" for x r y d
    by (rule in_process_if_running [OF assms(3)]) (use persist_step_cm in \<open>metis fresh_def\<close>)
  have 7: "if_running fresh (fst (in_process (on_cm (print_info api)) u))"
    by (rule on_cm_fresh [OF _ assms(3)]) (auto simp: print_info_def PrintClusterNodesInfo_def)
  show ?thesis
    using assms(1,2) unfolding create_steps_def list.set insert_iff
    by (elim disjE) (simp_all add: 1 2 3 4 5 6 7 del: insert_iff)
qed

lemma print_info_fresh:
  assumes "fresh s" "run_loop ctx i [process_step ''print-info'' 0 (on_cm (print_info api)) None] p (Running s) = (p', w, None)"
    and "''print-info'' \<notin> pl_Completed p" "store_or_none (pl_Persist p)"
  shows False
proof -
  obtain t where t: "persist_call p (\<lambda>ps n. ps_Start ps n ''print-info'') (Running s) = Running t" "same_data s t"
    using persist_call_Running(3) [OF assms(4)] by blast
  then have "on_cm (print_info api) t = Some (t, Some (ErrorfW ''no nodes available'' ErrNoNodesAvailable))"
    using assms(1) by (simp add: on_cm_def print_info_def PrintClusterNodesInfo_def fresh_def same_data_def)
  then have "executeStep ctx (process_step ''print-info'' 0 (on_cm (print_info api)) None) (Running t)
      = (Running t, Some (ErrorfW ''after attempts'' (ErrorfW ''no nodes available'' ErrNoNodesAvailable)))"
    by (simp add: executeStep_def in_process_def)
  then show False using assms(2,3) t(1) by (simp add: Let_def split: prod.splits)
qed

lemma resumed_run_fails:
  assumes "fresh s" "run_loop Background 0 (create_steps api cfg b n k cn) p (Running s) = (p', Running s', None)"
    and "store_or_none (pl_Persist p)" "{''validate'', ''create-containers''} \<subseteq> pl_Completed p" "''print-info'' \<notin> pl_Completed p"
  shows False
proof -
  let ?q = "process_step ''print-info'' 0 (on_cm (print_info api)) None"
  obtain xs where xs: "create_steps api cfg b n k cn = xs @ [?q]" "?q \<notin> set xs" "''print-info'' \<notin> st_Name ` set xs"
    by (rule that [of "butlast (create_steps api cfg b n k cn)"]) (auto simp: create_steps_def process_step_def)
  have shape: "\<forall>st \<in> set (create_steps api cfg b n k cn). 0 \<le> st_Retry st \<and> (\<exists>f. st_Do st = (\<lambda>c. in_process f))"
    by (auto simp: create_steps_def)
  obtain p1 w1 where r1: "run_loop Background 0 xs p (Running s) = (p1, w1, None)"
    and r2: "run_loop Background (0 + length xs) [?q] p1 w1 = (p', Running s', None)"
    using assms(2) unfolding xs run_loop_append by (auto simp del: run_loop.simps split: prod.splits option.splits)
  have sp1: "store_or_none (pl_Persist p1)" using run_loop_frame [OF r1] assms(3) by simp
  obtain s1 where s1: "w1 = Running s1" by (rule run_loop_success_Running [OF r2 sp1]) auto
  have "\<forall>st \<in> set xs. st_Name st \<in> {''validate'', ''create-containers''} \<or> (\<forall>c u. if_running fresh u \<longrightarrow> if_running fresh (fst (st_Do st c u)))"
    using create_steps_fresh [of _ api cfg b n k cn] xs(1) by fastforce
  from run_loop_if_running [OF r1 assms(3) _ store_keeps_fresh this assms(4)] have "fresh s1" using assms(1) s1 by simp
  moreover have "''print-info'' \<notin> pl_Completed p1" using run_loop_ok_completed [OF r1] assms(5) xs(3) by auto
  ultimately show False using print_info_fresh r2 sp1 s1 by blast
qed

text \<open>C30: a create that was interrupted after its containers were started cannot be resumed. The next process skips the
  steps that fill the node manager, so it never reports success; and if it returns, its last commands are
  those that remove the containers.\<close>

theorem resumed_create_fails:
  assumes "rt_Backend cfg = ''podman''" and "up_to_date s" and "no_faults s" and "rt_DBPath cfg \<noteq> []"
    and "{''validate'', ''create-containers''} \<subseteq> completed_steps s (''create-cluster-'' @ cn)"
    and "''print-info'' \<notin> completed_steps s (''create-cluster-'' @ cn)"
    and "CreateClusterAction api cfg invalidator n k cn s = (Running s', e)"
  shows "e \<noteq> None \<and> (\<exists>w. os_world s' = fst (DeleteResources (oa_podman api) cn w))"
  supply run_loop.simps [simp del]
proof -
  obtain p s1 b where run: "CreateClusterAction api cfg invalidator n k cn s
      = (case run_loop Background 0 (create_steps api cfg b n k cn) p (Running s1) of
           (p', w', e) \<Rightarrow> (w', map_option (ErrorfW ''create cluster'') e))"
    and d: "same_data (new_manager invalidator k (NewPodmanNodeManager cfg) s) s1" and sp: "store_or_none (pl_Persist p)"
    and st: "pl_Steps p = create_steps api cfg b n k cn"
    and C: "no_faults s \<and> rt_DBPath cfg \<noteq> [] \<longrightarrow>
       b \<and> pl_Persist p = Some (process_persister store_persister) \<and> pl_Completed p = completed_steps s (''create-cluster-'' @ cn)"
    by (rule create_run [OF assms(1,2)])
  have fr: "fresh s1" using d by (simp add: fresh_def same_data_def NewPodmanNodeManager_def pm_GetNodes_def getNodes_def)
  obtain p' r where r: "run_loop Background 0 (create_steps api cfg b n k cn) p (Running s1) = (p', Running s', r)"
    and e: "e = map_option (ErrorfW ''create cluster'') r"
    using assms(7) run by (auto split: prod.splits)
  have done': "{''validate'', ''create-containers''} \<subseteq> pl_Completed p" "''print-info'' \<notin> pl_Completed p"
    using C assms(3-6) by auto
  obtain err where err: "r = Some err" using resumed_run_fails [OF fr _ sp done'] r by (cases r) blast+
  let ?v = "process_step ''validate'' 0 (on_cm (create_validate api n k cn)) None"
  let ?c = "process_step ''create-containers'' 1 (create_containers api cn (n * k)) (Some (delete_resources api cn))"
  obtain rest where steps: "create_steps api cfg b n k cn = [?v] @ ?c # rest" by (simp add: create_steps_def)
  have "run_loop Background (0 + length [?v, ?c]) rest p (Running s1) = (p', Running s', Some err)"
    using r done' run_loop_skip_prefix [of "[?v, ?c]" p Background 0 rest "Running s1"] unfolding steps err by simp
  then have fin: "run_loop Background (Suc (length [?v])) rest p (Running s1) = (p', Running s', Some err)" by simp
  have "pl_Steps p = [?v] @ ?c # rest" using st steps by simp
  from failure_deletes [OF fin this] show ?thesis using sp e err by (simp add: process_step_def)
qed

section \<open>An example environment\<close>

text \<open>
  The external state says whether the containers of the cluster exist. Every container is ready
  at once, a removal removes them, and nodes cannot meet.
\<close>

definition shelf :: "bool podman_api" where
  "shelf = \<lparr>pa_exec = (\<lambda>args w.
       if hd args = ''ps'' then (w, Inr (if w then ''c1-redis-1'' else []))
       else if hd args = ''rm'' then (False, Inr [])
       else if hd args = ''run'' then (True, Inr ''0123456789abcdef'')
       else if hd args = ''inspect'' then (w, Inr (if args ! 2 = ''{{.Id}}'' then ''0123456789abcdef'' else ''10.0.0.2''))
       else (w, Inr ''0.0.0.0:4321'')),
     pa_mkdir = (\<lambda>p w. (w, None)), pa_ctx = (\<lambda>w. None), pa_now = (\<lambda>w. 0), pa_sleep = (\<lambda>d w. w)\<rparr>"

definition shelf_redis :: "bool redis_api" where
  "shelf_redis = \<lparr>ra_podman = shelf, ra_ClusterNodes = (\<lambda>cli w. (w, Inr [])),
     ra_ClusterMeet = (\<lambda>cli h p w. (w, Some (Errorf ''refused''))), ra_ClusterReplicate = (\<lambda>cli i w. (w, None)),
     ra_ClusterAddSlots = (\<lambda>cli xs w. (w, None)), ra_ClusterForget = (\<lambda>cli i w. (w, None)),
     ra_ClusterGetKeysInSlot = (\<lambda>cli s k w. (w, [])), ra_MemoryUsage = (\<lambda>cli k w. (w, Inr 0)),
     ra_Exists = (\<lambda>cli k w. (w, Inr 0)), ra_Del = (\<lambda>cli k w. (w, None)), ra_Do = (\<lambda>cli xs w. (w, Inr [])),
     ra_InvalidateSlots = (\<lambda>a b w. w), ra_sleep = (\<lambda>d w. w), ra_range = (\<lambda>ks w. ks)\<rparr>"

definition shelf_os :: "bool os_api" where
  "shelf_os = \<lparr>oa_redis = shelf_redis, oa_scheduler = (\<lambda>s. (0, 0)), oa_IsNotExist = (\<lambda>f w. True),
     oa_Remove = (\<lambda>f w. (w, None)), oa_Create = (\<lambda>f w. (w, None)), oa_Write = (\<lambda>f x w. (w, None)),
     oa_ReadFile = (\<lambda>f w. Inr []), oa_ReadDir = (\<lambda>f w. Inl (Errorf ''not found'')), oa_Marshal = (\<lambda>v. Inr []),
     oa_Unmarshal = (\<lambda>x. Inr \<lparr>rcc_NodesPerShard = 1, rcc_Port = 6379\<rparr>)\<rparr>"

definition shelf_cfg :: "string \<Rightarrow> RuntimeConfig" where
  "shelf_cfg db = \<lparr>rt_ProjectRoot = ''/r'', rt_RedisHostConfigPath = ''/r/conf'', rt_RedisConfigPath = ''/etc/redis'',
     rt_RedisHostDataPath = ''/r/data'', rt_RedisConfigDataPath = ''/data'', rt_RuntimeStateDir = ''/r/state'',
     rt_ConfigSaveFileName = ''/r/state/conf.yaml'', rt_Backend = ''podman'', rt_DBPath = db, rt_ContainerdSocket = [],
     rt_ImageName = ''redis'', rt_RedisContainerPort = 6379, rt_Cache = None, rt_DNS = None\<rparr>"

text \<open>A database with one cluster and the given completed steps of one pipeline.\<close>

definition shelf_state :: "string \<Rightarrow> string list \<Rightarrow> bool \<Rightarrow> bool ops_state" where
  "shelf_state pname steps w =
     \<lparr>db_clusters = [\<lparr>cl_id = 1, cl_rec = cluster_record (shelf_cfg ''db'') ''c1'' 1 2\<rparr>], db_containers = [], db_operations = [],
      db_runs = map (\<lambda>st. \<lparr>pr_id = 1, pr_pipeline_name = pname, pr_step_name = st, pr_status = RunCompleted,
        pr_started_at = [], pr_finished_at = None\<rparr>) steps,
      db_cluster_seq = 2, db_container_seq = 1, db_operation_seq = 1, db_run_seq = 2, db_created = True,
      db_has_hostname = True, db_faults = [], db_now = ''now'',
      os_cm = NewClusterManager 2 (NewPodmanNodeManager (shelf_cfg ''db'')) w\<rparr>"

lemma shelf_state_facts [simp]:
  "up_to_date (shelf_state n xs w)" "no_faults (shelf_state n xs w)" "os_world (shelf_state n xs w) = w"
  "completed_steps (shelf_state n xs w) m = (if m = n then set xs else {})" "db_containers (shelf_state n xs w) = []"
  "db_clusters (shelf_state n xs w) = [\<lparr>cl_id = 1, cl_rec = cluster_record (shelf_cfg ''db'') ''c1'' 1 2\<rparr>]"
  by (auto simp: shelf_state_def up_to_date_def no_faults_def NewClusterManager_def completed_steps_def run_key_def)

lemma shelf_cfg_facts [simp]: "rt_Backend (shelf_cfg d) = ''podman''" "rt_DBPath (shelf_cfg d) = d"
  by (simp_all add: shelf_cfg_def)

lemma shelf_texts:
  "strings_TrimSpace ''10.0.0.2'' = ''10.0.0.2''" "strings_TrimSpace ''0123456789abcdef'' = ''0123456789abcdef''"
  "strings_TrimSpace ''c1-redis-1'' = ''c1-redis-1''" "parse_port_output ''0.0.0.0:4321'' = Inr 4321"
proof -
  show "strings_TrimSpace ''10.0.0.2'' = ''10.0.0.2''" "strings_TrimSpace ''0123456789abcdef'' = ''0123456789abcdef''"
    "strings_TrimSpace ''c1-redis-1'' = ''c1-redis-1''"
    by (simp_all add: strings_TrimSpace_def is_space_def)
  have "strings_TrimSpace ''0.0.0.0:4321'' = ''0.0.0.0:4321''" "strings_TrimSpace ''4321'' = ''4321''"
    by (simp_all add: strings_TrimSpace_def is_space_def)
  then show "parse_port_output ''0.0.0.0:4321'' = Inr 4321"
    by (simp add: parse_port_output_def strconv_ParseUint_def parse_digits_def is_digit_def digits_val_def digit_val_def)
qed

lemma shelf_api:
  "pa_now shelf w = 0" "pa_ctx shelf w = None" "pa_mkdir shelf f w = (w, None)" "pa_exec shelf (run_args cf cn i) w = (True, Inr ''0123456789abcdef'')"
  "pa_exec shelf (''rm'' # xs) w = (False, Inr [])" "pa_exec shelf (''ps'' # xs) w = (w, Inr (if w then ''c1-redis-1'' else []))"
  by (simp_all add: shelf_def run_args_def Let_def)

lemma shelf_queries:
  "getContainerIP shelf x w = (w, Inr ''10.0.0.2'')" "getContainerHostPort shelf x p w = (w, Inr 4321)"
  "getContainerFullID shelf x w = (w, Inr ''0123456789abcdef'')"
  "wait_ready shelf x p 120 w = Some (w, Inr (''10.0.0.2'', 4321))"
proof -
  show q: "getContainerIP shelf x w = (w, Inr ''10.0.0.2'')" "getContainerHostPort shelf x p w = (w, Inr 4321)"
    "getContainerFullID shelf x w = (w, Inr ''0123456789abcdef'')" for x w p
    by (simp_all add: getContainerIP_def getContainerHostPort_def getContainerFullID_def shelf_def shelf_texts)
  show "wait_ready shelf x p 120 w = Some (w, Inr (''10.0.0.2'', 4321))"
    by (subst wait_ready.simps) (simp add: q shelf_api)
qed

lemma shelf_listed: "listed_names ''c1-redis-1'' = [''c1-redis-1'']"
  by (simp add: listed_names_def shelf_texts)

lemma shelf_delete: "DeleteResources shelf cn w = (False, None)"
proof -
  have "fold (\<lambda>n u. False) xs False = False" for xs :: "string list" by (induction xs) simp_all
  then show ?thesis by (cases w) (simp_all add: DeleteResources_def shelf_api shelf_listed)
qed

definition shelf_node :: RuntimeNode where
  "shelf_node = \<lparr>rn_HostIP = ''127.0.0.1'', rn_HostPort = 4321, rn_ConIp = ''10.0.0.2'', rn_ConPort = 6379, rn_Hostname = [],
     rn_Name = ''c1-redis-1'', rn_ID = ''0123456789ab'', rn_ClusterName = ''c1'',
     rn_Address = \<lparr>na_ClusterAddr = [], na_ClientAddr = []\<rparr>\<rparr>"

abbreviation shelf_found :: "string \<Rightarrow> PodmanNodeManager" where
  "shelf_found d \<equiv> NewPodmanNodeManager (shelf_cfg d)\<lparr>pm_base := addNode shelf_node (pm_base (NewPodmanNodeManager (shelf_cfg d)))\<rparr>"

text \<open>The node found when the containers exist, and none when they do not.\<close>

lemma shelf_list: "ListPodsByCluster shelf ''c1'' (NewPodmanNodeManager (shelf_cfg d), True) = ((shelf_found d, True), None)"
proof -
  have "\<not> DNSEnabled (shelf_cfg d)" "rt_RedisContainerPort (shelf_cfg d) = 6379" by (simp_all add: DNSEnabled_def shelf_cfg_def)
  then show ?thesis
    by (simp add: ListPodsByCluster_def NewPodmanNodeManager_def resetMaps_def shelf_api shelf_listed list_container_def
        shelf_queries new_node_def shelf_node_def)
qed

lemma shelf_empty: "ListPodsByCluster shelf ''c1'' (NewPodmanNodeManager cfg, False) = ((NewPodmanNodeManager cfg, False), None)"
  by (simp add: ListPodsByCluster_def NewPodmanNodeManager_def resetMaps_def shelf_api listed_names_def strings_TrimSpace_def)

theorem create_existing_rejected_witness:
  "\<exists>s' e. CreateClusterAction shelf_os (shelf_cfg ''db'') False 1 2 ''c1'' (shelf_state [] [] True) = (Running s', Some e)
     \<and> errors_Is e ErrClusterExists \<and> os_world s'"
  using create_existing_rejected [of "shelf_cfg ''db''" 1 2 "''c1''" "shelf_state [] [] True" shelf_os _ True False] shelf_list [of "''db''"]
  by (auto simp: shelf_os_def shelf_redis_def pm_HasCluster_def hasCluster_def shelf_node_def)

text \<open>Runs without a database whose first steps have known results.\<close>

lemma run_loop_no_store:
  assumes "pl_Persist p = None" "st_Name step \<notin> pl_Completed p"
  shows "run_loop ctx i (step # rest) p w =
    (case executeStep ctx step w of
       (w2, Some err) \<Rightarrow> (case rollback ctx i p w2 of (p', w4) \<Rightarrow> (p', w4, Some (ErrorfW ''pipeline step'' err)))
     | (w2, None) \<Rightarrow> run_loop ctx (Suc i) rest (p\<lparr>pl_Completed := insert (st_Name step) (pl_Completed p)\<rparr>) w2)"
  using assms by (simp add: persist_call_def split: prod.split option.split)

lemma execute_ok:
  assumes "f s = Some (t, None)" "0 \<le> r"
  shows "executeStep ctx (process_step n r f u) (Running s) = (Running t, None)"
proof -
  obtain m where "nat (r + 1) = Suc m" using assms(2) by (cases "nat (r + 1)") auto
  then show ?thesis using assms(1) by (simp add: executeStep_def in_process_def)
qed

lemma execute_fails:
  assumes "f s = Some (t, Some err)" "\<forall>m. err \<noteq> Panic m"
  shows "executeStep ctx (process_step n 0 f u) (Running s) = (Running t, Some (ErrorfW ''after attempts'' err))"
  using in_process_error [of f, OF assms] by (simp add: executeStep_def)

lemma no_store_run:
  assumes "rt_DBPath cfg = []" "\<And>b. \<forall>st \<in> set (steps b). 0 \<le> st_Retry st"
  shows "(let (s1, persister) = open_persister cfg s; (w, e) = run_pipeline name persister (steps (\<not> Option.is_none persister)) s1
      in (w, map_option msg e)) = (case run_loop Background 0 (steps False)
        \<lparr>pl_Name = name, pl_Steps = steps False, pl_Completed = {}, pl_Persist = None\<rparr> (Running s) of
        (p', w', e) \<Rightarrow> (w', map_option msg e))"
  using assms(1) by (simp add: open_persister_def run_pipeline_def NewPipeline_def fold_AddStep [OF assms(2)] Run_def case_prod_beta)

text \<open>The step after the containers fails: they are removed.\<close>

lemma run_loop_meet_fails:
  assumes "pl_Persist p = None" "pl_Steps p = pre @ c # m # rest" "\<forall>st \<in> set pre. st_Undo st = None"
    and "c = process_step ''create-containers'' 1 f (Some (delete_resources api cn))" "m = process_step ''meet-nodes'' 0 (on_cm g) None"
    and "''create-containers'' \<notin> pl_Completed p" "''meet-nodes'' \<notin> pl_Completed p"
    and "f s = Some (t, None)" "g (os_cm t) = (d, Some err)" "\<forall>k. err \<noteq> Panic k"
  shows "\<exists>p' s' e. run_loop ctx (length pre) (c # m # rest) p (Running s) = (p', Running s', Some e)"
  supply run_loop.simps [simp del]
proof -
  have c: "executeStep ctx c (Running s) = (Running t, None)" unfolding assms(4) by (rule execute_ok) (simp_all add: assms(8))
  have m: "executeStep ctx m (Running t) = (Running (t\<lparr>os_cm := d\<rparr>), Some (ErrorfW ''after attempts'' err))"
    unfolding assms(5) by (rule execute_fails) (simp_all add: on_cm_def assms(9,10))
  have n: "st_Name c = ''create-containers''" "st_Name m = ''meet-nodes''"
    "st_Undo c = Some (\<lambda>ctx. in_process (delete_resources api cn))" by (simp_all add: assms(4,5) process_step_def)
  let ?p = "p\<lparr>pl_Completed := insert ''create-containers'' (pl_Completed p)\<rparr>"
  have "\<exists>p'. rollback ctx (Suc (length pre)) ?p (Running (t\<lparr>os_cm := d\<rparr>)) = (p', fst (in_process (delete_resources api cn) (Running (t\<lparr>os_cm := d\<rparr>))))"
    using rollback_steps_skip [of "rev pre"] assms(1,2,3) n(3) by (simp add: rollback_def persist_call_def Let_def)
  then show ?thesis
    using assms(1,6,7) by (auto simp: run_loop_no_store n c m delete_resources_Running)
qed

lemma create_meet_fails:
  assumes "rt_Backend cfg = ''podman''" "rt_DBPath cfg = []"
    and "create_validate api n k cn (os_cm (new_manager b k (NewPodmanNodeManager cfg) s)) = (c1, None)"
    and "CreatePodsForCluster (oa_redis api) cn (n * k) c1 = Some (c2, None)"
    and "meet_step api cn ''no node found for cluster'' ''create redis client fail'' c2 = (c3, Some err)" "\<forall>m. err \<noteq> Panic m"
  shows "\<exists>s' e. CreateClusterAction api cfg b n k cn s = (Running s', Some e)"
  supply run_loop.simps [simp del]
proof -
  let ?s = "new_manager b k (NewPodmanNodeManager cfg) s" and ?steps = "create_steps api cfg False n k cn"
  let ?v = "process_step ''validate'' 0 (on_cm (create_validate api n k cn)) None"
  let ?c = "process_step ''create-containers'' 1 (create_containers api cn (n * k)) (Some (delete_resources api cn))"
  let ?m = "process_step ''meet-nodes'' 0 (on_cm (meet_step api cn ''no node found for cluster'' ''create redis client fail'')) None"
  let ?p = "\<lparr>pl_Name = ''create-cluster-'' @ cn, pl_Steps = ?steps, pl_Completed = {}, pl_Persist = None\<rparr> :: 'a ops_state proc Pipeline"
  have v: "executeStep Background ?v (Running ?s) = (Running (?s\<lparr>os_cm := c1\<rparr>), None)"
    by (rule execute_ok) (simp_all add: on_cm_def assms(3))
  obtain rest where steps: "?steps = [?v] @ ?c # ?m # rest" by (simp add: create_steps_def)
  have "run_loop Background 0 ?steps ?p (Running ?s)
      = run_loop Background (length [?v]) (?c # ?m # rest) (?p\<lparr>pl_Completed := {''validate''}\<rparr>) (Running (?s\<lparr>os_cm := c1\<rparr>))"
    unfolding steps using run_loop_no_store [of ?p ?v Background 0 "?c # ?m # rest" "Running ?s", unfolded steps v] by simp
  moreover have "\<exists>p' s' e. run_loop Background (length [?v]) (?c # ?m # rest) (?p\<lparr>pl_Completed := {''validate''}\<rparr>) (Running (?s\<lparr>os_cm := c1\<rparr>)) = (p', Running s', Some e)"
    by (rule run_loop_meet_fails [where f = "create_containers api cn (n * k)" and d = c3 and t = "?s\<lparr>os_cm := c2\<rparr>", OF _ _ _ refl refl])
      (use steps assms(4,5,6) in \<open>simp_all add: create_containers_def process_step_def [of "''validate''"]\<close>)
  ultimately show ?thesis
    using no_store_run [where steps = "\<lambda>b. create_steps api cfg b n k cn" and s = ?s and name = "''create-cluster-'' @ cn"
        and msg = "ErrorfW ''create cluster''", OF assms(2) steps_retry(1)] assms(1)
    by (auto simp: CreateClusterAction_def NewNodeManager_def)
qed

lemma scale_meet_fails:
  assumes "rt_Backend cfg = ''podman''" "rt_DBPath cfg = []" "cfg\<lparr>rt_RedisContainerPort := rcc_Port conf\<rparr> = cfg"
    and "ReadFromYAMLFile api (ClusterRuntimeConfigPath cfg cn) (os_world s) = Inr conf" "k = EffectiveNodesPerShard conf"
    and "scale_validate api n cn (os_cm (new_manager b k (NewPodmanNodeManager cfg) s)) = (c1, None)"
    and "scale_sync api cn c1 = (c2, None)" "CreatePodsForCluster (oa_redis api) cn (n * k) c2 = Some (c3, None)"
    and "meet_step api cn ''no login node for meet'' ''redis client'' c3 = (c4, Some err)" "\<forall>m. err \<noteq> Panic m"
  shows "\<exists>s' e. ScaleClusterAction api cfg b n cn s = (Running s', Some e)"
  supply run_loop.simps [simp del]
proof -
  let ?s = "new_manager b k (NewPodmanNodeManager cfg) s" and ?steps = "scale_steps api cfg False n k cn"
  let ?v = "process_step ''validate'' 0 (on_cm (scale_validate api n cn)) None"
  let ?y = "process_step ''sync-state'' 0 (on_cm (scale_sync api cn)) None"
  let ?c = "process_step ''create-containers'' 1 (create_containers api cn (n * k)) (Some (delete_resources api cn))"
  let ?m = "process_step ''meet-nodes'' 0 (on_cm (meet_step api cn ''no login node for meet'' ''redis client'')) None"
  let ?p = "\<lparr>pl_Name = ''scale-cluster-'' @ cn, pl_Steps = ?steps, pl_Completed = {}, pl_Persist = None\<rparr> :: 'a ops_state proc Pipeline"
  have v: "executeStep Background ?v (Running ?s) = (Running (?s\<lparr>os_cm := c1\<rparr>), None)"
    by (rule execute_ok) (simp_all add: on_cm_def assms(6))
  have y: "executeStep Background ?y (Running (?s\<lparr>os_cm := c1\<rparr>)) = (Running (?s\<lparr>os_cm := c2\<rparr>), None)"
    by (rule execute_ok) (simp_all add: on_cm_def assms(7))
  obtain rest where steps: "?steps = [?v, ?y] @ ?c # ?m # rest" by (simp add: scale_steps_def)
  have "run_loop Background 0 ?steps ?p (Running ?s)
      = run_loop Background (length [?v, ?y]) (?c # ?m # rest) (?p\<lparr>pl_Completed := {''sync-state'', ''validate''}\<rparr>) (Running (?s\<lparr>os_cm := c2\<rparr>))"
    unfolding steps using run_loop_no_store [of ?p ?v Background 0 "?y # ?c # ?m # rest" "Running ?s", unfolded steps v]
      run_loop_no_store [of "?p\<lparr>pl_Completed := {''validate''}\<rparr>" ?y Background 1 "?c # ?m # rest" "Running (?s\<lparr>os_cm := c1\<rparr>)", unfolded steps y] by simp
  moreover have "\<exists>p' s' e. run_loop Background (length [?v, ?y]) (?c # ?m # rest) (?p\<lparr>pl_Completed := {''sync-state'', ''validate''}\<rparr>)
      (Running (?s\<lparr>os_cm := c2\<rparr>)) = (p', Running s', Some e)"
    by (rule run_loop_meet_fails [where f = "create_containers api cn (n * k)" and d = c4 and t = "?s\<lparr>os_cm := c3\<rparr>", OF _ _ _ refl refl])
      (use steps assms(8,9,10) in \<open>simp_all add: create_containers_def process_step_def [of "''validate''"] process_step_def [of "''sync-state''"]\<close>)
  ultimately show ?thesis
    using no_store_run [where steps = "\<lambda>b. scale_steps api cfg b n k cn" and s = ?s and name = "''scale-cluster-'' @ cn"
        and msg = "ErrorfW ''scale cluster''", OF assms(2) steps_retry(2)] assms(1,3,4,5)
    by (auto simp: ScaleClusterAction_def NewNodeManager_def NewPodmanNodeManager_def)
qed

text \<open>Creating containers in the example and meeting their nodes.\<close>

definition shelf_good :: "RuntimeNode \<Rightarrow> bool" where
  "shelf_good n = (rn_ClusterName n = ''c1'' \<and> ClusterMeetAddr n = ''10.0.0.2:6379'')"

lemma shelf_pod:
  assumes "pm_config nm = shelf_cfg d"
  obtains nm' n where "create_pod shelf ''c1'' start i (nm, w) = Some ((nm', True), None)" "pm_config nm' = shelf_cfg d"
    "pm_GetNodes nm' = pm_GetNodes nm @ [n]" "shelf_good n"
proof -
  let ?n = "new_node (shelf_cfg d) ''c1'' i ''0123456789abcdef'' ''10.0.0.2'' 4321"
  have dns: "\<not> DNSEnabled (shelf_cfg d)" "rt_RedisContainerPort (shelf_cfg d) = 6379" by (simp_all add: DNSEnabled_def shelf_cfg_def)
  have u: "unat (6379 :: 16 word) = 6379" by simp
  show thesis
  proof (rule that)
    show "create_pod shelf ''c1'' start i (nm, w) = Some ((AddRuntimeNode ?n nm, True), None)"
      using assms by (simp add: create_pod_def shelf_api shelf_texts shelf_queries)
    show "pm_config (AddRuntimeNode ?n nm) = shelf_cfg d" using assms by (simp add: AddRuntimeNode_def Let_def)
    let ?m = "?n\<lparr>rn_Address := \<lparr>na_ClusterAddr = host_port (rn_ConIp ?n) (rn_ConPort ?n),
       na_ClientAddr = host_port (rn_HostIP ?n) (rn_HostPort ?n)\<rparr>\<rparr>"
    show "pm_GetNodes (AddRuntimeNode ?n nm) = pm_GetNodes nm @ [?m]"
      by (simp add: AddRuntimeNode_def Let_def pm_GetNodes_def getNodes_def new_node_def)
    show "shelf_good ?m"
      using dns by (simp add: shelf_good_def new_node_def ClusterMeetAddr_def host_port_def itoa_nat.simps char_of_def bit_0)
  qed
qed

lemma shelf_meet:
  assumes "pm_GetNodes (cm_nodeManager c) = n # ns" "shelf_good n" "\<not> ms_met (cm_meet c) (rn_ConIp n)"
  shows "\<exists>d. meet_step shelf_os ''c1'' x y c = (d, Some (ErrorfV ''could not meet node'' (Errorf ''refused'')))"
proof -
  have "ParseIPPort ''10.0.0.2:6379'' = (''10.0.0.2'', ''6379'')" by (simp add: ParseIPPort_def)
  moreover have "StringToUint16 ''6379'' = Inr 6379"
    by (simp add: StringToUint16_def strconv_Atoi_def parse_digits_def is_digit_def digits_val_def digit_val_def)
  ultimately show ?thesis
    using assms
    by (simp add: meet_step_def findClusterNode_def CreateRedisClient_def MeetNodes_def sendMeetCommands_def shelf_good_def
        shelf_os_def shelf_redis_def)
qed

theorem failed_create_removes_containers_witness:
  "\<exists>s' e. CreateClusterAction shelf_os (shelf_cfg []) False 1 2 ''c1'' (shelf_state [] [] False) = (Running s', Some e) \<and> \<not> os_world s'"
proof -
  let ?s = "shelf_state [] [] False" and ?nm = "NewPodmanNodeManager (shelf_cfg [])"
  let ?c = "os_cm (new_manager False 2 ?nm ?s)"
  have nm: "pm_config ?nm = shelf_cfg []" by (simp add: NewPodmanNodeManager_def)
  have v: "create_validate shelf_os 1 2 ''c1'' ?c = (?c, None)"
    using shelf_empty [of "shelf_cfg []"]
    by (simp add: create_validate_def on_pods_def shelf_os_def shelf_redis_def new_manager_def NewClusterManager_def pm_HasCluster_def
        hasCluster_def NewPodmanNodeManager_def)
  obtain nm1 n1 where 1: "create_pod shelf ''c1'' 1 1 (?nm, False) = Some ((nm1, True), None)" "pm_config nm1 = shelf_cfg []"
    "pm_GetNodes nm1 = pm_GetNodes ?nm @ [n1]" "shelf_good n1" by (rule shelf_pod [OF nm])
  obtain nm2 n2 where 2: "create_pod shelf ''c1'' 1 2 (nm1, True) = Some ((nm2, True), None)"
    "pm_GetNodes nm2 = pm_GetNodes nm1 @ [n2]" by (rule shelf_pod [OF 1(2)])
  let ?c2 = "?c\<lparr>cm_nodeManager := nm2, cm_world := True\<rparr>"
  have "[1..2 :: int] = [1, 2]" by (simp add: upto.simps)
  then have p: "CreatePodsForCluster (oa_redis shelf_os) ''c1'' (1 * 2) ?c = Some (?c2, None)"
    using 1(1) 2(1) by (simp add: CreatePodsForCluster_def CreatePods_def shelf_os_def shelf_redis_def NewPodmanNodeManager_def)
  have "pm_GetNodes (cm_nodeManager ?c2) = n1 # [n2]"
    using 1(3) 2(2) by (simp add: NewPodmanNodeManager_def pm_GetNodes_def getNodes_def)
  moreover have "\<not> ms_met (cm_meet ?c2) (rn_ConIp n1)" by (simp add: new_manager_def NewClusterManager_def newMeetState_def)
  ultimately obtain d where m: "meet_step shelf_os ''c1'' ''no node found for cluster'' ''create redis client fail'' ?c2
      = (d, Some (ErrorfV ''could not meet node'' (Errorf ''refused'')))" using shelf_meet 1(4) by blast
  obtain s' e where r: "CreateClusterAction shelf_os (shelf_cfg []) False 1 2 ''c1'' ?s = (Running s', Some e)"
    using create_meet_fails [OF _ _ v p m] by auto
  show ?thesis using failed_create_removes_containers [OF _ _ _ v p r] r shelf_delete by (simp add: shelf_os_def shelf_redis_def)
qed

lemma shelf_reads:
  assumes "pm_GetNodes (cm_nodeManager c) \<noteq> []"
  shows "GetClusterNodes shelf_redis n ''c1'' c = (c, Inr [])"
proof -
  have "ParseClusterNodeLines [[]] f = ([], [])" for f by (simp add: parse_node_line_def strings_HasPrefix_def)
  then show ?thesis
    using assms by (simp add: GetClusterNodes_def CreateRedisClient_def ParseRedisClusterNodes_def shelf_redis_def)
qed

lemma shelf_sync:
  assumes "pm_GetNodes (cm_nodeManager c) = [n]" "rn_ClusterName n = ''c1''" "tp_list (cm_topo c) = []" "tp_empty (cm_topo c) = []"
  shows "\<exists>d. scale_sync shelf_os ''c1'' c = (d, None) \<and> cm_nodeManager d = cm_nodeManager c \<and> cm_meet d = cm_meet c"
proof -
  have r: "GetClusterNodes shelf_redis m ''c1'' d = (d, Inr [])" if "cm_nodeManager d = cm_nodeManager c" for d m
    by (rule shelf_reads) (simp add: that assms(1))
  show ?thesis
    using assms
    by (simp add: scale_sync_def findClusterNode_def shelf_os_def UpdateAfterMeet_def UpdateAfterSetNodeRole_def UpdateSlots_def r
        SortInfo_def Let_def sortClusterNodesByIP_def buildMasterSlaveTopology_def)
qed

theorem failed_scale_deletes_cluster_witness:
  "os_world (shelf_state [] [] True)
   \<and> (\<exists>s' e. ScaleClusterAction shelf_os (shelf_cfg []) False 1 ''c1'' (shelf_state [] [] True) = (Running s', Some e) \<and> \<not> os_world s')"
proof -
  let ?s = "shelf_state [] [] True" and ?conf = "\<lparr>rcc_NodesPerShard = 1, rcc_Port = 6379\<rparr> :: RedisClusterConfig"
  let ?cfg = "shelf_cfg []\<lparr>rt_RedisContainerPort := rcc_Port ?conf\<rparr>"
  have cfg: "?cfg = shelf_cfg []" by (simp add: shelf_cfg_def)
  have k: "EffectiveNodesPerShard ?conf = 1" by (simp add: EffectiveNodesPerShard_def)
  have y: "ReadFromYAMLFile shelf_os (ClusterRuntimeConfigPath (shelf_cfg []) ''c1'') (os_world ?s) = Inr ?conf"
    by (simp add: ReadFromYAMLFile_def shelf_os_def)
  let ?c = "os_cm (new_manager False (EffectiveNodesPerShard ?conf) (NewPodmanNodeManager (shelf_cfg [])) ?s)"
  let ?c1 = "?c\<lparr>cm_nodeManager := shelf_found [], cm_world := True\<rparr>"
  have v: "scale_validate shelf_os 1 ''c1'' ?c = (?c1, None)"
    using shelf_list [of "[]"]
    by (simp add: scale_validate_def on_pods_def shelf_os_def shelf_redis_def pm_GetNodeCount_def getNodeCount_def NewPodmanNodeManager_def)
  have nodes: "pm_GetNodes (shelf_found []) = [shelf_node]" "shelf_good shelf_node"
    by (simp_all add: pm_GetNodes_def getNodes_def NewPodmanNodeManager_def shelf_good_def shelf_node_def ClusterMeetAddr_def
        host_port_def itoa_nat.simps char_of_def bit_0)
  obtain c2 where z: "scale_sync shelf_os ''c1'' ?c1 = (c2, None)" and c2: "cm_nodeManager c2 = shelf_found []" "cm_meet c2 = cm_meet ?c1"
    using shelf_sync [of ?c1 shelf_node] nodes
    by (auto simp: shelf_node_def new_manager_def NewClusterManager_def newTopology_def)
  have nm: "pm_config (shelf_found []) = shelf_cfg []" by (simp add: NewPodmanNodeManager_def)
  obtain nm3 n3 where 3: "create_pod shelf ''c1'' 2 2 (shelf_found [], cm_world c2) = Some ((nm3, True), None)" 
    "pm_GetNodes nm3 = pm_GetNodes (shelf_found []) @ [n3]" by (rule shelf_pod [OF nm])
  let ?c3 = "c2\<lparr>cm_nodeManager := nm3, cm_world := True\<rparr>"
  have "bn_Num (pm_base (shelf_found [])) = 1" by (simp add: NewPodmanNodeManager_def)
  then have p: "CreatePodsForCluster (oa_redis shelf_os) ''c1'' (1 * EffectiveNodesPerShard ?conf) c2 = Some (?c3, None)"
    using 3(1) unfolding k by (simp add: CreatePodsForCluster_def CreatePods_def shelf_os_def shelf_redis_def c2(1))
  have "\<not> ms_met (cm_meet ?c3) (rn_ConIp shelf_node)" by (simp add: c2(2) new_manager_def NewClusterManager_def newMeetState_def)
  then obtain d where m: "meet_step shelf_os ''c1'' ''no login node for meet'' ''redis client'' ?c3
      = (d, Some (ErrorfV ''could not meet node'' (Errorf ''refused'')))" using shelf_meet [of ?c3 shelf_node "[n3]"] 3(2) nodes by auto
  obtain s' e where r: "ScaleClusterAction shelf_os (shelf_cfg []) False 1 ''c1'' ?s = (Running s', Some e)"
    using scale_meet_fails [OF _ _ cfg y refl v z p m] by auto
  have v': "scale_validate shelf_os 1 ''c1'' (os_cm (new_manager False (EffectiveNodesPerShard ?conf) (NewPodmanNodeManager ?cfg) ?s)) = (?c1, None)"
    unfolding cfg by (rule v)
  show ?thesis using failed_scale_deletes_cluster [OF _ _ _ y v' z p r] r shelf_delete by (simp add: shelf_os_def shelf_redis_def)
qed

text \<open>A deletion in the example succeeds whatever steps are marked.\<close>

lemma run_loop_succeeds:
  assumes "store_or_none (pl_Persist p)" "P s" "store_keeps P"
    and "\<forall>step \<in> set xs. 0 \<le> st_Retry step \<and> (\<forall>c t. P t \<longrightarrow> (\<exists>u. st_Do step c (Running t) = (Running u, None) \<and> P u))"
  shows "\<exists>p' s'. run_loop ctx i xs p (Running s) = (p', Running s', None) \<and> P s'"
  using assms(1,2,4)
proof (induction xs arbitrary: i p s)
  case (Cons step xs)
  note rest = Cons.IH [OF _ _ ballI [OF bspec [OF Cons.prems(3)]]]
  show ?case
  proof (cases "st_Name step \<in> pl_Completed p")
    case True
    then show ?thesis using rest [OF Cons.prems(1,2)] by simp
  next
    case False
    let ?p = "p\<lparr>pl_Completed := insert (st_Name step) (pl_Completed p)\<rparr>"
    obtain s1 where s1: "persist_call p (\<lambda>ps n. ps_Start ps n (st_Name step)) (Running s) = Running s1" "P s1"
      using persist_call_Running(3) [OF Cons.prems(1), of "st_Name step" s]
        persist_call_if_running(1) [OF Cons.prems(1) assms(3), of "Running s" "st_Name step"] Cons.prems(2) by auto
    obtain s2 where s2: "executeStep ctx step (Running s1) = (Running s2, None)" "P s2"
    proof -
      obtain m where "nat (st_Retry step + 1) = Suc m" using Cons.prems(3) by (cases "nat (st_Retry step + 1)") auto
      moreover obtain u where "st_Do step (if st_Timeout step > 0 then WithTimeout ctx (st_Timeout step) else ctx) (Running s1) = (Running u, None)" "P u"
        using Cons.prems(3) s1(2) by fastforce
      ultimately show thesis using that by (simp add: executeStep_def Let_def)
    qed
    obtain s3 where s3: "persist_call ?p (\<lambda>ps n. ps_Save ps n (st_Name step)) (Running s2) = Running s3" "P s3"
      using persist_call_Running(2) [of ?p "st_Name step" s2]
        persist_call_if_running(2) [of ?p P "Running s2" "st_Name step", OF _ assms(3)] Cons.prems(1) s2(2) by auto
    have "store_or_none (pl_Persist ?p)" using Cons.prems(1) by simp
    then show ?thesis using rest [OF _ s3(2)] False s1(1) s2(1) s3(1) by (simp add: Let_def)
  qed
qed simp

lemma shelf_deletes:
  assumes "up_to_date s" "no_faults s" "d \<noteq> []"
  shows "\<exists>s'. DeleteAllContainers shelf_os (shelf_cfg d) cn s = (Running s', None)"
proof -
  obtain p s1 b where run: "DeleteAllContainers shelf_os (shelf_cfg d) cn s
      = (case run_loop Background 0 (delete_steps shelf_os (shelf_cfg d) b cn) p (Running s1) of (p', w', e) \<Rightarrow> (w', map_option (ErrorfW ''delete cluster'') e))"
    and d: "same_data s s1" and sp: "store_or_none (pl_Persist p)"
    and nf: "no_faults s \<longrightarrow> no_faults s1 \<and> completed_steps s1 = completed_steps s"
    by (rule delete_run [of "shelf_cfg d", OF shelf_cfg_facts(1) assms(1)])
  let ?P = "\<lambda>t. no_faults t \<and> up_to_date t"
  have keep: "store_keeps (?P :: bool ops_state \<Rightarrow> bool)" by (rule store_keeps_data(2)) (simp add: same_data_def up_to_date_def)
  have w: "in_process (on_world f) (Running t) = (Running (set_world (fst (f (os_world t))) t), None)" if "snd (f (os_world t)) = None" for f and t :: "bool ops_state"
    using that by (auto simp: in_process_def on_world_def split: prod.split)
  have db: "\<exists>u. in_process (delete_db (shelf_cfg d) b n cn) (Running t) = (Running u, None) \<and> ?P u" if "?P t" for t :: "bool ops_state" and n
    using that assms(3)
    by (simp add: in_process_def delete_db_def OpenStore_healthy DeleteCluster_def LogOperation_def DeletePipeline_def
        db_exec_healthy no_faults_def up_to_date_def Let_def)
  have "\<forall>step \<in> set (delete_steps shelf_os (shelf_cfg d) b cn). 0 \<le> st_Retry step
      \<and> (\<forall>c t. ?P t \<longrightarrow> (\<exists>u. st_Do step c (Running t) = (Running u, None) \<and> ?P u))"
    using db by (simp add: delete_steps_def delete_resources_def w delete_config_def cleanup_state_def FileExists_def shelf_os_def
        shelf_redis_def shelf_delete no_faults_def up_to_date_def)
  note ok = this
  have P1: "?P s1" using d nf assms(1,2) by (simp add: same_data_def up_to_date_def)
  obtain p' s' where "run_loop Background 0 (delete_steps shelf_os (shelf_cfg d) b cn) p (Running s1) = (p', Running s', None)"
    using run_loop_succeeds [where P = ?P and ctx = Background and i = 0, OF sp P1 keep ok] by blast
  then show ?thesis using run by simp
qed


theorem second_delete_keeps_rows_witness:
  "\<exists>s2 s3. DeleteAllContainers shelf_os (shelf_cfg ''db'') ''c1'' s2 = (Running s3, None)
     \<and> db_clusters s2 = db_clusters (shelf_state [] [] True) \<and> db_clusters s3 \<noteq> []"
proof -
  let ?s = "shelf_state [] [] True" and ?n = "''delete-cluster-c1''"
  obtain s1 where r1: "DeleteAllContainers shelf_os (shelf_cfg ''db'') ''c1'' ?s = (Running s1, None)"
    using shelf_deletes [of ?s "''db''" "''c1''"] by auto
  obtain xs where xs: "set xs = completed_steps s1 (''delete-cluster-'' @ ''c1'')"
    by (rule that [of "map pr_step_name (filter (\<lambda>r. pr_pipeline_name r = ''delete-cluster-c1'' \<and> pr_status r = RunCompleted) (db_runs s1))"])
      (auto simp: completed_steps_def run_key_iff)
  let ?s2 = "shelf_state ?n xs True"
  obtain s3 where r3: "DeleteAllContainers shelf_os (shelf_cfg ''db'') ''c1'' ?s2 = (Running s3, None)"
    using shelf_deletes [of ?s2 "''db''" "''c1''"] by auto
  have "db_clusters s3 = db_clusters ?s2"
    using second_delete_keeps_rows [OF _ _ _ _ _ r1 _ _ _ r3] xs by simp
  then show ?thesis using r3 by (intro exI [of _ ?s2] exI [of _ s3]) simp
qed

lemma meet_step_first_fails:
  assumes "rt_Backend cfg = ''podman''" "up_to_date s" "no_faults s" "rt_DBPath cfg \<noteq> []"
    and "completed_steps s (''create-cluster-'' @ cn) = {''validate'', ''create-containers''}"
  shows "\<exists>s' e. CreateClusterAction api cfg b n k cn s = (Running s', e)"
  supply run_loop.simps [simp del]
proof -
  obtain p s1 b' where run: "CreateClusterAction api cfg b n k cn s
      = (case run_loop Background 0 (create_steps api cfg b' n k cn) p (Running s1) of
           (p', w', e) \<Rightarrow> (w', map_option (ErrorfW ''create cluster'') e))"
    and d: "same_data (new_manager b k (NewPodmanNodeManager cfg) s) s1" and sp: "store_or_none (pl_Persist p)"
    and st: "pl_Steps p = create_steps api cfg b' n k cn"
    and C: "no_faults s \<and> rt_DBPath cfg \<noteq> [] \<longrightarrow>
       b' \<and> pl_Persist p = Some (process_persister store_persister) \<and> pl_Completed p = completed_steps s (''create-cluster-'' @ cn)"
    by (rule create_run [OF assms(1,2)])
  have pc: "pl_Completed p = {''validate'', ''create-containers''}" "pl_Persist p = Some (process_persister store_persister)"
    using C assms(3,4,5) by simp_all
  let ?v = "process_step ''validate'' 0 (on_cm (create_validate api n k cn)) None"
  let ?c = "process_step ''create-containers'' 1 (create_containers api cn (n * k)) (Some (delete_resources api cn))"
  let ?g = "meet_step api cn ''no node found for cluster'' ''create redis client fail''"
  let ?m = "process_step ''meet-nodes'' 0 (on_cm ?g) None"
  obtain rest where steps: "create_steps api cfg b' n k cn = [?v, ?c] @ ?m # rest" by (simp add: create_steps_def)
  have skip: "run_loop Background 0 (create_steps api cfg b' n k cn) p (Running s1) = run_loop Background (0 + length [?v, ?c]) (?m # rest) p (Running s1)"
    unfolding steps by (rule run_loop_skip_prefix) (simp add: pc)
  let ?t = "fst (ps_Start store_persister (pl_Name p) ''meet-nodes'' s1)"
  have g: "?g (os_cm ?t) = (os_cm ?t, Some (Errorf ''no node found for cluster''))"
    using d same_data_persister(2) [of s1 "pl_Name p" "''meet-nodes''"]
    by (simp add: meet_step_def findClusterNode_def same_data_def NewPodmanNodeManager_def pm_GetNodes_def getNodes_def)
  have x: "executeStep Background ?m (Running ?t) = (Running ?t, Some (ErrorfW ''after attempts'' (Errorf ''no node found for cluster'')))"
    by (rule execute_fails) (simp_all add: on_cm_def g)
  have "\<exists>p' s' e. run_loop Background (Suc (Suc 0)) (?m # rest) p (Running s1) = (p', Running s', Some e)"
    by (subst run_loop.simps)
      (simp add: x pc st steps rollback_def persist_call_def process_persister_def delete_resources_Running Let_def
        process_step_def [of "''validate''"] process_step_def [of "''create-containers''"])
  then show ?thesis using run skip by auto
qed

theorem resumed_create_fails_witness:
  "\<exists>s' e. CreateClusterAction shelf_os (shelf_cfg ''db'') False 1 2 ''c1''
       (shelf_state ''create-cluster-c1'' [''validate'', ''create-containers''] True) = (Running s', e) \<and> e \<noteq> None \<and> \<not> os_world s'"
proof -
  let ?s = "shelf_state ''create-cluster-c1'' [''validate'', ''create-containers''] True"
  obtain s' e where r: "CreateClusterAction shelf_os (shelf_cfg ''db'') False 1 2 ''c1'' ?s = (Running s', e)"
    using meet_step_first_fails [of "shelf_cfg ''db''" ?s "''c1''" shelf_os False 1 2] by auto
  show ?thesis using resumed_create_fails [OF _ _ _ _ _ _ r] r shelf_delete by (auto simp: shelf_os_def shelf_redis_def)
qed

end
