(* ===== verification/Group_Cache.thy ===== *)
theory Group_Cache
  imports Cache_Store Hot_Key Single_Flight
begin

text \<open>
  \<^verbatim>\<open>cache/geecache.go\<close> with the files around it: \<^verbatim>\<open>invalidator.go\<close>, \<^verbatim>\<open>ratelimit.go\<close>,
  \<^verbatim>\<open>redis_getter.go\<close>, the adapters of \<^verbatim>\<open>http.go\<close>, the calls of \<^verbatim>\<open>peer/grpc_client.go\<close> and the server side
  of \<^verbatim>\<open>peer/grpc_server.go\<close> and \<^verbatim>\<open>cluster/proto/cache_grpc.go\<close>.

  The groups of a process live in a world of type \<open>'w\<close> that also holds everything a call can reach:
  other nodes, the data source, the goroutines that were started. An operation is a function on that
  world, because a node that waits for a peer may be called by that peer in the meantime. A
  \<^verbatim>\<open>*Group\<close> is the name of the group; the program makes one group per name. The limiter of
  \<^verbatim>\<open>golang.org/x/time/rate\<close>, the Redis client, the getter and the wire of gRPC are functions of the
  interface record. An operation that does not return is \<^const>\<open>None\<close>. By the invariant of
  the package, \<^verbatim>\<open>singleflight.Do\<close> runs its function for every caller and returns its result
  (\<^theory_text>\<open>Single_Flight\<close>), so \<open>load\<close> runs the function.

  A goroutine is a task handed to \<open>ga_go\<close>, which runs at some later time; the semaphore
  \<^verbatim>\<open>replicationSem\<close> delays the start of a task until fewer than 100 are running and has no other effect.
\<close>

section \<open>Types\<close>

definition defaultReplicationFactor :: int where
  "defaultReplicationFactor = 2"

text \<open>The limiter is the pair of rate and burst with which the library's limiter is made.\<close>

record DBLoaderLimiter =
  dl_rate :: int
  dl_burst :: int

record Group =
  g_name :: string
  g_mainCache :: cache
  g_peers :: "Registry option"
  g_registry :: "Registry option"
  g_replicationFactor :: int
  g_hotTracker :: "HotKeyTracker option"
  g_dbLimiter :: "DBLoaderLimiter option"
  g_cacheDirty :: bool

record Request =
  rq_Group :: string
  rq_Key :: string

record PushRequest =
  pr_Group :: string
  pr_Key :: string
  pr_Value :: string

text \<open>The goroutines that the package starts, with the variables they capture.\<close>

datatype task =
    PushSecondary GrpcGetter string string ByteView
  | PushHot string string string ByteView
  | BroadcastTo GrpcGetter string string

text \<open>
  \<open>ga_load\<close> is \<^verbatim>\<open>Getter.Get\<close> of a group, \<open>ga_limit\<close> is \<^verbatim>\<open>rate.Limiter.Wait\<close> under a timeout of three
  seconds, and \<open>ga_Get\<close>, \<open>ga_Push\<close> and \<open>ga_Invalidate\<close> invoke a method of the gRPC service at an address.
\<close>

record 'w cache_api =
  ga_group :: "string \<Rightarrow> 'w \<Rightarrow> Group option"
  ga_put :: "string \<Rightarrow> Group \<Rightarrow> 'w \<Rightarrow> 'w"
  ga_now :: "'w \<Rightarrow> int"
  ga_load :: "string \<Rightarrow> string \<Rightarrow> 'w \<Rightarrow> 'w \<times> string go_result"
  ga_limit :: "DBLoaderLimiter \<Rightarrow> 'w \<Rightarrow> 'w \<times> go_err"
  ga_go :: "task \<Rightarrow> 'w \<Rightarrow> 'w"
  ga_Get :: "string \<Rightarrow> Request \<Rightarrow> 'w \<Rightarrow> ('w \<times> string go_result) option"
  ga_Push :: "string \<Rightarrow> PushRequest \<Rightarrow> 'w \<Rightarrow> ('w \<times> go_err) option"
  ga_Invalidate :: "string \<Rightarrow> Request \<Rightarrow> 'w \<Rightarrow> ('w \<times> go_err) option"

text \<open>The fields of the group that a \<^verbatim>\<open>*Group\<close> points to.\<close>

definition deref :: "'w cache_api \<Rightarrow> string \<Rightarrow> 'w \<Rightarrow> Group" where
  "deref api gn w = the (ga_group api gn w)"

section \<open>Groups\<close>

definition NewGroup :: "'w cache_api \<Rightarrow> string \<Rightarrow> int \<Rightarrow> 'getter option \<Rightarrow> 'w \<Rightarrow> 'w \<times> string go_result" where
  "NewGroup api name cacheBytes getter w =
     (case getter of
        None \<Rightarrow> (w, Inl (Errorf ''nil Getter''))
      | Some _ \<Rightarrow>
          (ga_put api name \<lparr>g_name = name, g_mainCache = newCache cacheBytes, g_peers = None,
             g_registry = None, g_replicationFactor = defaultReplicationFactor, g_hotTracker = None,
             g_dbLimiter = None, g_cacheDirty = False\<rparr> w, Inr name))"

definition RegisterPeers :: "'w cache_api \<Rightarrow> string \<Rightarrow> Registry \<Rightarrow> 'w \<Rightarrow> 'w \<times> go_err" where
  "RegisterPeers api gn peers w =
     (let g = deref api gn w
      in if g_peers g \<noteq> None then (w, Some (Errorf ''peer picker already registered for group''))
         else (ga_put api gn (g\<lparr>g_peers := Some peers\<rparr>) w, None))"

definition SetRegistry :: "'w cache_api \<Rightarrow> string \<Rightarrow> Registry option \<Rightarrow> 'w \<Rightarrow> 'w" where
  "SetRegistry api gn r w = ga_put api gn ((deref api gn w)\<lparr>g_registry := r\<rparr>) w"

definition SetReplicationFactor :: "'w cache_api \<Rightarrow> string \<Rightarrow> int \<Rightarrow> 'w \<Rightarrow> 'w" where
  "SetReplicationFactor api gn n w =
     ga_put api gn ((deref api gn w)\<lparr>g_replicationFactor := (if n < 1 then 1 else n)\<rparr>) w"

definition SetHotKeyTracker :: "'w cache_api \<Rightarrow> string \<Rightarrow> HotKeyTracker option \<Rightarrow> 'w \<Rightarrow> 'w" where
  "SetHotKeyTracker api gn t w = ga_put api gn ((deref api gn w)\<lparr>g_hotTracker := t\<rparr>) w"

definition SetDBLimiter :: "'w cache_api \<Rightarrow> string \<Rightarrow> DBLoaderLimiter option \<Rightarrow> 'w \<Rightarrow> 'w" where
  "SetDBLimiter api gn l w = ga_put api gn ((deref api gn w)\<lparr>g_dbLimiter := l\<rparr>) w"

definition markSlotMigrated :: "'w cache_api \<Rightarrow> string \<Rightarrow> int \<Rightarrow> 'w \<Rightarrow> 'w" where
  "markSlotMigrated api gn slot w = ga_put api gn ((deref api gn w)\<lparr>g_cacheDirty := True\<rparr>) w"

definition GetGroup :: "'w cache_api \<Rightarrow> string \<Rightarrow> 'w \<Rightarrow> string option" where
  "GetGroup api name w = (case ga_group api name w of None \<Rightarrow> None | Some _ \<Rightarrow> Some name)"

section \<open>The limiter and the Redis getter\<close>

definition NewDBLoaderLimiter :: DBLoaderLimiter where
  "NewDBLoaderLimiter = \<lparr>dl_rate = 200, dl_burst = 50\<rparr>"

definition NewDBLoaderLimiterWithLimit :: "int \<Rightarrow> int \<Rightarrow> DBLoaderLimiter" where
  "NewDBLoaderLimiterWithLimit rps burst = \<lparr>dl_rate = rps, dl_burst = burst\<rparr>"

definition limiter_Wait :: "'w cache_api \<Rightarrow> DBLoaderLimiter option \<Rightarrow> 'w \<Rightarrow> 'w \<times> go_err" where
  "limiter_Wait api l w = (case l of None \<Rightarrow> (w, None) | Some lim \<Rightarrow> ga_limit api lim w)"

text \<open>\<open>allow\<close> is the answer of the library's limiter.\<close>

definition limiter_Allow :: "(DBLoaderLimiter \<Rightarrow> 'w \<Rightarrow> 'w \<times> bool) \<Rightarrow> DBLoaderLimiter option \<Rightarrow> 'w \<Rightarrow> 'w \<times> bool" where
  "limiter_Allow allow l w = (case l of None \<Rightarrow> (w, True) | Some lim \<Rightarrow> allow lim w)"

text \<open>
  A Redis getter is its address and whether it has a client. A reply of the client is a value,
  \<^const>\<open>None\<close> for \<^verbatim>\<open>redis.Nil\<close>, or another error.
\<close>

record RedisGetter =
  rgt_client :: bool
  rgt_addr :: string

text \<open>\<open>ping\<close> is the outcome of \<^verbatim>\<open>PING\<close> on a new connection to the address.\<close>

definition NewRedisGetter :: "(string \<Rightarrow> 'w \<Rightarrow> 'w \<times> go_err) \<Rightarrow> string \<Rightarrow> 'w \<Rightarrow> 'w \<times> RedisGetter go_result" where
  "NewRedisGetter ping addr w =
     (case ping addr w of
        (w1, Some err) \<Rightarrow> (w1, Inl (ErrorfW ''redis connect'' err))
      | (w1, None) \<Rightarrow> (w1, Inr \<lparr>rgt_client = True, rgt_addr = addr\<rparr>))"

definition NewRedisGetterFromClient :: "bool \<Rightarrow> RedisGetter" where
  "NewRedisGetterFromClient client = \<lparr>rgt_client = client, rgt_addr = []\<rparr>"

definition RedisGetter_Get ::
  "(string \<Rightarrow> 'w \<Rightarrow> 'w \<times> string option go_result) \<Rightarrow> RedisGetter \<Rightarrow> string \<Rightarrow> 'w \<Rightarrow> 'w \<times> string go_result" where
  "RedisGetter_Get client g key w =
     (if \<not> rgt_client g then (w, Inl (Errorf ''redis client is nil''))
      else case client key w of
        (w1, Inr None) \<Rightarrow> (w1, Inl (Errorf ''key not found in redis''))
      | (w1, Inr (Some val)) \<Rightarrow> (w1, Inr val)
      | (w1, Inl err) \<Rightarrow> (w1, Inl err))"

section \<open>Calls to a peer\<close>

definition getter_Get :: "'w cache_api \<Rightarrow> GrpcGetter \<Rightarrow> Request \<Rightarrow> 'w \<Rightarrow> ('w \<times> string go_result) option" where
  "getter_Get api pg req w =
     (case ga_Get api (gg_addr pg) req w of
        None \<Rightarrow> None
      | Some (w1, Inl err) \<Rightarrow> Some (w1, Inl (ErrorfW ''grpc get'' err))
      | Some (w1, Inr resp) \<Rightarrow> Some (w1, Inr resp))"

definition getter_PushReplica ::
  "'w cache_api \<Rightarrow> GrpcGetter \<Rightarrow> string \<Rightarrow> string \<Rightarrow> string \<Rightarrow> 'w \<Rightarrow> ('w \<times> go_err) option" where
  "getter_PushReplica api pg gname key value w =
     (case ga_Push api (gg_addr pg) \<lparr>pr_Group = gname, pr_Key = key, pr_Value = value\<rparr> w of
        None \<Rightarrow> None
      | Some (w1, Some err) \<Rightarrow> Some (w1, Some (ErrorfW ''push replica'' err))
      | Some (w1, None) \<Rightarrow> Some (w1, None))"

definition getter_Invalidate :: "'w cache_api \<Rightarrow> GrpcGetter \<Rightarrow> string \<Rightarrow> string \<Rightarrow> 'w \<Rightarrow> ('w \<times> go_err) option" where
  "getter_Invalidate api pg gname key w =
     (case ga_Invalidate api (gg_addr pg) \<lparr>rq_Group = gname, rq_Key = key\<rparr> w of
        None \<Rightarrow> None
      | Some (w1, Some err) \<Rightarrow> Some (w1, Some (ErrorfW ''grpc invalidate'' err))
      | Some (w1, None) \<Rightarrow> Some (w1, None))"

section \<open>Replication and invalidation\<close>

text \<open>
  Every candidate is a \<^verbatim>\<open>GrpcGetter\<close>, which is a replica pusher, so the loop pushes to its first
  candidate that is not the local node and stops there.
\<close>

fun push_first :: "'w cache_api \<Rightarrow> string \<Rightarrow> string \<Rightarrow> string \<Rightarrow> ByteView \<Rightarrow> GrpcGetter list \<Rightarrow> 'w \<Rightarrow> 'w" where
  "push_first api gn local key value [] w = w"
| "push_first api gn local key value (pg # candidates) w =
     (if gg_addr pg = local then push_first api gn local key value candidates w
      else ga_go api (PushSecondary pg gn key value) w)"

definition replicateToSecondaries :: "'w cache_api \<Rightarrow> string \<Rightarrow> string \<Rightarrow> ByteView \<Rightarrow> 'w \<Rightarrow> 'w \<times> go_err" where
  "replicateToSecondaries api gn key value w =
     (let g = deref api gn w
      in case g_registry g of
           None \<Rightarrow> (w, None)
         | Some r \<Rightarrow>
             if g_replicationFactor g < 2 then (w, None)
             else case PickPeerWithFallback key (g_replicationFactor g) r of
               Inl e \<Rightarrow> (w, Some e)
             | Inr candidates \<Rightarrow> (push_first api gn (LocalAddr r) key value candidates w, None))"

definition replicateIfHot :: "'w cache_api \<Rightarrow> string \<Rightarrow> string \<Rightarrow> ByteView \<Rightarrow> 'w \<Rightarrow> 'w \<times> go_err" where
  "replicateIfHot api gn key value w =
     (let t = g_hotTracker (deref api gn w)
      in if t = None \<or> \<not> IsHot key t then (w, None)
         else case ReplicateCandidates key t of
           Inl e \<Rightarrow> (w, Some e)
         | Inr candidates \<Rightarrow> (fold (\<lambda>addr. ga_go api (PushHot addr gn key value)) candidates w, None))"

definition BroadcastInvalidation :: "'w cache_api \<Rightarrow> Registry \<Rightarrow> string \<Rightarrow> string \<Rightarrow> 'w \<Rightarrow> 'w" where
  "BroadcastInvalidation api registry groupName key w =
     fold (\<lambda>pg. ga_go api (BroadcastTo pg groupName key)) (AllPeers registry) w"

text \<open>
  The bodies of the goroutines. The registry is read when the task runs; without one, the
  method of a nil registry panics. An error of the call is only logged.
\<close>

fun run_task :: "'w cache_api \<Rightarrow> task \<Rightarrow> 'w \<Rightarrow> ('w \<times> go_err) option" where
  "run_task api (PushSecondary pg gn key value) w =
     map_option (\<lambda>(w1, _). (w1, None)) (getter_PushReplica api pg gn key (bv_ByteSlice value) w)"
| "run_task api (PushHot target gn key value) w =
     (case g_registry (deref api gn w) of
        None \<Rightarrow> Some (w, Some (Panic ''nil pointer dereference''))
      | Some r \<Rightarrow>
          (case find (\<lambda>p. gg_addr p = target) (AllPeers r) of
             None \<Rightarrow> Some (w, None)
           | Some p \<Rightarrow> map_option (\<lambda>(w1, _). (w1, None)) (getter_PushReplica api p gn key (bv_ByteSlice value) w)))"
| "run_task api (BroadcastTo pg gn key) w =
     map_option (\<lambda>(w1, _). (w1, None)) (getter_Invalidate api pg gn key w)"

section \<open>Reading\<close>

definition populateCache :: "'w cache_api \<Rightarrow> string \<Rightarrow> string \<Rightarrow> ByteView \<Rightarrow> 'w \<Rightarrow> 'w option" where
  "populateCache api gn key value w =
     (let g = deref api gn w
      in case cache_add key value (g_mainCache g) of
           None \<Rightarrow> None
         | Some c \<Rightarrow> Some (ga_put api gn (g\<lparr>g_mainCache := c\<rparr>) w))"

definition fetchFromPeer ::
  "'w cache_api \<Rightarrow> string \<Rightarrow> GrpcGetter \<Rightarrow> string \<Rightarrow> 'w \<Rightarrow> ('w \<times> ByteView go_result) option" where
  "fetchFromPeer api gn pg key w =
     (case getter_Get api pg \<lparr>rq_Group = g_name (deref api gn w), rq_Key = key\<rparr> w of
        None \<Rightarrow> None
      | Some (w1, Inl err) \<Rightarrow> Some (w1, Inl err)
      | Some (w1, Inr resp) \<Rightarrow>
          (case populateCache api gn key \<lparr>bv_b = resp\<rparr> w1 of
             None \<Rightarrow> None
           | Some w2 \<Rightarrow> Some (w2, Inr \<lparr>bv_b = resp\<rparr>)))"

text \<open>A panic in the replication steps leaves the function before it returns the value.\<close>

definition getLocally :: "'w cache_api \<Rightarrow> string \<Rightarrow> string \<Rightarrow> 'w \<Rightarrow> ('w \<times> ByteView go_result) option" where
  "getLocally api gn key w =
     (case limiter_Wait api (g_dbLimiter (deref api gn w)) w of
        (w1, Some err) \<Rightarrow> Some (w1, Inl (ErrorfW ''db load rate limited'' err))
      | (w1, None) \<Rightarrow>
          (case ga_load api gn key w1 of
             (w2, Inl err) \<Rightarrow> Some (w2, Inl err)
           | (w2, Inr bytes) \<Rightarrow>
               let value = \<lparr>bv_b = cloneBytes bytes\<rparr>
               in case populateCache api gn key value w2 of
                    None \<Rightarrow> None
                  | Some w3 \<Rightarrow>
                      (case replicateToSecondaries api gn key value w3 of
                         (w4, Some e) \<Rightarrow> Some (w4, Inl e)
                       | (w4, None) \<Rightarrow>
                           (case replicateIfHot api gn key value w4 of
                              (w5, Some e) \<Rightarrow> Some (w5, Inl e)
                            | (w5, None) \<Rightarrow> Some (w5, Inr value)))))"

text \<open>The loop over the candidates, then the local load.\<close>

fun try_peers :: "'w cache_api \<Rightarrow> string \<Rightarrow> string \<Rightarrow> GrpcGetter list \<Rightarrow> 'w \<Rightarrow> ('w \<times> ByteView go_result) option" where
  "try_peers api gn key [] w = getLocally api gn key w"
| "try_peers api gn key (pg # candidates) w =
     (case fetchFromPeer api gn pg key w of
        None \<Rightarrow> None
      | Some (w1, Inr v) \<Rightarrow> Some (w1, Inr v)
      | Some (w1, Inl e) \<Rightarrow> try_peers api gn key candidates w1)"

definition load :: "'w cache_api \<Rightarrow> string \<Rightarrow> string \<Rightarrow> 'w \<Rightarrow> ('w \<times> ByteView go_result) option" where
  "load api gn key w =
     (let g = deref api gn w
      in case g_registry g of
           None \<Rightarrow> getLocally api gn key w
         | Some r \<Rightarrow>
             (case PickPeerWithFallback key (g_replicationFactor g) r of
                Inl e \<Rightarrow> Some (w, Inl e)
              | Inr candidates \<Rightarrow> try_peers api gn key candidates w))"

text \<open>The part of \<^verbatim>\<open>Get\<close> before \<open>load\<close>: counting the access, purging a dirty cache, and the lookup.\<close>

definition lookup_local :: "int \<Rightarrow> string \<Rightarrow> Group \<Rightarrow> Group \<times> ByteView option" where
  "lookup_local now key g =
     (let g1 = g\<lparr>g_hotTracker := fst (RecordAccess now key (g_hotTracker g))\<rparr>;
          g2 = (if g_cacheDirty g1 then g1\<lparr>g_cacheDirty := False, g_mainCache := cache_purge (g_mainCache g1)\<rparr>
                else g1);
          (c, r) = cache_get now key (g_mainCache g2)
      in (g2\<lparr>g_mainCache := c\<rparr>, r))"

definition group_Get :: "'w cache_api \<Rightarrow> string \<Rightarrow> string \<Rightarrow> 'w \<Rightarrow> ('w \<times> ByteView go_result) option" where
  "group_Get api gn key w =
     (if key = [] then Some (w, Inl (Errorf ''key is required''))
      else case lookup_local (ga_now api w) key (deref api gn w) of
        (g, Some v) \<Rightarrow> Some (ga_put api gn g w, Inr v)
      | (g, None) \<Rightarrow> load api gn key (ga_put api gn g w))"

section \<open>Writing\<close>

definition group_DeleteLocal :: "'w cache_api \<Rightarrow> string \<Rightarrow> string \<Rightarrow> 'w \<Rightarrow> 'w" where
  "group_DeleteLocal api gn key w =
     (let g = deref api gn w in ga_put api gn (g\<lparr>g_mainCache := cache_delete key (g_mainCache g)\<rparr>) w)"

definition group_Delete :: "'w cache_api \<Rightarrow> string \<Rightarrow> string \<Rightarrow> 'w \<Rightarrow> 'w" where
  "group_Delete api gn key w =
     (let g = deref api gn w;
          w1 = ga_put api gn (g\<lparr>g_mainCache := cache_delete key (g_mainCache g)\<rparr>) w
      in case g_registry g of
           None \<Rightarrow> w1
         | Some r \<Rightarrow> BroadcastInvalidation api r (g_name g) key w1)"

definition StoreReplica :: "'w cache_api \<Rightarrow> string \<Rightarrow> string \<Rightarrow> ByteView \<Rightarrow> 'w \<Rightarrow> 'w option" where
  "StoreReplica api gn key value w = populateCache api gn key value w"

section \<open>Slot invalidation\<close>

record SlotInvalidator =
  si_groups :: "string list"

definition NewSlotInvalidator :: "string list \<Rightarrow> SlotInvalidator" where
  "NewSlotInvalidator groups = \<lparr>si_groups = groups\<rparr>"

definition InvalidateSlot :: "'w cache_api \<Rightarrow> SlotInvalidator \<Rightarrow> int \<Rightarrow> 'w \<Rightarrow> 'w" where
  "InvalidateSlot api si slot w = fold (\<lambda>gn. markSlotMigrated api gn slot) (si_groups si) w"

definition InvalidateSlots :: "'w cache_api \<Rightarrow> SlotInvalidator \<Rightarrow> int \<Rightarrow> int \<Rightarrow> 'w \<Rightarrow> 'w" where
  "InvalidateSlots api si start end' w =
     fold (\<lambda>gn. fold (markSlotMigrated api gn) [start..end']) (si_groups si) w"

section \<open>The service\<close>

definition CacheServiceAdapter_Get :: "'w cache_api \<Rightarrow> string \<Rightarrow> string \<Rightarrow> 'w \<Rightarrow> ('w \<times> string go_result) option" where
  "CacheServiceAdapter_Get api groupName key w =
     (case GetGroup api groupName w of
        None \<Rightarrow> Some (w, Inl (Errorf ''no such group''))
      | Some g \<Rightarrow>
          (case group_Get api g key w of
             None \<Rightarrow> None
           | Some (w1, Inl err) \<Rightarrow> Some (w1, Inl err)
           | Some (w1, Inr view) \<Rightarrow> Some (w1, Inr (bv_ByteSlice view))))"

definition CacheServiceAdapter_Delete :: "'w cache_api \<Rightarrow> string \<Rightarrow> string \<Rightarrow> 'w \<Rightarrow> 'w" where
  "CacheServiceAdapter_Delete api groupName key w =
     (case GetGroup api groupName w of None \<Rightarrow> w | Some g \<Rightarrow> group_DeleteLocal api g key w)"

definition CacheServiceAdapter_PushReplica :: "'w cache_api \<Rightarrow> string \<Rightarrow> string \<Rightarrow> string \<Rightarrow> 'w \<Rightarrow> 'w option" where
  "CacheServiceAdapter_PushReplica api groupName key value w =
     (case GetGroup api groupName w of
        None \<Rightarrow> Some w
      | Some g \<Rightarrow> StoreReplica api g key \<lparr>bv_b = cloneBytes value\<rparr> w)"

text \<open>The interceptors: a panic of the handler becomes an internal error, and the logger changes nothing.\<close>

definition recoveryInterceptor :: "('w \<Rightarrow> ('w \<times> 'a go_result) option) \<Rightarrow> 'w \<Rightarrow> ('w \<times> 'a go_result) option" where
  "recoveryInterceptor handler w =
     (case handler w of
        Some (w1, Inl (Panic m)) \<Rightarrow> Some (w1, Inl (Errorf ''internal error''))
      | r \<Rightarrow> r)"

definition loggingInterceptor :: "('w \<Rightarrow> ('w \<times> 'a go_result) option) \<Rightarrow> 'w \<Rightarrow> ('w \<times> 'a go_result) option" where
  "loggingInterceptor handler w = handler w"

definition service_Get :: "'w cache_api \<Rightarrow> Request \<Rightarrow> 'w \<Rightarrow> ('w \<times> string go_result) option" where
  "service_Get api req w = CacheServiceAdapter_Get api (rq_Group req) (rq_Key req) w"

definition service_Invalidate :: "'w cache_api \<Rightarrow> Request \<Rightarrow> 'w \<Rightarrow> ('w \<times> string go_result) option" where
  "service_Invalidate api req w =
     Some (CacheServiceAdapter_Delete api (rq_Group req) (rq_Key req) w, Inr [])"

definition service_Push :: "'w cache_api \<Rightarrow> PushRequest \<Rightarrow> 'w \<Rightarrow> ('w \<times> string go_result) option" where
  "service_Push api req w =
     (case CacheServiceAdapter_PushReplica api (pr_Group req) (pr_Key req) (pr_Value req) w of
        None \<Rightarrow> None
      | Some w1 \<Rightarrow> Some (w1, Inr []))"

text \<open>A handler of the service descriptor: \<open>dec\<close> is the outcome of decoding the request.\<close>

definition service_handler ::
  "('req \<Rightarrow> 'w \<Rightarrow> ('w \<times> 'a go_result) option) \<Rightarrow> 'req go_result \<Rightarrow> 'w \<Rightarrow> ('w \<times> 'a go_result) option" where
  "service_handler meth dec w =
     (case dec of
        Inl err \<Rightarrow> Some (w, Inl err)
      | Inr req \<Rightarrow> recoveryInterceptor (loggingInterceptor (meth req)) w)"

section \<open>The picker and the health server\<close>

definition RegistryPicker_PickPeer :: "Registry \<Rightarrow> string \<Rightarrow> GrpcGetter option" where
  "RegistryPicker_PickPeer registry key = PickPeer key registry"

datatype http_status = StatusOK | StatusGone | StatusInternalServerError

definition ServeHTTP :: "string \<Rightarrow> string \<Rightarrow> http_status \<times> string" where
  "ServeHTTP self path =
     (if path = ''/_health'' then (StatusOK, ''ok'')
      else if path = ''/_info'' then (StatusOK, ''node: '' @ self @ [char_of (10::nat)] @ ''protocol: gRPC+HTTP'' @ [char_of (10::nat)])
      else (StatusGone, ''cache requests use gRPC; use grpcurl or a gRPC client'' @ [char_of (10::nat)]))"

section \<open>The local cache\<close>

lemma cloneBytes_id [simp]: "cloneBytes b = b"
  by (simp add: cloneBytes_def map_nth)

lemma ByteSlice_id [simp]: "bv_ByteSlice v = bv_b v"
  by (simp add: bv_ByteSlice_def)

lemma cache_get_hit:
  assumes "cache_ok c" "cache_lookup c k = Some e" "\<not> expired now e"
  obtains c' where "cache_get now k c = (c', Some (ce_value e))" "cache_ok c'" "cache_lookup c' = cache_lookup c"
    "ca_cacheBytes c' = ca_cacheBytes c"
proof -
  obtain l where l: "ca_lru c = Some l" "lookup l k = Some e"
    using assms(2) by (auto simp: cache_lookup_def split: option.splits)
  then have ok: "lru_ok ce_Len l" "lc_maxBytes l = ca_cacheBytes c" using assms(1) by (simp_all add: cache_ok_def)
  obtain l1 q where g: "lru_Get k l = (l1, q)" by fastforce
  have l1: "lru_ok ce_Len l1" "q = Some e" "lookup l1 = lookup l"
    using lru_cache.get_ok [OF ok(1), of k] g l(2) by simp_all
  have m: "lc_maxBytes l1 = ca_cacheBytes c"
    using lru_Get_spec(4) [of ce_Len l k] ok g by (simp add: lru_ok_def)
  show thesis
    by (rule that [of "c\<lparr>ca_lru := Some l1\<rparr>"])
      (use assms l g l1 m in \<open>simp_all add: cache_get_def cache_ok_def cache_lookup_def\<close>)
qed

lemma cache_add_result:
  assumes "cache_ok c"
  obtains c' where "cache_add k v c = Some c'" "cache_ok c'" "ca_cacheBytes c' = ca_cacheBytes c"
    "cache_lookup c' \<subseteq>\<^sub>m (cache_lookup c)(k \<mapsto> \<lparr>ce_value = v, ce_expiresAt = None\<rparr>)"
    "ca_cacheBytes c = 0 \<or> int (length k + length (bv_b v)) \<le> ca_cacheBytes c
      \<Longrightarrow> cache_lookup c' k = Some \<lparr>ce_value = v, ce_expiresAt = None\<rparr>"
proof -
  let ?e = "\<lparr>ce_value = v, ce_expiresAt = None\<rparr>"
  obtain l where l: "lru_Add ce_Len k ?e (the_lru c) = Some l" "cache_ok (c\<lparr>ca_lru := Some l\<rparr>)"
    "cache_lookup (c\<lparr>ca_lru := Some l\<rparr>) \<subseteq>\<^sub>m (cache_lookup c)(k \<mapsto> ?e)"
    using cache_put_coherent [OF assms map_le_refl, of k ?e] by blast
  have inv: "lru_inv ce_Len (the_lru c)" "0 \<le> lc_maxBytes (the_lru c)" "lc_maxBytes (the_lru c) = ca_cacheBytes c"
    using cache_ok_lru [OF assms] by (simp_all add: lru_ok_def)
  have "maximal_fit ce_Len (ca_cacheBytes c) ((k, ?e) # without k (contents (the_lru c))) (contents l)"
    using lru_Add_spec [OF inv(1,2), of k ?e] l(1) inv(3) by auto
  then have "ca_cacheBytes c = 0 \<or> int (length k + length (bv_b v)) \<le> ca_cacheBytes c \<Longrightarrow> lookup l k = Some ?e"
    using maximal_fit_lookup(2) [of ce_Len "ca_cacheBytes c" k ?e]
    by (simp add: lookup_def entry_size_def ce_Len_def bv_Len_def)
  then show thesis using that [of "c\<lparr>ca_lru := Some l\<rparr>"] l by (simp add: cache_add_def cache_lookup_def)
qed

lemma purge_ok: "cache_ok c \<Longrightarrow> cache_ok (cache_purge c)" "cache_lookup (cache_purge c) = Map.empty"
  by (simp_all add: cache_ok_def cache_purge_def cache_lookup_def)

text \<open>The lookup of a group: what it answers and what it leaves.\<close>

definition group_ok :: "Group \<Rightarrow> bool" where
  "group_ok g = (cache_ok (g_mainCache g) \<and> 1 \<le> g_replicationFactor g)"

lemma lookup_local_fields:
  assumes "lookup_local now key g = (g', r)"
  shows "g_name g' = g_name g" "g_registry g' = g_registry g" "g_replicationFactor g' = g_replicationFactor g"
    "g_dbLimiter g' = g_dbLimiter g" "\<not> g_cacheDirty g'" "g_peers g' = g_peers g"
    "g_hotTracker g' = fst (RecordAccess now key (g_hotTracker g))"
  using assms by (auto simp: lookup_local_def Let_def split: prod.splits if_splits)

lemma lookup_local_answer:
  assumes "group_ok g" "lookup_local now key g = (g', r)"
  shows "group_ok g'" and "cache_lookup (g_mainCache g') \<subseteq>\<^sub>m cache_lookup (g_mainCache g)"
    and "r = Some v \<Longrightarrow> \<not> g_cacheDirty g \<and>
      (\<exists>e. cache_lookup (g_mainCache g) key = Some e \<and> \<not> expired now e \<and> v = ce_value e)"
proof -
  let ?c = "if g_cacheDirty g then cache_purge (g_mainCache g) else g_mainCache g"
  have ok: "cache_ok ?c" using assms(1) purge_ok(1) by (simp add: group_ok_def)
  have g: "cache_get now key ?c = (g_mainCache g', r)"
    using assms(2) by (auto simp: lookup_local_def Let_def split: prod.splits if_splits)
  note G = cache_get_coherent [OF ok map_le_refl g]
  show "group_ok g'" using G lookup_local_fields [OF assms(2)] assms(1) by (simp add: group_ok_def)
  have "cache_lookup ?c \<subseteq>\<^sub>m cache_lookup (g_mainCache g)" by (simp add: purge_ok)
  then show "cache_lookup (g_mainCache g') \<subseteq>\<^sub>m cache_lookup (g_mainCache g)" using G map_le_trans by blast
  show "\<not> g_cacheDirty g \<and> (\<exists>e. cache_lookup (g_mainCache g) key = Some e \<and> \<not> expired now e \<and> v = ce_value e)"
    if "r = Some v"
    using G that by (cases "g_cacheDirty g") (auto simp: purge_ok)
qed

lemma lookup_local_dirty:
  "g_cacheDirty g \<Longrightarrow> ca_cacheBytes c = ca_cacheBytes (g_mainCache g)
    \<Longrightarrow> lookup_local now key (g\<lparr>g_mainCache := c\<rparr>) = lookup_local now key g"
  by (cases c; cases "g_mainCache g") (simp add: lookup_local_def Let_def cache_purge_def cache_get_def)

section \<open>A node and what surrounds it\<close>

text \<open>
  What the groups of a process rely on: the map of groups is a map, and only the process itself
  writes it. Starting a goroutine, reading the source and waiting for the limiter leave the groups as
  they are; a call to a peer may change them, since the peer may call back.
\<close>

locale cache_node =
  fixes api :: "'w cache_api"
  assumes group_put: "ga_group api gn' (ga_put api gn g w) = (if gn' = gn then Some g else ga_group api gn' w)"
    and put_put: "ga_put api gn g' (ga_put api gn g w) = ga_put api gn g' w"
    and put_commute: "gn \<noteq> gn' \<Longrightarrow> ga_put api gn g (ga_put api gn' h w) = ga_put api gn' h (ga_put api gn g w)"
    and now_put: "ga_now api (ga_put api gn g w) = ga_now api w"
    and group_go: "ga_group api gn (ga_go api t w) = ga_group api gn w"
    and group_load: "ga_group api gn (fst (ga_load api gn' k w)) = ga_group api gn w"
    and group_limit: "ga_group api gn (fst (ga_limit api l w)) = ga_group api gn w"
begin

lemma deref_put: "deref api gn' (ga_put api gn g w) = (if gn' = gn then g else deref api gn' w)"
  by (simp add: deref_def group_put)

lemmas group_simps = group_put put_put now_put group_go group_load group_limit deref_put

text \<open>Marking a group dirty, for every slot and every group of an invalidator.\<close>

lemma mark_put_other:
  "gn \<noteq> gn' \<Longrightarrow> markSlotMigrated api gn s (ga_put api gn' g w) = ga_put api gn' g (markSlotMigrated api gn s w)"
  by (simp add: markSlotMigrated_def deref_put put_commute)

lemma mark_put_same:
  "markSlotMigrated api gn s (ga_put api gn g w) = ga_put api gn (g\<lparr>g_cacheDirty := True\<rparr>) (markSlotMigrated api gn s w)"
  by (simp add: markSlotMigrated_def deref_put put_put)

text \<open>One group of the loop, over all slots; then the groups one after the other.\<close>

lemma marks_put:
  "fold (markSlotMigrated api gn) ss (ga_put api gn' g w) =
     ga_put api gn' (if gn = gn' \<and> ss \<noteq> [] then g\<lparr>g_cacheDirty := True\<rparr> else g) (fold (markSlotMigrated api gn) ss w)"
  by (induction ss arbitrary: g w) (auto simp: mark_put_same mark_put_other)

lemma InvalidateSlots_put:
  "InvalidateSlots api si a b (ga_put api gn g w) =
     ga_put api gn (if gn \<in> set (si_groups si) \<and> a \<le> b then g\<lparr>g_cacheDirty := True\<rparr> else g)
       (InvalidateSlots api si a b w)"
proof -
  have "fold (\<lambda>gn. fold (markSlotMigrated api gn) [a..b]) gs (ga_put api gn g w) =
     ga_put api gn (if gn \<in> set gs \<and> a \<le> b then g\<lparr>g_cacheDirty := True\<rparr> else g)
       (fold (\<lambda>gn. fold (markSlotMigrated api gn) [a..b]) gs w)" for gs
  proof (induction gs arbitrary: g w)
    case (Cons x gs)
    have "[a..b] \<noteq> [] \<longleftrightarrow> a \<le> b" by (simp add: not_less)
    then show ?case by (auto simp: marks_put Cons.IH)
  qed simp
  then show ?thesis by (simp add: InvalidateSlots_def)
qed

text \<open>After an invalidation the answer and the state of a read do not depend on what was cached.\<close>

lemma Get_dirty:
  assumes "g_cacheDirty g" "ca_cacheBytes c = ca_cacheBytes (g_mainCache g)" "key \<noteq> []"
  shows "group_Get api gn key (ga_put api gn (g\<lparr>g_mainCache := c\<rparr>) w) = group_Get api gn key (ga_put api gn g w)"
  using lookup_local_dirty [OF assms(1,2), of "ga_now api w" key] assms(3)
  by (simp add: group_Get_def deref_put now_put put_put split: prod.splits option.splits)

lemma Get_after_invalidation:
  assumes "gn \<in> set (si_groups si)" "a \<le> b" "ca_cacheBytes c = ca_cacheBytes (g_mainCache g)" "key \<noteq> []"
  shows "group_Get api gn key (InvalidateSlots api si a b (ga_put api gn (g\<lparr>g_mainCache := c\<rparr>) w)) =
    group_Get api gn key (InvalidateSlots api si a b (ga_put api gn g w))"
proof -
  have e: "g\<lparr>g_mainCache := c, g_cacheDirty := True\<rparr> = g\<lparr>g_cacheDirty := True, g_mainCache := c\<rparr>" by simp
  have "group_Get api gn key (ga_put api gn (g\<lparr>g_mainCache := c, g_cacheDirty := True\<rparr>) w')
    = group_Get api gn key (ga_put api gn (g\<lparr>g_cacheDirty := True\<rparr>) w')" for w'
    unfolding e by (rule Get_dirty) (use assms in simp_all)
  then show ?thesis using assms by (simp add: InvalidateSlots_put)
qed

end

section \<open>Where an answer comes from\<close>

text \<open>A candidate of the key in the ring of the group answers, the data source answers, or the load fails.\<close>

definition from_candidate :: "'w cache_api \<Rightarrow> Group \<Rightarrow> string \<Rightarrow> ByteView \<Rightarrow> bool" where
  "from_candidate api g key v =
     (\<exists>r pgs pg req w1 w2. g_registry g = Some r \<and> PickPeerWithFallback key (g_replicationFactor g) r = Inr pgs
        \<and> pg \<in> set pgs \<and> rq_Key req = key \<and> ga_Get api (gg_addr pg) req w1 = Some (w2, Inr (bv_b v)))"

definition from_source :: "'w cache_api \<Rightarrow> string \<Rightarrow> string \<Rightarrow> ByteView \<Rightarrow> bool" where
  "from_source api gn key v = (\<exists>w1 w2. ga_load api gn key w1 = (w2, Inr (bv_b v)))"

definition load_fails :: "'w cache_api \<Rightarrow> string \<Rightarrow> string \<Rightarrow> go_error \<Rightarrow> bool" where
  "load_fails api gn key e =
     ((\<exists>m. e = Panic m) \<or> (\<exists>w1 w2. ga_load api gn key w1 = (w2, Inl e))
      \<or> (\<exists>l w1 w2 err. ga_limit api l w1 = (w2, Some err) \<and> e = ErrorfW ''db load rate limited'' err))"

lemma PickPeerWithFallback_error: "PickPeerWithFallback k n r = Inl e \<Longrightarrow> \<exists>m. e = Panic m"
  by (auto simp: PickPeerWithFallback_def ring_GetN_def Let_def split: if_splits sum.splits)

lemma replicateToSecondaries_error: "replicateToSecondaries api gn key v w = (w', Some e) \<Longrightarrow> \<exists>m. e = Panic m"
  by (auto simp: replicateToSecondaries_def Let_def PickPeerWithFallback_error
      split: option.splits if_splits sum.splits)

lemma replicateIfHot_error: "replicateIfHot api gn key v w = (w', Some e) \<Longrightarrow> \<exists>m. e = Panic m"
  by (auto simp: replicateIfHot_def ReplicateCandidates_def Let_def PickPeerWithFallback_error
      split: option.splits if_splits sum.splits)

lemma getLocally_answer:
  assumes "getLocally api gn key w = Some (w', r)"
  shows "case r of Inr v \<Rightarrow> from_source api gn key v | Inl e \<Rightarrow> load_fails api gn key e"
proof -
  obtain w1 le where lim: "limiter_Wait api (g_dbLimiter (deref api gn w)) w = (w1, le)" by fastforce
  obtain w2 b where ld: "ga_load api gn key w1 = (w2, b)" by fastforce
  show ?thesis
  proof (cases le)
    case (Some err)
    then obtain l where "ga_limit api l w = (w1, Some err)"
      using lim by (auto simp: limiter_Wait_def split: option.splits)
    moreover have "r = Inl (ErrorfW ''db load rate limited'' err)"
      using assms lim Some by (simp add: getLocally_def)
    ultimately show ?thesis by (auto simp: load_fails_def)
  next
    case None
    have "b = Inr x \<Longrightarrow> from_source api gn key \<lparr>bv_b = x\<rparr>" for x using ld by (auto simp: from_source_def)
    moreover have "b = Inl e \<Longrightarrow> load_fails api gn key e" for e using ld by (auto simp: load_fails_def)
    moreover have "load_fails api gn key e" if "\<exists>m. e = Panic m" for e using that by (auto simp: load_fails_def)
    ultimately show ?thesis
      using assms lim ld None
      by (auto simp: getLocally_def Let_def dest: replicateToSecondaries_error replicateIfHot_error
          split: sum.splits option.splits prod.splits)
  qed
qed

lemma fetchFromPeer_answer:
  assumes "fetchFromPeer api gn pg key w = Some (w', Inr v)"
  shows "\<exists>req w1. rq_Key req = key \<and> ga_Get api (gg_addr pg) req w = Some (w1, Inr (bv_b v))"
  using assms
  by (auto simp: fetchFromPeer_def getter_Get_def split: option.splits sum.splits prod.splits)
    (metis Request.select_convs(2))

lemma try_peers_answer:
  "try_peers api gn key pgs w = Some (w', r) \<Longrightarrow>
    (case r of Inr v \<Rightarrow> from_source api gn key v \<or> (\<exists>pg req w1 w2. pg \<in> set pgs \<and> rq_Key req = key
        \<and> ga_Get api (gg_addr pg) req w1 = Some (w2, Inr (bv_b v)))
     | Inl e \<Rightarrow> load_fails api gn key e)"
proof (induction pgs arbitrary: w)
  case Nil
  then show ?case using getLocally_answer [of api gn key w w' r] by (auto split: sum.splits)
next
  case (Cons pg pgs)
  obtain w1 q where f: "fetchFromPeer api gn pg key w = Some (w1, q)"
    using Cons.prems by (auto split: option.splits)
  show ?case
  proof (cases q)
    case (Inl e)
    then show ?thesis using Cons.IH [of w1] Cons.prems f by (simp split: sum.splits) blast
  next
    case (Inr v)
    then obtain req w2 where "rq_Key req = key" "ga_Get api (gg_addr pg) req w = Some (w2, Inr (bv_b v))"
      using f fetchFromPeer_answer [of api gn pg key w w1 v] by auto
    moreover have "r = Inr v" using Cons.prems f Inr by simp
    moreover have "pg \<in> set (pg # pgs)" by simp
    ultimately show ?thesis by (simp only: sum.case) blast
  qed
qed

lemma load_answer:
  assumes "load api gn key w = Some (w', r)"
  shows "case r of Inr v \<Rightarrow> from_source api gn key v \<or> from_candidate api (deref api gn w) key v
    | Inl e \<Rightarrow> load_fails api gn key e"
proof (cases "g_registry (deref api gn w)")
  case None
  then show ?thesis using assms getLocally_answer [of api gn key w w' r] by (simp add: load_def split: sum.splits)
next
  case (Some reg)
  let ?p = "PickPeerWithFallback key (g_replicationFactor (deref api gn w)) reg"
  show ?thesis
  proof (cases ?p)
    case (Inl e)
    then show ?thesis
      using assms Some PickPeerWithFallback_error [OF Inl] by (auto simp: load_def load_fails_def)
  next
    case (Inr pgs)
    have "try_peers api gn key pgs w = Some (w', r)" using assms Some Inr by (simp add: load_def)
    from try_peers_answer [OF this] show ?thesis
      using Some Inr by (auto simp: from_candidate_def split: sum.splits)
  qed
qed

context cache_node
begin

lemma Get_answer:
  assumes "deref api gn w = g" "group_ok g" "key \<noteq> []" "group_Get api gn key w = Some (w', r)"
  shows "case r of
      Inr v \<Rightarrow> from_source api gn key v \<or> from_candidate api g key v \<or> (\<not> g_cacheDirty g \<and>
        (\<exists>e. cache_lookup (g_mainCache g) key = Some e \<and> \<not> expired (ga_now api w) e \<and> v = ce_value e))
    | Inl e \<Rightarrow> load_fails api gn key e"
proof -
  obtain g' q where l: "lookup_local (ga_now api w) key g = (g', q)" by fastforce
  show ?thesis
  proof (cases q)
    case None
    have "load api gn key (ga_put api gn g' w) = Some (w', r)"
      using assms l None by (simp add: group_Get_def)
    from load_answer [OF this] show ?thesis
      using lookup_local_fields [OF l]
      by (auto simp: deref_put from_candidate_def split: sum.splits)
  next
    case (Some v)
    then show ?thesis
      using assms l lookup_local_answer(3) [OF assms(2) l Some] by (auto simp: group_Get_def)
  qed
qed

text \<open>A value stored by another node is served from the local cache, without any call.\<close>

lemma replica_served:
  assumes "deref api gn w = g" "group_ok g" "\<not> g_cacheDirty g" "key \<noteq> []"
    "ca_cacheBytes (g_mainCache g) = 0 \<or> int (length key + length (bv_b v)) \<le> ca_cacheBytes (g_mainCache g)"
  shows "\<exists>c g'. StoreReplica api gn key v w = Some (ga_put api gn (g\<lparr>g_mainCache := c\<rparr>) w)
    \<and> group_Get api gn key (ga_put api gn (g\<lparr>g_mainCache := c\<rparr>) w) = Some (ga_put api gn g' w, Inr v)"
proof -
  have ok: "cache_ok (g_mainCache g)" using assms(2) by (simp add: group_ok_def)
  obtain c where c: "cache_add key v (g_mainCache g) = Some c" "cache_ok c"
    "cache_lookup c key = Some \<lparr>ce_value = v, ce_expiresAt = None\<rparr>"
    using cache_add_result [OF ok, of key v] assms(5) by metis
  obtain c1 where c1: "cache_get (ga_now api w) key c = (c1, Some v)"
    using cache_get_hit [OF c(2,3), of "ga_now api w"] by (auto simp: expired_def)
  have "StoreReplica api gn key v w = Some (ga_put api gn (g\<lparr>g_mainCache := c\<rparr>) w)"
    using assms(1) c(1) by (simp add: StoreReplica_def populateCache_def)
  moreover have "snd (lookup_local (ga_now api w) key (g\<lparr>g_mainCache := c\<rparr>)) = Some v"
    using assms(3) c1 by (simp add: lookup_local_def)
  moreover from this obtain g' where "lookup_local (ga_now api w) key (g\<lparr>g_mainCache := c\<rparr>) = (g', Some v)"
    by (metis prod.collapse)
  ultimately show ?thesis
    using assms(4) by (intro exI [of _ c] exI [of _ g']) (simp add: group_Get_def group_simps)
qed

end

section \<open>Only values of the source\<close>

text \<open>
  \<open>V gn key b\<close> says that the bytes \<open>b\<close> may be served for a key of a group, \<open>E\<close> are the names of the
  process's groups, and \<open>I\<close> is an invariant of the world. A group is safe when its cache holds
  permitted values only, a task when it carries one.
\<close>

definition group_safe :: "(string \<Rightarrow> string \<Rightarrow> string \<Rightarrow> bool) \<Rightarrow> string \<Rightarrow> Group \<Rightarrow> bool" where
  "group_safe V gn g = (g_name g = gn \<and> group_ok g
     \<and> (\<forall>k e. cache_lookup (g_mainCache g) k = Some e \<longrightarrow> V gn k (bv_b (ce_value e))))"

fun task_safe :: "(string \<Rightarrow> string \<Rightarrow> string \<Rightarrow> bool) \<Rightarrow> task \<Rightarrow> bool" where
  "task_safe V (PushSecondary pg gn key v) = V gn key (bv_b v)"
| "task_safe V (PushHot a gn key v) = V gn key (bv_b v)"
| "task_safe V (BroadcastTo pg gn key) = True"

lemma group_safe_cong:
  "group_safe V gn g \<Longrightarrow> g_name g' = g_name g \<Longrightarrow> g_mainCache g' = g_mainCache g
    \<Longrightarrow> 1 \<le> g_replicationFactor g' \<Longrightarrow> group_safe V gn g'"
  by (simp add: group_safe_def group_ok_def)

lemma group_safe_replication: "group_safe V gn g \<Longrightarrow> 1 \<le> g_replicationFactor g"
  by (simp add: group_safe_def group_ok_def)

lemma group_safe_smaller:
  assumes "group_safe V gn g" "g_name g' = g_name g" "group_ok g'"
    "cache_lookup (g_mainCache g') \<subseteq>\<^sub>m cache_lookup (g_mainCache g)"
  shows "group_safe V gn g'"
  using assms unfolding group_safe_def map_le_def by (metis domI)

lemma group_safe_lookup:
  "group_safe V gn g \<Longrightarrow> lookup_local now key g = (g', r) \<Longrightarrow>
     group_safe V gn g' \<and> (\<forall>v. r = Some v \<longrightarrow> V gn key (bv_b v))"
  using lookup_local_answer [of g now key g' r] lookup_local_fields(1) [of now key g g' r]
    group_safe_smaller [of V gn g g'] by (auto simp: group_safe_def)

lemma group_safe_delete:
  assumes "group_safe V gn g"
  shows "group_safe V gn (g\<lparr>g_mainCache := cache_delete key (g_mainCache g)\<rparr>)"
proof -
  have "cache_ok (g_mainCache g)" using assms by (simp add: group_safe_def group_ok_def)
  from cache_delete_coherent [OF this map_le_refl, of key]
  have d: "cache_ok (cache_delete key (g_mainCache g))"
    "cache_lookup (cache_delete key (g_mainCache g)) \<subseteq>\<^sub>m (cache_lookup (g_mainCache g))(key := None)" by auto
  have "cache_lookup (cache_delete key (g_mainCache g)) \<subseteq>\<^sub>m cache_lookup (g_mainCache g)"
    by (rule map_le_trans [OF d(2) upd_None_map_le])
  then show ?thesis
    by (intro group_safe_smaller [OF assms]) (use d(1) assms in \<open>simp_all add: group_safe_def group_ok_def\<close>)
qed

lemma group_safe_add:
  assumes "group_safe V gn g" "V gn key (bv_b v)" "cache_add key v (g_mainCache g) = Some c"
  shows "group_safe V gn (g\<lparr>g_mainCache := c\<rparr>)"
proof -
  have "cache_ok (g_mainCache g)" using assms by (simp add: group_safe_def group_ok_def)
  then obtain c' where c': "cache_add key v (g_mainCache g) = Some c'" "cache_ok c'"
    "cache_lookup c' \<subseteq>\<^sub>m (cache_lookup (g_mainCache g))(key \<mapsto> \<lparr>ce_value = v, ce_expiresAt = None\<rparr>)"
    using cache_add_result [of "g_mainCache g" key v] by metis
  have "V gn k (bv_b (ce_value e))" if "cache_lookup c' k = Some e" for k e
  proof -
    have "((cache_lookup (g_mainCache g))(key \<mapsto> \<lparr>ce_value = v, ce_expiresAt = None\<rparr>)) k = Some e"
      using c'(3) that unfolding map_le_def by (metis domI)
    then show ?thesis using assms(1,2) by (auto simp: group_safe_def split: if_splits)
  qed
  then show ?thesis using assms c'(1,2) by (simp add: group_safe_def group_ok_def)
qed

lemma service_handler_result:
  assumes "service_handler meth (Inr req) w = Some (w', r)"
  obtains q where "meth req w = Some (w', q)" "\<And>b. r = Inr b \<Longrightarrow> q = Inr b"
proof -
  have h: "recoveryInterceptor (meth req) w = Some (w', r)"
    using assms by (simp add: service_handler_def loggingInterceptor_def [abs_def])
  then obtain w1 q where q: "meth req w = Some (w1, q)" by (cases "meth req w") (auto simp: recoveryInterceptor_def)
  have "w1 = w' \<and> (\<forall>b. r = Inr b \<longrightarrow> q = Inr b)"
  proof (cases q)
    case (Inl e)
    then show ?thesis using h q by (cases e) (auto simp: recoveryInterceptor_def)
  qed (use h q in \<open>auto simp: recoveryInterceptor_def\<close>)
  then show thesis using that q by blast
qed

locale safe_node = cache_node api for api :: "'w cache_api" +
  fixes I :: "'w \<Rightarrow> bool" and V :: "string \<Rightarrow> string \<Rightarrow> string \<Rightarrow> bool" and E :: "string set"
  assumes I_group: "I w \<Longrightarrow> gn \<in> E \<Longrightarrow> \<exists>g. ga_group api gn w = Some g \<and> group_safe V gn g"
    and I_dom: "I w \<Longrightarrow> ga_group api gn w = Some g \<Longrightarrow> gn \<in> E"
    and I_put: "I w \<Longrightarrow> gn \<in> E \<Longrightarrow> group_safe V gn g \<Longrightarrow> I (ga_put api gn g w)"
    and I_go: "I w \<Longrightarrow> task_safe V t \<Longrightarrow> I (ga_go api t w)"
    and I_limit: "I w \<Longrightarrow> I (fst (ga_limit api l w))"
    and I_load: "I w \<Longrightarrow> ga_load api gn key w = (w', r) \<Longrightarrow> I w' \<and> (\<forall>b. r = Inr b \<longrightarrow> V gn key b)"
    and I_Get: "I w \<Longrightarrow> ga_Get api a req w = Some (w', r)
      \<Longrightarrow> I w' \<and> (\<forall>b. r = Inr b \<longrightarrow> V (rq_Group req) (rq_Key req) b)"
    and I_Push: "I w \<Longrightarrow> V (pr_Group p) (pr_Key p) (pr_Value p) \<Longrightarrow> ga_Push api a p w = Some (w', e) \<Longrightarrow> I w'"
    and I_Invalidate: "I w \<Longrightarrow> ga_Invalidate api a req w = Some (w', e) \<Longrightarrow> I w'"
begin

lemma deref_safe: "I w \<Longrightarrow> gn \<in> E \<Longrightarrow> group_safe V gn (deref api gn w)"
  using I_group [of w gn] by (auto simp: deref_def)

lemma populateCache_safe:
  assumes "I w" "gn \<in> E" "V gn key (bv_b v)" "populateCache api gn key v w = Some w'"
  shows "I w'"
proof -
  obtain c where c: "cache_add key v (g_mainCache (deref api gn w)) = Some c"
    "w' = ga_put api gn ((deref api gn w)\<lparr>g_mainCache := c\<rparr>) w"
    using assms(4) by (auto simp: populateCache_def Let_def split: option.splits)
  show ?thesis
    unfolding c(2) using I_put group_safe_add [OF deref_safe [OF assms(1,2)] assms(3) c(1)] assms(1,2) by blast
qed

lemma fetchFromPeer_safe:
  assumes "I w" "gn \<in> E" "fetchFromPeer api gn pg key w = Some (w', r)"
  shows "I w' \<and> (\<forall>v. r = Inr v \<longrightarrow> V gn key (bv_b v))"
proof -
  let ?req = "\<lparr>rq_Group = g_name (deref api gn w), rq_Key = key\<rparr>"
  have n: "g_name (deref api gn w) = gn" using deref_safe [OF assms(1,2)] by (simp add: group_safe_def)
  obtain w1 q where g: "ga_Get api (gg_addr pg) ?req w = Some (w1, q)"
    using assms(3) by (auto simp: fetchFromPeer_def getter_Get_def split: option.splits)
  note G = I_Get [OF assms(1) g]
  show ?thesis
  proof (cases q)
    case (Inl e)
    then show ?thesis using assms(3) g G by (auto simp: fetchFromPeer_def getter_Get_def)
  next
    case (Inr b)
    then have "V gn key b" using G n by simp
    then show ?thesis
      using assms(3) g G Inr populateCache_safe [of w1 gn key "\<lparr>bv_b = b\<rparr>"] assms(2)
      by (auto simp: fetchFromPeer_def getter_Get_def split: option.splits)
  qed
qed

lemma push_first_safe: "I w \<Longrightarrow> V gn key (bv_b v) \<Longrightarrow> I (push_first api gn l key v pgs w)"
  by (induction pgs) (simp_all add: I_go)

lemma replicateToSecondaries_safe:
  "I w \<Longrightarrow> V gn key (bv_b v) \<Longrightarrow> replicateToSecondaries api gn key v w = (w', e) \<Longrightarrow> I w'"
  by (auto simp: replicateToSecondaries_def Let_def push_first_safe split: option.splits if_splits sum.splits)

lemma fold_go_safe: "I w \<Longrightarrow> (\<And>x. task_safe V (f x)) \<Longrightarrow> I (fold (\<lambda>x. ga_go api (f x)) xs w)"
  by (induction xs arbitrary: w) (simp_all add: I_go)

lemma replicateIfHot_safe:
  "I w \<Longrightarrow> V gn key (bv_b v) \<Longrightarrow> replicateIfHot api gn key v w = (w', e) \<Longrightarrow> I w'"
  by (auto simp: replicateIfHot_def Let_def fold_go_safe split: if_splits sum.splits)

lemma getLocally_safe:
  assumes "I w" "gn \<in> E" "getLocally api gn key w = Some (w', r)"
  shows "I w' \<and> (\<forall>v. r = Inr v \<longrightarrow> V gn key (bv_b v))"
proof -
  obtain w1 le where lim: "limiter_Wait api (g_dbLimiter (deref api gn w)) w = (w1, le)" by fastforce
  have I1: "I w1"
    using lim assms(1) I_limit [OF assms(1)] by (auto simp: limiter_Wait_def split: option.splits) (metis fst_conv)
  obtain w2 b where ld: "ga_load api gn key w1 = (w2, b)" by fastforce
  note L = I_load [OF I1 ld]
  show ?thesis
  proof (cases "\<exists>x. le = None \<and> b = Inr x")
    case False
    then show ?thesis
      using assms(3) lim ld I1 L by (cases le; cases b) (auto simp: getLocally_def)
  next
    case True
    then obtain x where x: "le = None" "b = Inr x" by blast
    then have V: "V gn key x" using L by simp
    have 3: "I w3" if "populateCache api gn key \<lparr>bv_b = x\<rparr> w2 = Some w3" for w3
      using populateCache_safe [OF _ assms(2) _ that] L V by simp
    have 4: "I w4" if "I w3" "replicateToSecondaries api gn key \<lparr>bv_b = x\<rparr> w3 = (w4, e)" for w3 w4 e
      using replicateToSecondaries_safe [OF that(1) _ that(2)] V by simp
    have 5: "I w5" if "I w4" "replicateIfHot api gn key \<lparr>bv_b = x\<rparr> w4 = (w5, e)" for w4 w5 e
      using replicateIfHot_safe [OF that(1) _ that(2)] V by simp
    show ?thesis
      using assms(3) lim ld x V
      by (auto simp: getLocally_def Let_def dest: 3 4 5 split: option.splits prod.splits)
  qed
qed

text \<open>The data source always answers, so a local load returns.\<close>

lemma populateCache_returns:
  assumes "I w" "gn \<in> E"
  shows "\<exists>w'. populateCache api gn key v w = Some w'"
proof -
  have "cache_ok (g_mainCache (deref api gn w))" using deref_safe [OF assms] by (simp add: group_safe_def group_ok_def)
  then obtain c where "cache_add key v (g_mainCache (deref api gn w)) = Some c"
    using cache_add_result [of _ key v] by metis
  then show ?thesis by (simp add: populateCache_def Let_def)
qed

lemma getLocally_returns:
  assumes "I w" "gn \<in> E"
  shows "\<exists>w' r. getLocally api gn key w = Some (w', r)"
proof -
  obtain w1 le where lim: "limiter_Wait api (g_dbLimiter (deref api gn w)) w = (w1, le)" by fastforce
  have I1: "I w1"
    using lim assms(1) I_limit [OF assms(1)] by (auto simp: limiter_Wait_def split: option.splits) (metis fst_conv)
  obtain w2 b where ld: "ga_load api gn key w1 = (w2, b)" by fastforce
  have "\<exists>w'. populateCache api gn key v w2 = Some w'" for v
    using populateCache_returns [OF _ assms(2)] I_load [OF I1 ld] by blast
  then show ?thesis
    using lim ld
    by (cases le; cases b) (auto simp: getLocally_def Let_def split: option.splits prod.splits)
qed

lemma try_one_returns:
  assumes "I w" "gn \<in> E" "ga_Get api (gg_addr pg) \<lparr>rq_Group = gn, rq_Key = key\<rparr> w = Some (w1, q)"
  shows "\<exists>w' r. try_peers api gn key [pg] w = Some (w', r)"
proof -
  have n: "g_name (deref api gn w) = gn" using deref_safe [OF assms(1,2)] by (simp add: group_safe_def)
  have I1: "I w1" using I_Get [OF assms(1,3)] by blast
  show ?thesis
  proof (cases q)
    case (Inl e)
    then show ?thesis
      using getLocally_returns [OF I1 assms(2), of key] n assms(3) by (auto simp: fetchFromPeer_def getter_Get_def)
  next
    case (Inr b)
    then show ?thesis
      using populateCache_returns [OF I1 assms(2), of key "\<lparr>bv_b = b\<rparr>"] n assms(3)
      by (auto simp: fetchFromPeer_def getter_Get_def)
  qed
qed

lemma try_peers_safe:
  "I w \<Longrightarrow> gn \<in> E \<Longrightarrow> try_peers api gn key pgs w = Some (w', r)
    \<Longrightarrow> I w' \<and> (\<forall>v. r = Inr v \<longrightarrow> V gn key (bv_b v))"
proof (induction pgs arbitrary: w)
  case Nil
  then show ?case using getLocally_safe by simp
next
  case (Cons pg pgs)
  obtain w1 q where f: "fetchFromPeer api gn pg key w = Some (w1, q)"
    using Cons.prems(3) by (auto split: option.splits)
  then show ?case
    using Cons fetchFromPeer_safe [OF Cons.prems(1,2) f] by (cases q) auto
qed

lemma Get_safe:
  assumes "I w" "gn \<in> E" "group_Get api gn key w = Some (w', r)"
  shows "I w' \<and> (\<forall>v. r = Inr v \<longrightarrow> V gn key (bv_b v))"
proof -
  obtain g q where l: "lookup_local (ga_now api w) key (deref api gn w) = (g, q)" by fastforce
  note G = group_safe_lookup [OF deref_safe [OF assms(1,2)] l]
  have I1: "I (ga_put api gn g w)" using I_put assms(1,2) G by blast
  have "I w' \<and> (\<forall>v. r = Inr v \<longrightarrow> V gn key (bv_b v))" if "load api gn key (ga_put api gn g w) = Some (w', r)"
    using that I1 assms(2) getLocally_safe [OF I1 assms(2)] try_peers_safe [OF I1 assms(2)]
    by (auto simp: load_def Let_def split: option.splits sum.splits)
  then show ?thesis
    using assms l G I1 by (cases q) (auto simp: group_Get_def split: if_splits)
qed

lemma DeleteLocal_safe: "I w \<Longrightarrow> gn \<in> E \<Longrightarrow> I (group_DeleteLocal api gn key w)"
  using I_put group_safe_delete deref_safe by (simp add: group_DeleteLocal_def Let_def)

lemma Delete_safe: "I w \<Longrightarrow> gn \<in> E \<Longrightarrow> I (group_Delete api gn key w)"
  using I_put group_safe_delete deref_safe
  by (auto simp: group_Delete_def BroadcastInvalidation_def Let_def intro!: fold_go_safe split: option.splits)

text \<open>The operations that set one field of a group other than its name and its cache.\<close>

lemma put_field_safe:
  assumes "I w" "gn \<in> E" "g_name g = g_name (deref api gn w)" "g_mainCache g = g_mainCache (deref api gn w)"
    "1 \<le> g_replicationFactor g \<or> g_replicationFactor g = g_replicationFactor (deref api gn w)"
  shows "I (ga_put api gn g w)"
  using deref_safe [OF assms(1,2)] group_safe_replication [OF deref_safe [OF assms(1,2)]] assms(3-5)
  by (intro I_put [OF assms(1,2)] group_safe_cong [OF deref_safe [OF assms(1,2)]]) auto

lemma mark_safe: "I w \<Longrightarrow> gn \<in> E \<Longrightarrow> I (markSlotMigrated api gn s w)"
  unfolding markSlotMigrated_def by (rule put_field_safe) simp_all

lemma setters_safe:
  assumes "I w" "gn \<in> E"
  shows "I (SetRegistry api gn r w)" "I (SetReplicationFactor api gn n w)" "I (SetHotKeyTracker api gn t w)"
    "I (SetDBLimiter api gn l w)" "I (fst (RegisterPeers api gn p w))"
  using assms
  by (auto simp: SetRegistry_def SetReplicationFactor_def SetHotKeyTracker_def SetDBLimiter_def RegisterPeers_def
      Let_def intro!: put_field_safe)

lemma InvalidateSlots_safe:
  assumes "I w" "set (si_groups si) \<subseteq> E"
  shows "I (InvalidateSlots api si a b w)"
proof -
  have m: "I w \<Longrightarrow> gn \<in> E \<Longrightarrow> I (fold (markSlotMigrated api gn) ss w)" for gn ss w
    by (induction ss arbitrary: w) (simp_all add: mark_safe)
  have "I w \<Longrightarrow> set gs \<subseteq> E \<Longrightarrow> I (fold (\<lambda>gn. fold (markSlotMigrated api gn) [a..b]) gs w)" for gs
    by (induction gs arbitrary: w) (simp_all add: m)
  then show ?thesis using assms by (simp add: InvalidateSlots_def)
qed

lemma service_Get_safe:
  assumes "I w" "service_handler (service_Get api) (Inr req) w = Some (w', r)"
  shows "I w' \<and> (\<forall>b. r = Inr b \<longrightarrow> V (rq_Group req) (rq_Key req) b)"
proof -
  obtain q where q: "service_Get api req w = Some (w', q)" "\<And>b. r = Inr b \<Longrightarrow> q = Inr b"
    using service_handler_result [OF assms(2)] by blast
  show ?thesis
  proof (cases "ga_group api (rq_Group req) w")
    case None
    then show ?thesis using assms(1) q by (auto simp: service_Get_def CacheServiceAdapter_Get_def GetGroup_def)
  next
    case (Some g)
    then obtain p where p: "group_Get api (rq_Group req) (rq_Key req) w = Some (w', p)" "q = map_sum id bv_b p"
      using q(1) by (auto simp: service_Get_def CacheServiceAdapter_Get_def GetGroup_def split: option.splits sum.splits)
    show ?thesis using Get_safe [OF assms(1) I_dom [OF assms(1) Some] p(1)] p(2) q(2) by (cases p) auto
  qed
qed

lemma service_Push_safe:
  assumes "I w" "V (pr_Group req) (pr_Key req) (pr_Value req)"
    "service_handler (service_Push api) (Inr req) w = Some (w', r)"
  shows "I w'"
proof -
  obtain q where q: "service_Push api req w = Some (w', q)" using service_handler_result [OF assms(3)] by blast
  show ?thesis
  proof (cases "ga_group api (pr_Group req) w")
    case None
    then show ?thesis
      using assms(1) q by (simp add: service_Push_def CacheServiceAdapter_PushReplica_def GetGroup_def)
  next
    case (Some g)
    then have "populateCache api (pr_Group req) (pr_Key req) \<lparr>bv_b = pr_Value req\<rparr> w = Some w'"
      using q by (simp add: service_Push_def CacheServiceAdapter_PushReplica_def StoreReplica_def GetGroup_def
          split: option.splits)
    from populateCache_safe [OF assms(1) I_dom [OF assms(1) Some] _ this] show ?thesis using assms(2) by simp
  qed
qed

lemma service_Invalidate_safe:
  assumes "I w" "service_handler (service_Invalidate api) (Inr req) w = Some (w', r)"
  shows "I w'"
proof -
  obtain q where q: "service_Invalidate api req w = Some (w', q)" using service_handler_result [OF assms(2)] by blast
  show ?thesis
  proof (cases "ga_group api (rq_Group req) w")
    case None
    then show ?thesis using assms(1) q by (simp add: service_Invalidate_def CacheServiceAdapter_Delete_def GetGroup_def)
  next
    case (Some g)
    then have "w' = group_DeleteLocal api (rq_Group req) (rq_Key req) w"
      using q by (simp add: service_Invalidate_def CacheServiceAdapter_Delete_def GetGroup_def)
    then show ?thesis using DeleteLocal_safe [OF assms(1) I_dom [OF assms(1) Some]] by simp
  qed
qed

lemma getter_PushReplica_safe:
  assumes "I w" "V gn key b" "getter_PushReplica api pg gn key b w = Some (w', e)"
  shows "I w'"
  using assms I_Push [of w "\<lparr>pr_Group = gn, pr_Key = key, pr_Value = b\<rparr>"]
  by (auto simp: getter_PushReplica_def split: option.splits)

lemma run_task_safe:
  assumes "I w" "task_safe V t" "run_task api t w = Some (w', e)"
  shows "I w'"
proof (cases t)
  case (BroadcastTo pg gn key)
  then show ?thesis
    using assms I_Invalidate by (auto simp: getter_Invalidate_def split: option.splits)
next
  case (PushSecondary pg gn key v)
  then show ?thesis using assms getter_PushReplica_safe by auto
next
  case (PushHot a gn key v)
  then show ?thesis
    using assms getter_PushReplica_safe by (auto split: option.splits)
qed

end

end
