(* ===== verification/Cache_Network.thy ===== *)
theory Cache_Network
  imports Group_Cache
begin

text \<open>
  The cache nodes of a cluster together. A node is its address; the network holds the groups of every
  node, the goroutines that were started and have not run yet, the clock, and the outcomes of the coming
  waits for the rate limiter and of the coming transmissions, which are arbitrary. A call to a node runs
  the gRPC handler of that node. The handler of \<^verbatim>\<open>Get\<close> may call further nodes, so
  \<open>net_Get\<close> takes the number of calls that may be nested in each other; deeper calls do not return.

  One operation of a node, with the calls it makes, is one step of the network. Goroutines
  run between steps, in any order.
\<close>

section \<open>State\<close>

record network =
  nw_groups :: "string \<Rightarrow> string \<Rightarrow> Group option"
  nw_tasks :: "(string \<times> task) list"
  nw_now :: int
  nw_waits :: "go_err list"
  nw_faults :: "go_err list"

text \<open>The next outcome; when none is given, it is success.\<close>

definition next_outcome :: "go_err list \<Rightarrow> go_err" where
  "next_outcome es = (case es of [] \<Rightarrow> None | e # _ \<Rightarrow> e)"

text \<open>The getter that \<^verbatim>\<open>createGroup\<close> of \<^verbatim>\<open>starter.go\<close> makes from the table of a node.\<close>

definition source_getter :: "(string \<Rightarrow> string option) \<Rightarrow> string \<Rightarrow> string go_result" where
  "source_getter DB key = (case DB key of Some v \<Rightarrow> Inr v | None \<Rightarrow> Inl (Errorf ''not exist''))"

section \<open>Nodes\<close>

text \<open>What a node does by itself. The handlers of \<^verbatim>\<open>Push\<close> and \<^verbatim>\<open>Invalidate\<close> call no other node.\<close>

definition local_api :: "(string \<Rightarrow> string \<Rightarrow> string option) \<Rightarrow> string \<Rightarrow> network cache_api" where
  "local_api db a =
     \<lparr>ga_group = (\<lambda>gn w. nw_groups w a gn),
      ga_put = (\<lambda>gn g w. w\<lparr>nw_groups := (nw_groups w)(a := (nw_groups w a)(gn \<mapsto> g))\<rparr>),
      ga_now = nw_now,
      ga_load = (\<lambda>gn key w. (w, source_getter (db a) key)),
      ga_limit = (\<lambda>l w. (w\<lparr>nw_waits := tl (nw_waits w)\<rparr>, next_outcome (nw_waits w))),
      ga_go = (\<lambda>t w. w\<lparr>nw_tasks := nw_tasks w @ [(a, t)]\<rparr>),
      ga_Get = (\<lambda>b req w. None), ga_Push = (\<lambda>b req w. None), ga_Invalidate = (\<lambda>b req w. None)\<rparr>"

text \<open>A transmission fails with the next fault, or the handler runs.\<close>

definition wire :: "(network \<Rightarrow> (network \<times> 'a go_result) option) \<Rightarrow> network \<Rightarrow> (network \<times> 'a go_result) option" where
  "wire handler w =
     (let w1 = w\<lparr>nw_faults := tl (nw_faults w)\<rparr>
      in case next_outcome (nw_faults w) of Some e \<Rightarrow> Some (w1, Inl e) | None \<Rightarrow> handler w1)"

definition only_err :: "(network \<times> 'a go_result) option \<Rightarrow> (network \<times> go_err) option" where
  "only_err = map_option (map_prod id (case_sum Some (\<lambda>_. None)))"

definition node_api ::
  "(string \<Rightarrow> string \<Rightarrow> string option) \<Rightarrow> (string \<Rightarrow> Request \<Rightarrow> network \<Rightarrow> (network \<times> string go_result) option)
   \<Rightarrow> string \<Rightarrow> network cache_api" where
  "node_api db call a = (local_api db a)
     \<lparr>ga_Get := call,
      ga_Push := (\<lambda>b req w. only_err (wire (service_handler (service_Push (local_api db b)) (Inr req)) w)),
      ga_Invalidate := (\<lambda>b req w. only_err (wire (service_handler (service_Invalidate (local_api db b)) (Inr req)) w))\<rparr>"

fun net_Get ::
  "(string \<Rightarrow> string \<Rightarrow> string option) \<Rightarrow> nat \<Rightarrow> string \<Rightarrow> Request \<Rightarrow> network \<Rightarrow> (network \<times> string go_result) option" where
  "net_Get db 0 b req w = None"
| "net_Get db (Suc n) b req w =
     wire (service_handler (service_Get (node_api db (net_Get db n) b)) (Inr req)) w"

abbreviation node :: "(string \<Rightarrow> string \<Rightarrow> string option) \<Rightarrow> nat \<Rightarrow> string \<Rightarrow> network cache_api" where
  "node db n a \<equiv> node_api db (net_Get db n) a"

text \<open>Running all goroutines that are waiting now, in the order they were started.\<close>

fun run_tasks :: "(string \<Rightarrow> network cache_api) \<Rightarrow> (string \<times> task) list \<Rightarrow> network \<Rightarrow> network option" where
  "run_tasks api [] w = Some w"
| "run_tasks api ((a, t) # ts) w =
     (case run_task (api a) t w of None \<Rightarrow> None | Some (w1, _) \<Rightarrow> run_tasks api ts w1)"

section \<open>The laws of a node\<close>

lemma local_api_simps [simp]:
  "ga_group (local_api db a) gn w = nw_groups w a gn"
  "ga_put (local_api db a) gn g w = w\<lparr>nw_groups := (nw_groups w)(a := (nw_groups w a)(gn \<mapsto> g))\<rparr>"
  "ga_now (local_api db a) = nw_now"
  "ga_load (local_api db a) gn key w = (w, source_getter (db a) key)"
  "ga_limit (local_api db a) l w = (w\<lparr>nw_waits := tl (nw_waits w)\<rparr>, next_outcome (nw_waits w))"
  "ga_go (local_api db a) t w = w\<lparr>nw_tasks := nw_tasks w @ [(a, t)]\<rparr>"
  "ga_Get (local_api db a) b rq w = None" "ga_Push (local_api db a) b p w = None"
  "ga_Invalidate (local_api db a) b rq w = None"
  by (simp_all add: local_api_def)

lemma node_api_simps [simp]:
  "ga_group (node_api db call a) = ga_group (local_api db a)"
  "ga_put (node_api db call a) = ga_put (local_api db a)"
  "ga_now (node_api db call a) = ga_now (local_api db a)"
  "ga_load (node_api db call a) = ga_load (local_api db a)"
  "ga_limit (node_api db call a) = ga_limit (local_api db a)"
  "ga_go (node_api db call a) = ga_go (local_api db a)"
  "ga_Get (node_api db call a) = call"
  "ga_Push (node_api db call a) b p w = only_err (wire (service_handler (service_Push (local_api db b)) (Inr p)) w)"
  "ga_Invalidate (node_api db call a) b rq w =
     only_err (wire (service_handler (service_Invalidate (local_api db b)) (Inr rq)) w)"
  by (simp_all add: node_api_def local_api_def)

lemma local_node: "cache_node (local_api db a)"
  by unfold_locales (auto simp: fun_upd_twist intro!: arg_cong [where f = "\<lambda>gs. _\<lparr>nw_groups := gs\<rparr>"])

interpretation net: cache_node "node_api db call a" for db call a
  using local_node [of db a] unfolding cache_node_def by simp

section \<open>Safety\<close>

text \<open>The values that the table of some node holds for a key.\<close>

definition served :: "(string \<Rightarrow> string \<Rightarrow> string option) \<Rightarrow> string \<Rightarrow> string \<Rightarrow> string \<Rightarrow> bool" where
  "served db gn key b = (\<exists>a. db a key = Some b)"

definition net_inv ::
  "(string \<Rightarrow> string \<Rightarrow> string option) \<Rightarrow> (string \<Rightarrow> string set) \<Rightarrow> network \<Rightarrow> bool" where
  "net_inv db E w =
     ((\<forall>a gn. case nw_groups w a gn of None \<Rightarrow> gn \<notin> E a | Some g \<Rightarrow> gn \<in> E a \<and> group_safe (served db) gn g)
      \<and> (\<forall>(a, t) \<in> set (nw_tasks w). task_safe (served db) t))"

lemma net_inv_put:
  assumes "net_inv db E w" "gn \<in> E a" "group_safe (served db) gn g"
  shows "net_inv db E (w\<lparr>nw_groups := (nw_groups w)(a := (nw_groups w a)(gn \<mapsto> g))\<rparr>)"
  using assms by (simp add: net_inv_def)

lemma net_inv_env [simp]:
  "net_inv db E (w\<lparr>nw_waits := ws\<rparr>) = net_inv db E w" "net_inv db E (w\<lparr>nw_faults := fs\<rparr>) = net_inv db E w"
  "net_inv db E (w\<lparr>nw_now := t\<rparr>) = net_inv db E w"
  by (simp_all add: net_inv_def)

lemma net_inv_group: "net_inv db E w \<Longrightarrow> nw_groups w a gn = Some g \<Longrightarrow> gn \<in> E a \<and> group_safe (served db) gn g"
  unfolding net_inv_def by (metis option.simps(5))

lemma net_inv_exists: "net_inv db E w \<Longrightarrow> gn \<in> E a \<Longrightarrow> \<exists>g. nw_groups w a gn = Some g"
  unfolding net_inv_def by (metis option.simps(4) not_None_eq)

lemma net_inv_tasks: "net_inv db E w \<Longrightarrow> set ts \<subseteq> set (nw_tasks w) \<Longrightarrow> net_inv db E (w\<lparr>nw_tasks := ts\<rparr>)"
  by (auto simp: net_inv_def)

lemma source_served: "source_getter (db a) key = Inr b \<Longrightarrow> served db gn key b"
  by (auto simp: source_getter_def served_def split: option.splits)

text \<open>The laws of a safe node hold for any way to call the others that keeps the invariant.\<close>

definition safe_call ::
  "(network \<Rightarrow> bool) \<Rightarrow> (string \<Rightarrow> string \<Rightarrow> string \<Rightarrow> bool)
   \<Rightarrow> (string \<Rightarrow> Request \<Rightarrow> network \<Rightarrow> (network \<times> string go_result) option) \<Rightarrow> bool" where
  "safe_call I V call = (\<forall>b req w w' r. I w \<longrightarrow> call b req w = Some (w', r)
     \<longrightarrow> I w' \<and> (\<forall>x. r = Inr x \<longrightarrow> V (rq_Group req) (rq_Key req) x))"

lemma local_safe: "safe_node (local_api db a) (net_inv db E) (served db) (E a)"
proof (intro safe_node.intro local_node safe_node_axioms.intro)
  show "net_inv db E (ga_put (local_api db a) gn g w)"
    if "net_inv db E w" "gn \<in> E a" "group_safe (served db) gn g" for gn g w
    using net_inv_put [OF that] by simp
  show "net_inv db E (ga_go (local_api db a) t w)" if "net_inv db E w" "task_safe (served db) t" for t w
    using that by (auto simp: net_inv_def)
  show "\<exists>g. ga_group (local_api db a) gn w = Some g \<and> group_safe (served db) gn g"
    if "net_inv db E w" "gn \<in> E a" for gn w
    using net_inv_exists [OF that] net_inv_group [OF that(1)] by auto
qed (auto simp: net_inv_group source_served)

lemma wire_cases:
  assumes "net_inv db E w" "wire h w = Some (w', r)"
  obtains e where "net_inv db E w'" "r = Inl e" | w1 where "net_inv db E w1" "h w1 = Some (w', r)"
proof (cases "next_outcome (nw_faults w)")
  case None
  then have "h (w\<lparr>nw_faults := tl (nw_faults w)\<rparr>) = Some (w', r)" using assms(2) by (simp add: wire_def Let_def)
  then show thesis using that(2) [of "w\<lparr>nw_faults := tl (nw_faults w)\<rparr>"] assms(1) by simp
next
  case (Some e)
  then show thesis using that(1) assms by (auto simp: wire_def Let_def)
qed

lemma wire_safe:
  assumes "net_inv db E w" "only_err (wire h w) = Some (w', e)"
    "\<And>w1 r. net_inv db E w1 \<Longrightarrow> h w1 = Some (w', r) \<Longrightarrow> net_inv db E w'"
  shows "net_inv db E w'"
proof -
  obtain r where "wire h w = Some (w', r)" using assms(2) by (auto simp: only_err_def)
  with assms(1) show ?thesis by (cases rule: wire_cases) (simp, rule assms(3))
qed

lemma node_safe:
  assumes "safe_call (net_inv db E) (served db) call"
  shows "safe_node (node_api db call a) (net_inv db E) (served db) (E a)"
proof (intro safe_node.intro net.cache_node_axioms safe_node_axioms.intro)
  note L = safe_node.I_group [OF local_safe] safe_node.I_dom [OF local_safe] safe_node.I_put [OF local_safe]
    safe_node.I_go [OF local_safe] safe_node.I_limit [OF local_safe] safe_node.I_load [OF local_safe]
  show "\<And>w gn. net_inv db E w \<Longrightarrow> gn \<in> E a
      \<Longrightarrow> \<exists>g. ga_group (node_api db call a) gn w = Some g \<and> group_safe (served db) gn g"
    using L(1) by simp
  show "\<And>w gn g. net_inv db E w \<Longrightarrow> ga_group (node_api db call a) gn w = Some g \<Longrightarrow> gn \<in> E a"
    using L(2) by simp
  show "\<And>w gn g. net_inv db E w \<Longrightarrow> gn \<in> E a \<Longrightarrow> group_safe (served db) gn g
      \<Longrightarrow> net_inv db E (ga_put (node_api db call a) gn g w)"
    using L(3) by (simp del: local_api_simps)
  show "\<And>w t. net_inv db E w \<Longrightarrow> task_safe (served db) t \<Longrightarrow> net_inv db E (ga_go (node_api db call a) t w)"
    using L(4) by (simp del: local_api_simps)
  show "\<And>w l. net_inv db E w \<Longrightarrow> net_inv db E (fst (ga_limit (node_api db call a) l w))"
    using L(5) by (simp del: local_api_simps)
  show "\<And>w gn key w' r. net_inv db E w \<Longrightarrow> ga_load (node_api db call a) gn key w = (w', r)
      \<Longrightarrow> net_inv db E w' \<and> (\<forall>b. r = Inr b \<longrightarrow> served db gn key b)"
    using L(6) by (simp del: local_api_simps)
  show "\<And>w b req w' r. net_inv db E w \<Longrightarrow> ga_Get (node_api db call a) b req w = Some (w', r)
      \<Longrightarrow> net_inv db E w' \<and> (\<forall>x. r = Inr x \<longrightarrow> served db (rq_Group req) (rq_Key req) x)"
    using assms by (simp add: safe_call_def)
  show "net_inv db E w'" if "net_inv db E w" "served db (pr_Group p) (pr_Key p) (pr_Value p)"
      "ga_Push (node_api db call a) b p w = Some (w', e)" for w p b w' e
  proof (rule wire_safe [OF that(1)])
    show "only_err (wire (service_handler (service_Push (local_api db b)) (Inr p)) w) = Some (w', e)"
      using that(3) by simp
  qed (rule safe_node.service_Push_safe [OF local_safe _ that(2)])
  show "net_inv db E w'" if "net_inv db E w" "ga_Invalidate (node_api db call a) b req w = Some (w', e)" for w b req w' e
  proof (rule wire_safe [OF that(1)])
    show "only_err (wire (service_handler (service_Invalidate (local_api db b)) (Inr req)) w) = Some (w', e)"
      using that(2) by simp
  qed (rule safe_node.service_Invalidate_safe [OF local_safe])
qed

lemma net_Get_safe: "safe_call (net_inv db E) (served db) (net_Get db n)"
proof (induction n)
  case 0
  then show ?case by (simp add: safe_call_def)
next
  case (Suc n)
  show ?case
    unfolding safe_call_def
  proof (intro allI impI)
    fix b req w w' r
    assume I: "net_inv db E w" and g: "net_Get db (Suc n) b req w = Some (w', r)"
    from g have "wire (service_handler (service_Get (node db n b)) (Inr req)) w = Some (w', r)" by simp
    with I show "net_inv db E w' \<and> (\<forall>x. r = Inr x \<longrightarrow> served db (rq_Group req) (rq_Key req) x)"
      by (cases rule: wire_cases) (simp, rule safe_node.service_Get_safe [OF node_safe [OF Suc.IH, of b]])
  qed
qed

interpretation net: safe_node "node db n a" "net_inv db E" "served db" "E a" for db n a E
  by (rule node_safe [OF net_Get_safe])

section \<open>Runs of the network\<close>

text \<open>
  A step is an operation on an existing group of a node, a goroutine, or a change of the
  environment. A registry and a tracker are shared with goroutines that change them (membership events,
  pruning), so they may be replaced by any other at any time.
\<close>

inductive net_step :: "(string \<Rightarrow> string \<Rightarrow> string option) \<Rightarrow> network \<Rightarrow> network \<Rightarrow> bool"
  for db :: "string \<Rightarrow> string \<Rightarrow> string option" where
  create: "nw_groups w a name = None \<Longrightarrow> 0 \<le> bytes \<Longrightarrow> NewGroup (node db n a) name bytes (Some ()) w = (w', r)
    \<Longrightarrow> net_step db w w'"
| registry: "nw_groups w a gn = Some g \<Longrightarrow> net_step db w (SetRegistry (node db n a) gn r w)"
| replication: "nw_groups w a gn = Some g \<Longrightarrow> net_step db w (SetReplicationFactor (node db n a) gn k w)"
| tracker: "nw_groups w a gn = Some g \<Longrightarrow> net_step db w (SetHotKeyTracker (node db n a) gn t w)"
| limiter: "nw_groups w a gn = Some g \<Longrightarrow> net_step db w (SetDBLimiter (node db n a) gn l w)"
| peers: "nw_groups w a gn = Some g \<Longrightarrow> RegisterPeers (node db n a) gn p w = (w', e) \<Longrightarrow> net_step db w w'"
| read: "nw_groups w a gn = Some g \<Longrightarrow> group_Get (node db n a) gn key w = Some (w', r) \<Longrightarrow> net_step db w w'"
| remove: "nw_groups w a gn = Some g \<Longrightarrow> net_step db w (group_Delete (node db n a) gn key w)"
| invalidate: "\<forall>gn \<in> set (si_groups si). nw_groups w a gn \<noteq> None
    \<Longrightarrow> net_step db w (InvalidateSlots (node db n a) si lo hi w)"
| goroutine: "i < length (nw_tasks w) \<Longrightarrow> nw_tasks w ! i = (a, t)
    \<Longrightarrow> run_task (node db n a) t (w\<lparr>nw_tasks := take i (nw_tasks w) @ drop (Suc i) (nw_tasks w)\<rparr>) = Some (w', e)
    \<Longrightarrow> net_step db w w'"
| environment: "net_step db w (w\<lparr>nw_now := t, nw_waits := ws, nw_faults := fs\<rparr>)"

definition net_init :: network where
  "net_init = \<lparr>nw_groups = (\<lambda>_ _. None), nw_tasks = [], nw_now = 0, nw_waits = [], nw_faults = []\<rparr>"

inductive net_reachable :: "(string \<Rightarrow> string \<Rightarrow> string option) \<Rightarrow> network \<Rightarrow> bool"
  for db :: "string \<Rightarrow> string \<Rightarrow> string option" where
  init: "net_reachable db net_init"
| step: "net_reachable db w \<Longrightarrow> net_step db w w' \<Longrightarrow> net_reachable db w'"

lemma new_group_safe: "0 \<le> bytes \<Longrightarrow> group_safe V gn \<lparr>g_name = gn, g_mainCache = newCache bytes, g_peers = None,
    g_registry = None, g_replicationFactor = defaultReplicationFactor, g_hotTracker = None,
    g_dbLimiter = None, g_cacheDirty = False\<rparr>"
  using newCache_ok [of bytes] by (simp add: group_safe_def group_ok_def defaultReplicationFactor_def)

lemma NewGroup_safe:
  assumes "net_inv db E w" "0 \<le> bytes"
    "NewGroup (node db n a) name bytes (Some getter) w = (w', r)"
  shows "net_inv db (E(a := insert name (E a))) w'"
proof -
  let ?E = "E(a := insert name (E a))"
  have w': "w' = w\<lparr>nw_groups := (nw_groups w)(a := (nw_groups w a)(name \<mapsto> \<lparr>g_name = name, g_mainCache = newCache bytes,
      g_peers = None, g_registry = None, g_replicationFactor = defaultReplicationFactor, g_hotTracker = None,
      g_dbLimiter = None, g_cacheDirty = False\<rparr>))\<rparr>"
    using assms(3) by (simp add: NewGroup_def)
  show ?thesis
    using assms(1) new_group_safe [OF assms(2), of "served db" name]
    unfolding w' net_inv_def by (simp split: option.splits) (metis option.distinct(1))
qed

lemma net_step_inv:
  assumes "net_step db w w'" "net_inv db E w"
  shows "\<exists>E'. net_inv db E' w'"
  using assms
proof (cases rule: net_step.cases)
  case (create a name bytes n r)
  then show ?thesis using NewGroup_safe [OF assms(2) create(2,3)] by blast
next
  case (peers a gn g n p e)
  then show ?thesis
    using net.setters_safe(5) [OF assms(2), of gn a n p] net_inv_group [OF assms(2)] by (metis fst_conv)
next
  case (read a gn g n key r)
  then show ?thesis using net.Get_safe [OF assms(2) _ read(2)] net_inv_group [OF assms(2)] by blast
next
  case (invalidate si a n lo hi)
  then have "set (si_groups si) \<subseteq> E a" using net_inv_group [OF assms(2)] by blast
  then show ?thesis using net.InvalidateSlots_safe [OF assms(2), of si a n lo hi] invalidate(1) by blast
next
  case (goroutine i a t n e)
  let ?w = "w\<lparr>nw_tasks := take i (nw_tasks w) @ drop (Suc i) (nw_tasks w)\<rparr>"
  have "net_inv db E ?w"
    using net_inv_tasks [OF assms(2), of "take i (nw_tasks w) @ drop (Suc i) (nw_tasks w)"] set_take_subset set_drop_subset
    by (metis set_append Un_least)
  moreover have "task_safe (served db) t"
    using assms(2) goroutine(1,2) nth_mem [OF goroutine(1)] by (fastforce simp: net_inv_def)
  ultimately show ?thesis using net.run_task_safe [OF _ _ goroutine(3)] by blast
qed (use assms(2) in \<open>auto intro!: exI [of _ E] net.setters_safe [OF assms(2)] net.Delete_safe [OF assms(2)]
  simp: net_inv_group [OF assms(2)]\<close>)

lemma net_reachable_inv: "net_reachable db w \<Longrightarrow> \<exists>E. net_inv db E w"
proof (induction rule: net_reachable.induct)
  case init
  have "net_inv db (\<lambda>_. {}) net_init" by (simp add: net_inv_def net_init_def)
  then show ?case by blast
next
  case (step w w')
  then show ?case using net_step_inv by blast
qed

section \<open>Nodes that ask each other\<close>

text \<open>
  \<open>asks gn key a b w\<close>: node \<open>a\<close> does not hold the key and its first candidate for it is \<open>b\<close>.
\<close>

definition asks :: "string \<Rightarrow> string \<Rightarrow> string \<Rightarrow> string \<Rightarrow> network \<Rightarrow> bool" where
  "asks gn key a b w =
     (\<exists>g r pgs. nw_groups w a gn = Some g \<and> g_name g = gn \<and> group_ok g \<and> cache_lookup (g_mainCache g) key = None
        \<and> g_registry g = Some r \<and> PickPeerWithFallback key (g_replicationFactor g) r = Inr (\<lparr>gg_addr = b\<rparr> # pgs))"

lemma lookup_miss:
  assumes "group_ok g" "cache_lookup (g_mainCache g) key = None" "lookup_local now key g = (g', r)"
  shows "r = None" "cache_lookup (g_mainCache g') key = None"
proof -
  show "r = None" using lookup_local_answer(3) [OF assms(1,3)] assms(2) by (cases r) auto
  show "cache_lookup (g_mainCache g') key = None"
    using map_le_implies_dom_le [OF lookup_local_answer(2) [OF assms(1,3)]] assms(2) by blast
qed

lemma asks_put:
  assumes "asks gn key x y w" "nw_groups w a gn = Some g" "group_ok g" "cache_lookup (g_mainCache g) key = None"
    "lookup_local now key g = (g', r)"
  shows "asks gn key x y (w\<lparr>nw_groups := (nw_groups w)(a := (nw_groups w a)(gn \<mapsto> g'))\<rparr>)"
  using assms(1,2) lookup_local_fields [OF assms(5)] lookup_local_answer(1) [OF assms(3,5)] lookup_miss [OF assms(3-5)]
  by (auto simp: asks_def)

lemma Get_asks:
  assumes "asks gn key a b w" "key \<noteq> []"
    and unanswered: "\<And>w' . nw_faults w' = nw_faults w \<Longrightarrow> (\<And>x y. asks gn key x y w \<Longrightarrow> asks gn key x y w')
      \<Longrightarrow> call b \<lparr>rq_Group = gn, rq_Key = key\<rparr> w' = None"
  shows "group_Get (node_api db call a) gn key w = None"
proof -
  obtain g r pgs where g: "nw_groups w a gn = Some g" "g_name g = gn" "group_ok g"
    "cache_lookup (g_mainCache g) key = None" "g_registry g = Some r"
    "PickPeerWithFallback key (g_replicationFactor g) r = Inr (\<lparr>gg_addr = b\<rparr> # pgs)"
    using assms(1) by (auto simp: asks_def)
  obtain g' q where l: "lookup_local (nw_now w) key g = (g', q)" by fastforce
  note F = lookup_local_fields [OF l] and M = lookup_miss [OF g(3,4) l]
  let ?w = "w\<lparr>nw_groups := (nw_groups w)(a := (nw_groups w a)(gn \<mapsto> g'))\<rparr>"
  have "call b \<lparr>rq_Group = gn, rq_Key = key\<rparr> ?w = None"
    by (rule unanswered) (simp, rule asks_put [OF _ g(1,3,4) l])
  then have "load (node_api db call a) gn key ?w = None"
    using F g by (simp add: load_def deref_def fetchFromPeer_def getter_Get_def)
  then show ?thesis using g(1) l M assms(2) by (simp add: group_Get_def deref_def)
qed

lemma wire_quiet: "nw_faults w = [] \<Longrightarrow> wire h w = h w"
  by (cases w) (simp add: wire_def next_outcome_def)

lemma handler_None: "meth req w = None \<Longrightarrow> service_handler meth (Inr req) w = None"
  by (simp add: service_handler_def recoveryInterceptor_def loggingInterceptor_def)

lemma handler_Inr: "meth req w = Some (w', Inr x) \<Longrightarrow> service_handler meth (Inr req) w = Some (w', Inr x)"
  by (simp add: service_handler_def recoveryInterceptor_def loggingInterceptor_def)

lemma asking_each_other:
  "asks gn key a b w \<Longrightarrow> asks gn key b a w \<Longrightarrow> nw_faults w = [] \<Longrightarrow> key \<noteq> []
    \<Longrightarrow> net_Get db n a \<lparr>rq_Group = gn, rq_Key = key\<rparr> w = None"
proof (induction n arbitrary: a b w)
  case (Suc n)
  have "group_Get (node db n a) gn key w = None"
    by (rule Get_asks [OF Suc.prems(1,4)], rule Suc.IH [of b a]) (use Suc.prems in auto)
  moreover obtain g where "nw_groups w a gn = Some g" using Suc.prems(1) by (auto simp: asks_def)
  ultimately have "service_Get (node db n a) \<lparr>rq_Group = gn, rq_Key = key\<rparr> w = None"
    by (simp add: service_Get_def CacheServiceAdapter_Get_def GetGroup_def)
  then show ?case using Suc.prems(3) by (simp add: wire_quiet handler_None)
qed simp

section \<open>One copy per key\<close>

text \<open>With a replication factor of one the candidates of a key are the owner on the ring, unless it is local.\<close>

lemma getn_loop_full: "n \<le> int (length result) \<Longrightarrow> getn_loop m left pos n result = result"
  by (cases left) simp_all

lemma ring_GetN_one: "ch_keys m \<noteq> [] \<Longrightarrow> ring_GetN key 1 m = Inr [ring_Get key m]"
  by (cases "ch_keys m") (simp_all add: ring_GetN_def ring_Get_def Let_def getn_loop_full)

lemma fallback_one:
  assumes "ch_keys (rg_hashRing r) \<noteq> []"
  shows "PickPeerWithFallback key 1 r = Inr
    (if ring_Get key (rg_hashRing r) = rg_localAddr r then []
     else case map_of (rg_grpcGetters r) (ring_Get key (rg_hashRing r)) of None \<Rightarrow> [] | Some pg \<Rightarrow> [pg])"
  by (simp add: PickPeerWithFallback_def ring_GetN_one [OF assms] map_filter_simps split: option.splits)

lemma Get_miss_or_hit:
  assumes "nw_groups w a gn = Some g" "key \<noteq> []" "lookup_local (nw_now w) key g = (g', q)"
  shows "group_Get (node_api db call a) gn key w =
    (let w1 = w\<lparr>nw_groups := (nw_groups w)(a := (nw_groups w a)(gn \<mapsto> g'))\<rparr> in
     case q of Some v \<Rightarrow> Some (w1, Inr v) | None \<Rightarrow> load (node_api db call a) gn key w1)"
  using assms by (simp add: group_Get_def deref_def split: option.splits)

lemma local_load_returns:
  assumes "net_inv db E w" "gn \<in> E a" "nw_groups w a gn = Some g" "key \<noteq> []" "g_registry g = Some r"
    "PickPeerWithFallback key (g_replicationFactor g) r = Inr []"
  shows "\<exists>w' q. group_Get (node db n a) gn key w = Some (w', q)"
proof -
  obtain g' q where l: "lookup_local (nw_now w) key g = (g', q)" by fastforce
  let ?w = "w\<lparr>nw_groups := (nw_groups w)(a := (nw_groups w a)(gn \<mapsto> g'))\<rparr>"
  have "net_inv db E ?w"
    using net_inv_put [OF assms(1,2)] group_safe_lookup [OF _ l] net_inv_group [OF assms(1,3)] by blast
  then obtain w' p where "getLocally (node db n a) gn key ?w = Some (w', p)"
    using net.getLocally_returns assms(2) by blast
  moreover have "load (node db n a) gn key ?w = getLocally (node db n a) gn key ?w"
    using lookup_local_fields [OF l] assms(5,6) by (simp add: load_def deref_def)
  ultimately show ?thesis
    by (cases q) (simp_all add: Get_miss_or_hit [OF assms(3,4) l] Let_def)
qed

lemma handler_returns:
  assumes "ga_group api gn w = Some g" "group_Get api gn key w = Some (w', q)"
  shows "\<exists>w' q. service_handler (service_Get api) (Inr \<lparr>rq_Group = gn, rq_Key = key\<rparr>) w = Some (w', q)"
proof -
  have m: "service_Get api \<lparr>rq_Group = gn, rq_Key = key\<rparr> w = Some (w', map_sum id bv_b q)"
    using assms by (cases q) (simp_all add: service_Get_def CacheServiceAdapter_Get_def GetGroup_def)
  show ?thesis
  proof (cases q)
    case (Inl e)
    then show ?thesis
      using m by (cases e) (simp_all add: service_handler_def recoveryInterceptor_def loggingInterceptor_def)
  qed (use m in \<open>simp add: handler_Inr\<close>)
qed

lemma owner_answers:
  assumes "net_inv db E w" "gn \<in> E b" "nw_groups w b gn = Some g" "key \<noteq> []" "g_registry g = Some r"
    "PickPeerWithFallback key (g_replicationFactor g) r = Inr []"
  shows "\<exists>w' q. net_Get db (Suc n) b \<lparr>rq_Group = gn, rq_Key = key\<rparr> w = Some (w', q)"
proof (cases "next_outcome (nw_faults w)")
  case None
  let ?w = "w\<lparr>nw_faults := tl (nw_faults w)\<rparr>"
  have I: "net_inv db E ?w" and g: "nw_groups ?w b gn = Some g" using assms(1,3) by simp_all
  obtain w' q where "group_Get (node db n b) gn key ?w = Some (w', q)"
    using local_load_returns [OF I assms(2) g assms(4-6)] by blast
  from handler_returns [OF _ this] show ?thesis using g None by (simp add: wire_def)
next
  case (Some e)
  then show ?thesis by (simp add: wire_def)
qed

section \<open>Deleting a key everywhere\<close>

definition cached :: "network \<Rightarrow> string \<Rightarrow> string \<Rightarrow> string \<Rightarrow> cacheEntry option" where
  "cached w a gn key = (case nw_groups w a gn of None \<Rightarrow> None | Some g \<Rightarrow> cache_lookup (g_mainCache g) key)"

abbreviation drop_at :: "(string \<Rightarrow> string \<Rightarrow> string option) \<Rightarrow> string \<Rightarrow> string \<Rightarrow> string \<Rightarrow> network \<Rightarrow> network" where
  "drop_at db gn key b w \<equiv> CacheServiceAdapter_Delete (local_api db b) gn key w"

lemma cache_delete_lookup: "cache_ok c \<Longrightarrow> cache_lookup (cache_delete key c) \<subseteq>\<^sub>m (cache_lookup c)(key := None)"
  using cache_delete_coherent [of c "cache_lookup c" key] by simp

lemma delete_lookup_None:
  assumes "cache_ok c" "k = key \<or> cache_lookup c k = None"
  shows "cache_lookup (cache_delete key c) k = None"
proof -
  have "((cache_lookup c)(key := None)) k = None" using assms(2) by auto
  then show ?thesis using map_le_implies_dom_le [OF cache_delete_lookup [OF assms(1), of key]] by blast
qed

lemma drop_at_effect:
  assumes "net_inv db E w"
  shows "net_inv db E (drop_at db gn key b w)" "nw_faults (drop_at db gn key b w) = nw_faults w"
    "a = b \<or> cached w a gn key = None \<Longrightarrow> cached (drop_at db gn key b w) a gn key = None"
proof -
  show "nw_faults (drop_at db gn key b w) = nw_faults w"
    by (simp add: CacheServiceAdapter_Delete_def GetGroup_def group_DeleteLocal_def Let_def split: option.splits)
  show "net_inv db E (drop_at db gn key b w)"
    using safe_node.DeleteLocal_safe [OF local_safe assms, of gn b key] net_inv_group [OF assms, of b gn] assms
    by (simp add: CacheServiceAdapter_Delete_def GetGroup_def split: option.splits)
  assume "a = b \<or> cached w a gn key = None"
  moreover have "cache_ok (g_mainCache g)" if "nw_groups w b gn = Some g" for g
    using net_inv_group [OF assms that] by (simp add: group_safe_def group_ok_def)
  ultimately show "cached (drop_at db gn key b w) a gn key = None"
    by (auto simp: CacheServiceAdapter_Delete_def GetGroup_def group_DeleteLocal_def cached_def deref_def Let_def
        delete_lookup_None split: option.splits)
qed

lemma run_broadcast:
  "nw_faults w = [] \<Longrightarrow> run_task (node db n a) (BroadcastTo pg gn key) w = Some (drop_at db gn key (gg_addr pg) w, None)"
  by (simp add: getter_Invalidate_def only_err_def wire_quiet handler_Inr service_Invalidate_def)

lemma run_broadcasts:
  assumes "net_inv db E w" "nw_faults w = []"
  shows "\<exists>w'. run_tasks (node db n) (map (\<lambda>pg. (a, BroadcastTo pg gn key)) pgs) w = Some w'
    \<and> (\<forall>b. b \<in> gg_addr ` set pgs \<or> cached w b gn key = None \<longrightarrow> cached w' b gn key = None)"
  using assms
proof (induction pgs arbitrary: w)
  case (Cons pg pgs)
  let ?w = "drop_at db gn key (gg_addr pg) w"
  note D = drop_at_effect [OF Cons.prems(1), where gn = gn and key = key and b = "gg_addr pg"]
  obtain w' where w': "run_tasks (node db n) (map (\<lambda>pg. (a, BroadcastTo pg gn key)) pgs) ?w = Some w'"
    "\<forall>b. b \<in> gg_addr ` set pgs \<or> cached ?w b gn key = None \<longrightarrow> cached w' b gn key = None"
    using Cons.IH [OF D(1)] D(2) Cons.prems(2) by auto
  have "run_tasks (node db n) (map (\<lambda>pg. (a, BroadcastTo pg gn key)) (pg # pgs)) w = Some w'"
    using w'(1) run_broadcast [OF Cons.prems(2)] by (simp del: run_task.simps)
  then show ?case using w'(2) D(3) by auto
qed simp

lemma fold_go_tasks:
  "fold (\<lambda>x. ga_go (local_api db a) (f x)) xs w = w\<lparr>nw_tasks := nw_tasks w @ map (\<lambda>x. (a, f x)) xs\<rparr>"
  by (induction xs arbitrary: w) simp_all

section \<open>Pushes to secondaries\<close>

text \<open>However many copies are configured, at most one replica is pushed.\<close>

lemma push_first_tasks:
  "nw_tasks (push_first (node_api db call a) gn l key v pgs w) = nw_tasks w
    \<or> (\<exists>pg \<in> set pgs. gg_addr pg \<noteq> l
        \<and> nw_tasks (push_first (node_api db call a) gn l key v pgs w) = nw_tasks w @ [(a, PushSecondary pg gn key v)])"
  by (induction pgs) auto

theorem one_secondary_pushed:
  "length (nw_tasks (fst (replicateToSecondaries (node_api db call a) gn key v w))) \<le> length (nw_tasks w) + 1"
proof -
  have "length (nw_tasks (push_first (node_api db call a) gn l key v pgs w)) \<le> length (nw_tasks w) + 1" for l pgs
    using push_first_tasks [of db call a gn l key v pgs w] by auto
  then show ?thesis by (simp add: replicateToSecondaries_def Let_def split: option.splits sum.splits)
qed

section \<open>Examples\<close>

definition scores_db :: "string \<Rightarrow> string \<Rightarrow> string option" where
  "scores_db a key = (if key = ''Tom'' then Some ''630'' else None)"

text \<open>One node with the group \<^verbatim>\<open>scores\<close> and no peers.\<close>

definition solo_group :: Group where
  "solo_group = \<lparr>g_name = ''scores'', g_mainCache = newCache 100, g_peers = None, g_registry = None,
     g_replicationFactor = 2, g_hotTracker = None, g_dbLimiter = None, g_cacheDirty = False\<rparr>"

definition solo_net :: network where
  "solo_net = fst (NewGroup (node scores_db 0 ''A'') ''scores'' 100 (Some ()) net_init)"

lemma solo_net_eq: "solo_net = net_init\<lparr>nw_groups := (\<lambda>_ _. None)(''A'' := [''scores'' \<mapsto> solo_group])\<rparr>"
  by (simp add: solo_net_def NewGroup_def solo_group_def defaultReplicationFactor_def net_init_def)

lemma solo_reachable: "net_reachable scores_db solo_net"
  by (rule net_reachable.step [OF net_reachable.init], rule net_step.create [where a = "''A''" and name = "''scores''" and bytes = 100 and n = 0])
    (simp_all add: net_init_def solo_net_def prod_eq_iff)

lemma solo_Get: "\<exists>w'. group_Get (node scores_db 0 ''A'') ''scores'' ''Tom'' solo_net = Some (w', Inr \<lparr>bv_b = ''630''\<rparr>)"
proof -
  have "cache_ok (newCache 100)" using newCache_ok [of 100] by simp
  then obtain c where "cache_add ''Tom'' \<lparr>bv_b = ''630''\<rparr> (newCache 100) = Some c"
    using cache_add_result by metis
  then show ?thesis
    by (simp add: group_Get_def lookup_local_def RecordAccess_def cache_get_def newCache_def load_def getLocally_def
        limiter_Wait_def source_getter_def scores_db_def populateCache_def replicateToSecondaries_def
        replicateIfHot_def deref_def solo_net_eq solo_group_def)
qed

text \<open>Two nodes that know each other. The ring places node \<open>A\<close> at 10 and node \<open>B\<close> at 20.\<close>

definition pair_registry :: "string \<Rightarrow> string \<Rightarrow> Registry" where
  "pair_registry self other = \<lparr>rg_localAddr = self, rg_apiPort = 0,
     rg_hashRing = \<lparr>ch_hash = (\<lambda>_. 0), ch_replicas = 1, ch_keys = [10, 20], ch_hashMap = [10 \<mapsto> ''A'', 20 \<mapsto> ''B'']\<rparr>,
     rg_grpcGetters = [(other, \<lparr>gg_addr = other\<rparr>)], rg_running = True, rg_closed = []\<rparr>"

definition pair_net :: "int \<Rightarrow> network" where
  "pair_net k =
     (let new = (\<lambda>a b w. SetReplicationFactor (node scores_db 0 a) ''scores'' k
        (SetRegistry (node scores_db 0 a) ''scores'' (Some (pair_registry a b))
          (fst (NewGroup (node scores_db 0 a) ''scores'' 100 (Some ()) w))))
      in new ''B'' ''A'' (new ''A'' ''B'' net_init))"

definition pair_group :: "int \<Rightarrow> string \<Rightarrow> string \<Rightarrow> Group" where
  "pair_group k a b = solo_group\<lparr>g_registry := Some (pair_registry a b), g_replicationFactor := k\<rparr>"

lemma add_node_reachable:
  assumes "net_reachable db w" "nw_groups w a gn = None" "0 \<le> bytes"
  shows "net_reachable db (SetReplicationFactor (node db 0 a) gn k (SetRegistry (node db 0 a) gn r
    (fst (NewGroup (node db 0 a) gn bytes (Some ()) w))))"
proof -
  let ?w1 = "fst (NewGroup (node db 0 a) gn bytes (Some ()) w)"
  have 1: "net_reachable db ?w1"
    using net_reachable.step [OF assms(1) net_step.create [OF assms(2,3)]] by (metis prod.collapse)
  have g1: "\<exists>g. nw_groups ?w1 a gn = Some g" by (simp add: NewGroup_def)
  have g2: "\<exists>g. nw_groups (SetRegistry (node db 0 a) gn r ?w1) a gn = Some g" by (simp add: SetRegistry_def)
  show ?thesis
    using net_reachable.step [OF net_reachable.step [OF 1 net_step.registry] net_step.replication] g1 g2 by blast
qed

lemma pair_net_eq:
  assumes "1 \<le> k"
  shows "pair_net k = net_init\<lparr>nw_groups := (\<lambda>_ _. None)(''A'' := [''scores'' \<mapsto> pair_group k ''A'' ''B''],
    ''B'' := [''scores'' \<mapsto> pair_group k ''B'' ''A''])\<rparr>"
  using assms by (simp add: pair_net_def Let_def NewGroup_def SetRegistry_def SetReplicationFactor_def deref_def net_init_def
      pair_group_def solo_group_def defaultReplicationFactor_def)

lemma pair_reachable: "net_reachable scores_db (pair_net k)"
  unfolding pair_net_def Let_def
  by (intro add_node_reachable net_reachable.init)
    (simp_all add: net_init_def SetReplicationFactor_def SetRegistry_def NewGroup_def)

lemma pair_candidates:
  "PickPeerWithFallback ''Tom'' 2 (pair_registry ''A'' ''B'') = Inr [\<lparr>gg_addr = ''B''\<rparr>]"
  "PickPeerWithFallback ''Tom'' 2 (pair_registry ''B'' ''A'') = Inr [\<lparr>gg_addr = ''A''\<rparr>]"
  by (code_simp, code_simp)

lemma pair_asks: "asks ''scores'' ''Tom'' ''A'' ''B'' (pair_net 2)" "asks ''scores'' ''Tom'' ''B'' ''A'' (pair_net 2)"
  using newCache_ok [of 100]
  by (simp_all add: asks_def pair_net_eq pair_group_def solo_group_def group_ok_def pair_candidates)

lemma pair_faults: "1 \<le> k \<Longrightarrow> nw_faults (pair_net k) = []"
  by (simp add: pair_net_eq net_init_def)

section \<open>Properties\<close>

text \<open>
  C19: in every reachable network each group is well formed: it carries the name it is registered
  under, keeps at least one copy per key, and its cache satisfies the invariant of the LRU structure.
\<close>

theorem network_groups_wf:
  assumes "net_reachable db w" and "nw_groups w a gn = Some g"
  shows "g_name g = gn \<and> 1 \<le> g_replicationFactor g \<and> cache_ok (g_mainCache g)"
proof -
  obtain E where "net_inv db E w" using net_reachable_inv [OF assms(1)] by blast
  from net_inv_group [OF this assms(2)] show ?thesis by (simp add: group_safe_def group_ok_def)
qed

theorem network_groups_wf_witness:
  "nw_groups (pair_net 2) ''A'' ''scores'' = Some (pair_group 2 ''A'' ''B'')
    \<and> 1 \<le> g_replicationFactor (pair_group 2 ''A'' ''B'') \<and> cache_ok (g_mainCache (pair_group 2 ''A'' ''B''))"
proof -
  have "nw_groups (pair_net 2) ''A'' ''scores'' = Some (pair_group 2 ''A'' ''B'')" by (simp add: pair_net_eq)
  then show ?thesis using network_groups_wf [OF pair_reachable, of 2 "''A''" "''scores''"] by simp
qed

text \<open>
  C4: whatever nodes did before, with any faults and any order of their goroutines, a value
  that a read returns is the value that the table of some node holds for that key.
\<close>

theorem network_serves_source:
  assumes "net_reachable db w" and "nw_groups w a gn = Some g"
    and "group_Get (node db n a) gn key w = Some (w', Inr v)"
  shows "\<exists>b. db b key = Some (bv_b v)"
proof -
  obtain E where E: "net_inv db E w" using net_reachable_inv [OF assms(1)] by blast
  then have "gn \<in> E a" using net_inv_group assms(2) by blast
  from net.Get_safe [OF E this assms(3)] show ?thesis by (auto simp: served_def)
qed

theorem network_serves_source_witness:
  "\<exists>w' v. group_Get (node scores_db 0 ''A'') ''scores'' ''Tom'' solo_net = Some (w', Inr v)
    \<and> (\<exists>b. scores_db b ''Tom'' = Some (bv_b v))"
proof -
  have "nw_groups solo_net ''A'' ''scores'' = Some solo_group" by (simp add: solo_net_eq)
  then show ?thesis using solo_Get network_serves_source [OF solo_reachable] by blast
qed

text \<open>
  after an invalidation of slots a read of any of the invalidated groups gives the same
  answer and the same state whatever the group had cached: nothing stale is served.
\<close>

theorem invalidation_forgets:
  assumes "gn \<in> set (si_groups si)" and "lo \<le> hi" and "ca_cacheBytes c = ca_cacheBytes (g_mainCache g)"
    and "key \<noteq> []" and "nw_groups w a gn = Some g"
  shows "group_Get (node db n a) gn key (InvalidateSlots (node db n a) si lo hi
      (ga_put (node db n a) gn (g\<lparr>g_mainCache := c\<rparr>) w))
    = group_Get (node db n a) gn key (InvalidateSlots (node db n a) si lo hi w)"
proof -
  have "w = ga_put (node db n a) gn g w" using assms(5) by (cases w) (simp add: fun_upd_idem)
  then show ?thesis using net.Get_after_invalidation [OF assms(1-4), of db "net_Get db n" a w] by simp
qed

theorem invalidation_forgets_witness:
  "\<exists>c. cache_lookup c ''Tom'' = Some \<lparr>ce_value = \<lparr>bv_b = ''old''\<rparr>, ce_expiresAt = None\<rparr> \<and>
    group_Get (node scores_db 0 ''A'') ''scores'' ''Tom'' (InvalidateSlots (node scores_db 0 ''A'')
      (NewSlotInvalidator [''scores'']) 0 100 (ga_put (node scores_db 0 ''A'') ''scores'' (solo_group\<lparr>g_mainCache := c\<rparr>) solo_net))
    = group_Get (node scores_db 0 ''A'') ''scores'' ''Tom'' (InvalidateSlots (node scores_db 0 ''A'')
      (NewSlotInvalidator [''scores'']) 0 100 solo_net)"
proof -
  have ok: "cache_ok (newCache 100)" using newCache_ok [of 100] by simp
  obtain c where c: "ca_cacheBytes c = ca_cacheBytes (newCache 100)"
    "cache_lookup c ''Tom'' = Some \<lparr>ce_value = \<lparr>bv_b = ''old''\<rparr>, ce_expiresAt = None\<rparr>"
    using cache_add_result [OF ok, of "''Tom''" "\<lparr>bv_b = ''old''\<rparr>"] by (auto simp: newCache_def)
  have "ca_cacheBytes c = ca_cacheBytes (g_mainCache solo_group)" using c(1) by (simp add: solo_group_def)
  then show ?thesis
    using c(2) invalidation_forgets [of "''scores''" "NewSlotInvalidator [''scores'']" 0 100 c solo_group "''Tom''" solo_net "''A''"]
    by (intro exI [of _ c]) (simp add: NewSlotInvalidator_def solo_net_eq)
qed



text \<open>
  C18: with one copy per key and nodes that agree on the ring, a read returns after at most
  one call to another node, whatever faults happen.
\<close>

theorem one_copy_returns:
  assumes "net_reachable db w" and "nw_groups w a gn = Some ga" and "nw_groups w b gn = Some gb"
    and "g_replicationFactor ga = 1" and "g_replicationFactor gb = 1"
    and "g_registry ga = Some ra" and "g_registry gb = Some rb" and "rg_hashRing ra = rg_hashRing rb"
    and "ch_keys (rg_hashRing ra) \<noteq> []" and "ring_Get key (rg_hashRing ra) = b" and "rg_localAddr rb = b"
    and "\<And>pg. map_of (rg_grpcGetters ra) b = Some pg \<Longrightarrow> gg_addr pg = b" and "key \<noteq> []"
  shows "\<exists>w' r. group_Get (node db 1 a) gn key w = Some (w', r)"
proof -
  obtain E where E: "net_inv db E w" using net_reachable_inv [OF assms(1)] by blast
  have in_E: "gn \<in> E a" "gn \<in> E b" using net_inv_group [OF E assms(2)] net_inv_group [OF E assms(3)] by simp_all
  have Ca: "PickPeerWithFallback key (g_replicationFactor ga) ra = Inr
      (if b = rg_localAddr ra then [] else case map_of (rg_grpcGetters ra) b of None \<Rightarrow> [] | Some pg \<Rightarrow> [pg])"
    using fallback_one [of ra key] assms(4,9,10) by simp
  have Cb: "PickPeerWithFallback key (g_replicationFactor gb) rb = Inr []"
    using fallback_one [of rb key] assms(5,8-11) by simp
  show ?thesis
  proof (cases "PickPeerWithFallback key (g_replicationFactor ga) ra = Inr []")
    case True
    then show ?thesis using local_load_returns [OF E in_E(1) assms(2,13,6)] by simp
  next
    case False
    then obtain pg where pg: "map_of (rg_grpcGetters ra) b = Some pg"
      "PickPeerWithFallback key (g_replicationFactor ga) ra = Inr [pg]"
      using Ca by (auto split: if_splits option.splits)
    have "ga = gb \<and> ra = rb" if "a = b" using assms(2,3,6,7) that by simp
    then have "a \<noteq> b" using False Cb by metis
    obtain g' q where l: "lookup_local (nw_now w) key ga = (g', q)" by fastforce
    let ?w = "w\<lparr>nw_groups := (nw_groups w)(a := (nw_groups w a)(gn \<mapsto> g'))\<rparr>"
    have I1: "net_inv db E ?w"
      using net_inv_put [OF E in_E(1)] group_safe_lookup [OF _ l] net_inv_group [OF E assms(2)] by blast
    have b: "nw_groups ?w b gn = Some gb" using assms(3) \<open>a \<noteq> b\<close> by simp
    obtain w1 p where "net_Get db 1 b \<lparr>rq_Group = gn, rq_Key = key\<rparr> ?w = Some (w1, p)"
      using owner_answers [OF I1 in_E(2) b assms(13,7) Cb, of 0] unfolding One_nat_def by blast
    then have "\<exists>w' r. try_peers (node db 1 a) gn key [pg] ?w = Some (w', r)"
      using assms(12) [OF pg(1)]
      by (intro net.try_one_returns [OF I1 in_E(1), where ?w1.0 = w1 and q = p]) (simp only: node_api_simps)
    moreover have "load (node db 1 a) gn key ?w = try_peers (node db 1 a) gn key [pg] ?w"
      using lookup_local_fields [OF l] assms(6) pg(2) by (simp add: load_def deref_def)
    ultimately show ?thesis
      unfolding Get_miss_or_hit [OF assms(2,13) l] Let_def by (cases q) (simp_all del: try_peers.simps)
  qed
qed

theorem one_copy_returns_witness:
  "\<exists>w' r. group_Get (node scores_db 1 ''B'') ''scores'' ''Tom'' (pair_net 1) = Some (w', r)"
proof -
  have ring: "ring_Get ''Tom'' (rg_hashRing (pair_registry x y)) = ''A''" for x y
    by (simp add: pair_registry_def ring_Get_def ring_index_def hash_of_def sort_Search_def search_loop.simps addr_at_def)
  have A: "nw_groups (pair_net 1) ''A'' ''scores'' = Some (pair_group 1 ''A'' ''B'')"
    and B: "nw_groups (pair_net 1) ''B'' ''scores'' = Some (pair_group 1 ''B'' ''A'')" by (simp_all add: pair_net_eq)
  show ?thesis
    by (rule one_copy_returns [OF pair_reachable B A, where ra = "pair_registry ''B'' ''A''" and rb = "pair_registry ''A'' ''B''"])
      (simp_all add: pair_group_def ring, simp_all add: pair_registry_def)
qed



text \<open>
  C35: a replica that a node pushes to another is stored there and a read on that node answers with
  it at once, if the value fits the cache and nothing has marked the cache dirty.
\<close>

theorem pushed_replica_served:
  assumes "net_reachable db w" and "nw_groups w b gn = Some g" and "\<not> g_cacheDirty g" and "nw_faults w = []"
    and "ca_cacheBytes (g_mainCache g) = 0 \<or> int (length key + length v) \<le> ca_cacheBytes (g_mainCache g)"
    and "key \<noteq> []"
  shows "\<exists>w1 w2. getter_PushReplica (node db n a) \<lparr>gg_addr = b\<rparr> gn key v w = Some (w1, None)
    \<and> group_Get (node db m b) gn key w1 = Some (w2, Inr \<lparr>bv_b = v\<rparr>)"
proof -
  obtain E where E: "net_inv db E w" using net_reachable_inv [OF assms(1)] by blast
  have ok: "group_ok g" using net_inv_group [OF E assms(2)] by (simp add: group_safe_def)
  have d: "deref (node db m b) gn w = g" using assms(2) by (simp add: deref_def)
  obtain c g' where c: "StoreReplica (node db m b) gn key \<lparr>bv_b = v\<rparr> w = Some (ga_put (node db m b) gn (g\<lparr>g_mainCache := c\<rparr>) w)"
    "group_Get (node db m b) gn key (ga_put (node db m b) gn (g\<lparr>g_mainCache := c\<rparr>) w)
      = Some (ga_put (node db m b) gn g' w, Inr \<lparr>bv_b = v\<rparr>)"
    using net.replica_served [OF d ok assms(3,6), of "\<lparr>bv_b = v\<rparr>"] assms(5) by auto
  let ?w1 = "ga_put (node db m b) gn (g\<lparr>g_mainCache := c\<rparr>) w"
  have "service_Push (local_api db b) \<lparr>pr_Group = gn, pr_Key = key, pr_Value = v\<rparr> w = Some (?w1, Inr [])"
    using c(1) assms(2) by (simp add: service_Push_def CacheServiceAdapter_PushReplica_def GetGroup_def StoreReplica_def
        populateCache_def deref_def Let_def split: option.splits)
  then have "getter_PushReplica (node db n a) \<lparr>gg_addr = b\<rparr> gn key v w = Some (?w1, None)"
    using assms(4) by (simp add: getter_PushReplica_def only_err_def wire_quiet handler_Inr)
  then show ?thesis using c(2) by blast
qed

theorem pushed_replica_served_witness:
  "\<exists>w1 w2. getter_PushReplica (node scores_db 0 ''A'') \<lparr>gg_addr = ''B''\<rparr> ''scores'' ''Tom'' ''630'' (pair_net 2) = Some (w1, None)
    \<and> group_Get (node scores_db 0 ''B'') ''scores'' ''Tom'' w1 = Some (w2, Inr \<lparr>bv_b = ''630''\<rparr>)"
proof -
  have "nw_groups (pair_net 2) ''B'' ''scores'' = Some (pair_group 2 ''B'' ''A'')" by (simp add: pair_net_eq)
  then show ?thesis
    by (intro pushed_replica_served [OF pair_reachable, of 2 "''B''" "''scores''" "pair_group 2 ''B'' ''A''"])
      (simp_all add: pair_faults pair_group_def solo_group_def newCache_def)
qed



end
