(* ===== verification/Cache_Run.thy ===== *)
theory Cache_Run
  imports Cache_Network Runtime_Config
begin

text \<open>
  How a cache node is configured and started: \<^verbatim>\<open>cache/conf/config.go\<close> and \<^verbatim>\<open>GetConfig.go\<close>, \<^verbatim>\<open>cache/init.go\<close>,
  \<^verbatim>\<open>cache/starter.go\<close>, \<^verbatim>\<open>cache/run.go\<close>, the server of \<^verbatim>\<open>cache/peer/grpc_server.go\<close> and the \<^verbatim>\<open>cache\<close> command of
  \<^verbatim>\<open>cluster/cmd/cache.go\<close>. The environment is a function from names to values, the empty string for a
  variable that is not set. Opening a file, the YAML decoder, the gossip library and the network sockets
  are arguments that give their outcome.
\<close>

section \<open>The configuration file\<close>

record Server =
  sv_Port :: int
  sv_API :: bool
  sv_IP :: string
  sv_Gossip :: int

record HttpSection =
  hs_DefaultReplicas :: int
  hs_DefaultBasePath :: string

record RedisSection =
  rs_Addr :: string
  rs_Port :: int
  rs_User :: string
  rs_Pwd :: string

record MySQLSection =
  ms_Password :: string
  ms_User :: string
  ms_Database :: string

record conf_Config =
  cn_FrontServer :: string
  cn_Http :: HttpSection
  cn_API :: string
  cn_OnlineServers :: "Server list"
  cn_Redis :: RedisSection
  cn_MySQL :: MySQLSection
  cn_MaxBytes :: int

definition SeedAddr :: "Server \<Rightarrow> string" where
  "SeedAddr s = sv_IP s @ '':'' @ strconv_Itoa (sv_Gossip s)"

definition CacheAddr :: "Server \<Rightarrow> string" where
  "CacheAddr s = ''http://'' @ sv_IP s @ '':'' @ strconv_Itoa (sv_Port s)"

definition server_defaults :: "Server \<Rightarrow> Server" where
  "server_defaults s =
     (let s1 = (if sv_IP s = [] then s\<lparr>sv_IP := ''localhost''\<rparr> else s)
      in if sv_Gossip s1 = 0 then s1\<lparr>sv_Gossip := sv_Port s1 + 1000\<rparr> else s1)"

definition conf_LoadConfig ::
  "(string \<Rightarrow> go_err) \<Rightarrow> (string \<Rightarrow> conf_Config go_result) \<Rightarrow> string \<Rightarrow> conf_Config go_result" where
  "conf_LoadConfig os_Open decode path =
     (case os_Open path of
        Some err \<Rightarrow> Inl (ErrorfW ''open config'' err)
      | None \<Rightarrow>
          (case decode path of
             Inl err \<Rightarrow> Inl (ErrorfW ''decode config'' err)
           | Inr cfg \<Rightarrow> Inr (cfg\<lparr>cn_OnlineServers := map server_defaults (cn_OnlineServers cfg)\<rparr>)))"

definition SeedAddrs :: "conf_Config \<Rightarrow> int \<Rightarrow> string list" where
  "SeedAddrs c excludePort = map SeedAddr (filter (\<lambda>s. sv_Port s \<noteq> excludePort) (cn_OnlineServers c))"

definition SelfServer :: "conf_Config \<Rightarrow> int \<Rightarrow> Server option" where
  "SelfServer c port = find (\<lambda>s. sv_Port s = port) (cn_OnlineServers c)"

definition APIServer :: "conf_Config \<Rightarrow> Server option" where
  "APIServer c = find sv_API (cn_OnlineServers c)"

fun validate_servers :: "Server list \<Rightarrow> go_err" where
  "validate_servers [] = None"
| "validate_servers (s # ss) =
     (if sv_Port s \<le> 0 \<or> sv_Port s > 65535 then Some (Errorf ''invalid port'')
      else if sv_IP s = [] then Some (Errorf ''ip is required'')
      else if sv_Gossip s \<le> 0 \<or> sv_Gossip s > 65535 then Some (Errorf ''invalid gossip port'')
      else validate_servers ss)"

text \<open>The check also sets a default in the configuration it is given.\<close>

definition Validate :: "conf_Config \<Rightarrow> conf_Config go_result" where
  "Validate c =
     (if cn_FrontServer c = [] then Inl (Errorf ''front-server is required'')
      else if cn_OnlineServers c = [] then Inl (Errorf ''at least one online-server is required'')
      else case validate_servers (cn_OnlineServers c) of
        Some err \<Rightarrow> Inl err
      | None \<Rightarrow> Inr (if cn_MaxBytes c \<le> 0 then c\<lparr>cn_MaxBytes := push_bit 20 256\<rparr> else c))"

record ConfigData =
  cd_path :: string
  cd_config :: "conf_Config option"

definition NewConfigData :: "string \<Rightarrow> ConfigData" where
  "NewConfigData path = \<lparr>cd_path = path, cd_config = None\<rparr>"

definition ConfigData_Load ::
  "(string \<Rightarrow> go_err) \<Rightarrow> (string \<Rightarrow> conf_Config go_result) \<Rightarrow> ConfigData \<Rightarrow> ConfigData go_result" where
  "ConfigData_Load os_Open decode c =
     (case conf_LoadConfig os_Open decode (cd_path c) of
        Inl err \<Rightarrow> Inl err
      | Inr cfg \<Rightarrow> Inr (c\<lparr>cd_config := Some cfg\<rparr>))"

section \<open>The configuration of a node\<close>

record cache_Config =
  cg_Host :: string
  cg_Port :: int
  cg_Gossip :: int
  cg_IsAPI :: bool
  cg_GroupName :: string
  cg_MaxBytes :: int
  cg_APIAddr :: string
  cg_SeedAddrs :: "string list"
  cg_DB :: "string \<Rightarrow> string option"
  cg_servers :: "Server list"

text \<open>The argument is the configuration that the accessor holds, which is loaded by then.\<close>

definition pickPort :: "(string \<Rightarrow> string) \<Rightarrow> conf_Config \<Rightarrow> int" where
  "pickPort env cfg =
     (let fallback = (if cn_OnlineServers cfg \<noteq> [] then sv_Port (hd (cn_OnlineServers cfg)) else 8001)
      in if env ''PORT'' \<noteq> [] then (case strconv_Atoi (env ''PORT'') of Inr p \<Rightarrow> p | Inl _ \<Rightarrow> fallback)
         else fallback)"

definition cache_LoadConfig ::
  "(string \<Rightarrow> string) \<Rightarrow> (string \<Rightarrow> go_err) \<Rightarrow> (string \<Rightarrow> conf_Config go_result) \<Rightarrow> cache_Config go_result" where
  "cache_LoadConfig env os_Open decode =
     (let configPath = (if env ''GEECACHE_CONFIG'' = [] then ''config.yaml'' else env ''GEECACHE_CONFIG'')
      in case ConfigData_Load os_Open decode (NewConfigData configPath) of
           Inl err \<Rightarrow> Inl (ErrorfW ''load config'' err)
         | Inr configData \<Rightarrow>
             (case Validate (the (cd_config configData)) of
                Inl err \<Rightarrow> Inl (ErrorfW ''invalid config'' err)
              | Inr cfg \<Rightarrow>
                  (case SelfServer cfg (pickPort env cfg) of
                     None \<Rightarrow> Inl (Errorf ''no server config for port'')
                   | Some srv \<Rightarrow>
                       Inr \<lparr>cg_Host = sv_IP srv, cg_Port = sv_Port srv, cg_Gossip = sv_Gossip srv, cg_IsAPI = sv_API srv,
                         cg_GroupName = ''scores'', cg_MaxBytes = cn_MaxBytes cfg, cg_APIAddr = cn_FrontServer cfg,
                         cg_SeedAddrs = [], cg_DB = [''Tom'' \<mapsto> ''630'', ''Jack'' \<mapsto> ''589'', ''Sam'' \<mapsto> ''567''],
                         cg_servers = cn_OnlineServers cfg\<rparr>)))"

text \<open>The flags of the \<^verbatim>\<open>cache\<close> command, zero or empty when not given.\<close>

record cache_flags =
  fl_port :: int
  fl_gossip :: int
  fl_api :: bool
  fl_seeds :: "string list"

definition buildCacheConfig :: "cache_flags \<Rightarrow> RuntimeConfig \<Rightarrow> cache_Config" where
  "buildCacheConfig flags appConfig =
     \<lparr>cg_Host = ''0.0.0.0'',
      cg_Port = (if fl_port flags = 0 then CachePort appConfig else fl_port flags),
      cg_Gossip = (if fl_gossip flags = 0 then CacheGossipPort appConfig else fl_gossip flags),
      cg_IsAPI = fl_api flags, cg_GroupName = CacheGroupName appConfig, cg_MaxBytes = CacheMaxBytes appConfig,
      cg_APIAddr = (if fl_api flags then CacheAPIAddr appConfig else []),
      cg_SeedAddrs = fl_seeds flags, cg_DB = Map.empty, cg_servers = []\<rparr>"

section \<open>Starting a node\<close>

definition addrFromHostPort :: "string \<Rightarrow> int \<Rightarrow> string" where
  "addrFromHostPort host port = host @ '':'' @ strconv_Itoa port"

definition seedAddrs :: "Server list \<Rightarrow> int \<Rightarrow> string list" where
  "seedAddrs servers excludePort = map SeedAddr (filter (\<lambda>s. sv_Port s \<noteq> excludePort) servers)"

definition tlsConfigFromEnv :: "(string \<Rightarrow> string) \<Rightarrow> TLSConfig" where
  "tlsConfigFromEnv env =
     (let mode = (if env ''GEECACHE_TLS'' = ''1'' \<or> env ''GEECACHE_TLS'' = ''server'' then TLSServerOnly else TLSInsecure);
          mode' = (if env ''GEECACHE_TLS'' = ''mutual'' then TLSMutual else mode)
      in \<lparr>tc_Mode = mode', tc_CertFile = env ''GEECACHE_TLS_CERT'', tc_KeyFile = env ''GEECACHE_TLS_KEY'',
          tc_CAFile = env ''GEECACHE_TLS_CA''\<rparr>)"

definition createGroup :: "'w cache_api \<Rightarrow> cache_Config \<Rightarrow> 'w \<Rightarrow> 'w \<times> string go_result" where
  "createGroup api cfg w = NewGroup api (cg_GroupName cfg) (cg_MaxBytes cfg) (Some (source_getter (cg_DB cfg))) w"

definition createRegistry :: "go_err \<Rightarrow> (string \<Rightarrow> string) \<Rightarrow> string \<Rightarrow> int \<Rightarrow> int \<Rightarrow> string list \<Rightarrow> Registry go_result" where
  "createRegistry create env bindAddr cachePort gossipPort seeds =
     NewRegistry create \<lparr>rc_BindAddr = bindAddr, rc_CachePort = cachePort, rc_APIPort = 0, rc_GossipBindPort = gossipPort,
       rc_SeedPeers = seeds, rc_TLS = tlsConfigFromEnv env\<rparr>"

definition createHotKeyTracker :: "Registry \<Rightarrow> string \<Rightarrow> HotKeyTracker" where
  "createHotKeyTracker registry localAddr = NewHotKeyTracker DefaultHotKeyConfig (Some registry) localAddr"

text \<open>\<open>listen\<close> is the outcome of \<^verbatim>\<open>net.Listen\<close>.\<close>

definition grpc_Start :: "go_err \<Rightarrow> ('pair, 'pool) cert_files \<Rightarrow> TLSConfig \<Rightarrow> go_err" where
  "grpc_Start listen fs tlsCfg =
     (case listen of
        Some err \<Rightarrow> Some err
      | None \<Rightarrow>
          (case ServerCredentials fs tlsCfg of
             Inl err \<Rightarrow> Some (ErrorfW ''tls server credentials'' err)
           | Inr creds \<Rightarrow> None))"

definition startGrpcServer :: "go_err \<Rightarrow> ('pair, 'pool) cert_files \<Rightarrow> (string \<Rightarrow> string) \<Rightarrow> go_err" where
  "startGrpcServer listen fs env =
     (case grpc_Start listen fs (tlsConfigFromEnv env) of
        Some err \<Rightarrow> Some (ErrorfW ''gRPC server'' err)
      | None \<Rightarrow> None)"

text \<open>The part of \<^verbatim>\<open>Run\<close> that builds the node, up to the servers.\<close>

definition run_start ::
  "'w cache_api \<Rightarrow> go_err \<Rightarrow> go_err \<Rightarrow> ('pair, 'pool) cert_files \<Rightarrow> (string \<Rightarrow> string) \<Rightarrow> cache_Config \<Rightarrow> 'w \<Rightarrow> 'w \<times> go_err" where
  "run_start api create listen fs env cfg w =
     (let cacheAddr = addrFromHostPort (cg_Host cfg) (cg_Port cfg);
          seeds = (if cg_SeedAddrs cfg = [] then seedAddrs (cg_servers cfg) (cg_Port cfg) else cg_SeedAddrs cfg)
      in case createRegistry create env (cg_Host cfg) (cg_Port cfg) (cg_Gossip cfg) seeds of
           Inl err \<Rightarrow> (w, Some (ErrorfW ''create registry'' err))
         | Inr registry \<Rightarrow>
             (case createGroup api cfg w of
                (w1, Inl err) \<Rightarrow> (w1, Some (ErrorfW ''create group'' err))
              | (w1, Inr gee) \<Rightarrow>
                  (case RegisterPeers api gee registry w1 of
                     (w2, Some err) \<Rightarrow> (w2, Some (ErrorfW ''register peers'' err))
                   | (w2, None) \<Rightarrow>
                       let w3 = SetRegistry api gee (Some registry) w2;
                           w4 = SetHotKeyTracker api gee (Some (createHotKeyTracker registry cacheAddr)) w3;
                           w5 = SetDBLimiter api gee (Some NewDBLoaderLimiter) w4
                       in (w5, startGrpcServer listen fs env))))"

text \<open>The addresses of the health server and of the API gateway.\<close>

definition health_addr :: "cache_Config \<Rightarrow> string" where
  "health_addr cfg = addrFromHostPort (cg_Host cfg) (cg_Port cfg + 100)"

definition api_addr :: "cache_Config \<Rightarrow> string" where
  "api_addr cfg =
     (let a = (if cg_APIAddr cfg = [] then addrFromHostPort (cg_Host cfg) 9999 else cg_APIAddr cfg)
      in if length a > 7 \<and> take 7 a = ''http://'' then drop 7 a else a)"

text \<open>
  The end of \<^verbatim>\<open>Run\<close>: \<open>serve\<close> is what ended the wait, the error of the gRPC server or \<^const>\<open>None\<close> when the context was
  cancelled. The registry of the group, which the node shares, is stopped.
\<close>

definition run_stop :: "'w cache_api \<Rightarrow> string \<Rightarrow> go_err \<Rightarrow> go_err \<Rightarrow> 'w \<Rightarrow> 'w \<times> go_err" where
  "run_stop api gee leave serve w =
     (SetRegistry api gee (map_option (\<lambda>r. fst (StopRegistry leave r)) (g_registry (deref api gee w))) w, serve)"

text \<open>The handler of the API gateway.\<close>

definition api_handler :: "'w cache_api \<Rightarrow> string \<Rightarrow> string \<Rightarrow> 'w \<Rightarrow> ('w \<times> http_status \<times> string go_result) option" where
  "api_handler api gee key w =
     (case group_Get api gee key w of
        None \<Rightarrow> None
      | Some (w1, Inl err) \<Rightarrow> Some (w1, StatusInternalServerError, Inl err)
      | Some (w1, Inr view) \<Rightarrow> Some (w1, StatusOK, Inr (bv_ByteSlice view)))"

section \<open>Lemmas\<close>

lemma validate_servers_ok:
  "validate_servers ss = None \<Longrightarrow> s \<in> set ss
    \<Longrightarrow> 1 \<le> sv_Port s \<and> sv_Port s \<le> 65535 \<and> 1 \<le> sv_Gossip s \<and> sv_Gossip s \<le> 65535 \<and> sv_IP s \<noteq> []"
  by (induction ss rule: validate_servers.induct) (auto split: if_splits)

lemma Validate_ok:
  assumes "Validate c = Inr c'"
  shows "validate_servers (cn_OnlineServers c') = None" "cn_OnlineServers c' = cn_OnlineServers c"
    "0 < cn_MaxBytes c'" "cn_FrontServer c' = cn_FrontServer c" "cn_FrontServer c \<noteq> []"
  using assms by (auto simp: Validate_def push_bit_eq_mult split: if_splits option.splits)

lemma SelfServer_ok: "SelfServer c p = Some s \<Longrightarrow> s \<in> set (cn_OnlineServers c) \<and> sv_Port s = p"
  by (auto simp: SelfServer_def find_Some_iff)

lemma NewRegistry_local:
  "NewRegistry create cfg = Inr r \<Longrightarrow> rg_localAddr r = net_JoinHostPort (rc_BindAddr cfg) (strconv_Itoa (rc_CachePort cfg))"
  by (auto simp: NewRegistry_def Let_def split: option.splits)

lemma NewGroup_getter: "NewGroup api name bytes (Some getter) w = NewGroup api name bytes (Some ()) w"
  by (simp add: NewGroup_def)

lemma NewGroup_result:
  "NewGroup (node db n a) name bytes (Some getter) w = (w1, r) \<Longrightarrow>
     r = Inr name \<and> nw_groups w1 = (nw_groups w)(a := (nw_groups w a)(name \<mapsto> \<lparr>g_name = name,
       g_mainCache = newCache bytes, g_peers = None, g_registry = None, g_replicationFactor = defaultReplicationFactor,
       g_hotTracker = None, g_dbLimiter = None, g_cacheDirty = False\<rparr>))"
  by (auto simp: NewGroup_def)

text \<open>The steps of \<^verbatim>\<open>Run\<close> after the registry exists are steps of the network.\<close>

lemma run_start_steps:
  assumes "net_reachable db w" "nw_groups w a (cg_GroupName cfg) = None" "0 \<le> cg_MaxBytes cfg"
    "createRegistry create env (cg_Host cfg) (cg_Port cfg) (cg_Gossip cfg)
      (if cg_SeedAddrs cfg = [] then seedAddrs (cg_servers cfg) (cg_Port cfg) else cg_SeedAddrs cfg) = Inr reg"
    "run_start (node db n a) create listen fs env cfg w = (w', e)"
  shows "net_reachable db w' \<and> e = startGrpcServer listen fs env
    \<and> nw_groups w' a (cg_GroupName cfg) = Some \<lparr>g_name = cg_GroupName cfg, g_mainCache = newCache (cg_MaxBytes cfg),
        g_peers = Some reg, g_registry = Some reg, g_replicationFactor = defaultReplicationFactor,
        g_hotTracker = Some (createHotKeyTracker reg (addrFromHostPort (cg_Host cfg) (cg_Port cfg))),
        g_dbLimiter = Some NewDBLoaderLimiter, g_cacheDirty = False\<rparr>"
proof -
  let ?api = "node db n a" and ?gn = "cg_GroupName cfg"
  let ?t = "Some (createHotKeyTracker reg (addrFromHostPort (cg_Host cfg) (cg_Port cfg)))"
  obtain w1 r where w1: "NewGroup ?api ?gn (cg_MaxBytes cfg) (Some ()) w = (w1, r)" by fastforce
  note N = NewGroup_result [OF w1]
  obtain w2 where p: "RegisterPeers ?api ?gn reg w1 = (w2, None)" using N by (simp add: RegisterPeers_def deref_def)
  let ?w3 = "SetRegistry ?api ?gn (Some reg) w2"
  let ?w4 = "SetHotKeyTracker ?api ?gn ?t ?w3"
  have g1: "\<exists>g. nw_groups w1 a ?gn = Some g" using N by simp
  have g2: "\<exists>g. nw_groups w2 a ?gn = Some g" using N p by (auto simp: RegisterPeers_def deref_def)
  have g3: "\<exists>g. nw_groups ?w3 a ?gn = Some g" by (simp add: SetRegistry_def)
  have g4: "\<exists>g. nw_groups ?w4 a ?gn = Some g" by (simp add: SetHotKeyTracker_def)
  have 1: "net_reachable db w1" by (rule net_reachable.step [OF assms(1) net_step.create [OF assms(2,3) w1]])
  have 2: "net_reachable db w2" using net_reachable.step [OF 1 net_step.peers [OF _ p]] g1 by blast
  have 3: "net_reachable db ?w3" using net_reachable.step [OF 2 net_step.registry] g2 by blast
  have 4: "net_reachable db ?w4" using net_reachable.step [OF 3 net_step.tracker] g3 by blast
  have 5: "net_reachable db (SetDBLimiter ?api ?gn (Some NewDBLoaderLimiter) ?w4)"
    using net_reachable.step [OF 4 net_step.limiter] g4 by blast
  have "w' = SetDBLimiter ?api ?gn (Some NewDBLoaderLimiter) ?w4 \<and> e = startGrpcServer listen fs env"
    using assms(4,5) w1 N p by (simp add: run_start_def createGroup_def NewGroup_getter [of _ _ _ "source_getter _"] Let_def)
  then show ?thesis
    using 5 N p by (auto simp: SetDBLimiter_def SetHotKeyTracker_def SetRegistry_def RegisterPeers_def deref_def)
qed

section \<open>Properties\<close>

text \<open>
  C37: a configuration that \<^verbatim>\<open>LoadConfig\<close> accepts has a host, ports in the range of TCP for this and every other
  server, a positive cache size, and is the configuration of one of the listed servers; the seeds
  of the node are the other servers.
\<close>

theorem loaded_config_valid:
  assumes "cache_LoadConfig env os_Open decode = Inr cfg"
  shows "cg_Host cfg \<noteq> [] \<and> 0 < cg_MaxBytes cfg \<and> cg_APIAddr cfg \<noteq> []
    \<and> (\<exists>s \<in> set (cg_servers cfg). sv_Port s = cg_Port cfg \<and> sv_IP s = cg_Host cfg \<and> sv_Gossip s = cg_Gossip cfg)
    \<and> (\<forall>s \<in> set (cg_servers cfg). {sv_Port s, sv_Gossip s} \<subseteq> {1..65535} \<and> sv_IP s \<noteq> [])
    \<and> set (seedAddrs (cg_servers cfg) (cg_Port cfg)) = SeedAddr ` {s \<in> set (cg_servers cfg). sv_Port s \<noteq> cg_Port cfg}"
proof -
  obtain c c' s where c: "Validate c = Inr c'" "SelfServer c' (pickPort env c') = Some s"
    and cfg: "cg_Host cfg = sv_IP s" "cg_Port cfg = sv_Port s" "cg_Gossip cfg = sv_Gossip s"
      "cg_MaxBytes cfg = cn_MaxBytes c'" "cg_APIAddr cfg = cn_FrontServer c'" "cg_servers cfg = cn_OnlineServers c'"
    using assms by (auto simp: cache_LoadConfig_def Let_def split: sum.splits option.splits)
  note V = Validate_ok [OF c(1)] and S = SelfServer_ok [OF c(2)]
  have ports: "{sv_Port t, sv_Gossip t} \<subseteq> {1..65535} \<and> sv_IP t \<noteq> []" if "t \<in> set (cn_OnlineServers c')" for t
    using validate_servers_ok [OF V(1) that] by simp
  show ?thesis
  proof (intro conjI)
    show "cg_Host cfg \<noteq> []" using ports [of s] S cfg(1) by simp
    show "set (seedAddrs (cg_servers cfg) (cg_Port cfg)) = SeedAddr ` {s \<in> set (cg_servers cfg). sv_Port s \<noteq> cg_Port cfg}"
      by (auto simp: seedAddrs_def)
  qed (use V S cfg ports in auto)
qed

definition sample_conf :: conf_Config where
  "sample_conf = \<lparr>cn_FrontServer = ''http://localhost:9999'', cn_Http = \<lparr>hs_DefaultReplicas = 50, hs_DefaultBasePath = ''/cache/''\<rparr>,
     cn_API = [], cn_OnlineServers = [\<lparr>sv_Port = 8001, sv_API = True, sv_IP = [], sv_Gossip = 0\<rparr>,
       \<lparr>sv_Port = 8002, sv_API = False, sv_IP = ''10.0.0.2'', sv_Gossip = 9100\<rparr>],
     cn_Redis = \<lparr>rs_Addr = [], rs_Port = 0, rs_User = [], rs_Pwd = []\<rparr>,
     cn_MySQL = \<lparr>ms_Password = [], ms_User = [], ms_Database = []\<rparr>, cn_MaxBytes = 0\<rparr>"

theorem loaded_config_valid_witness:
  "\<exists>cfg. cache_LoadConfig (\<lambda>_. []) (\<lambda>_. None) (\<lambda>_. Inr sample_conf) = Inr cfg
    \<and> cg_Gossip cfg = 9001 \<and> cg_MaxBytes cfg = 268435456
    \<and> (\<forall>s \<in> set (cg_servers cfg). {sv_Port s, sv_Gossip s} \<subseteq> {1..65535} \<and> sv_IP s \<noteq> [])"
proof -
  obtain cfg where cfg: "cache_LoadConfig (\<lambda>_. []) (\<lambda>_. None) (\<lambda>_. Inr sample_conf) = Inr cfg"
    "cg_Gossip cfg = 9001" "cg_MaxBytes cfg = 268435456"
    by (simp add: cache_LoadConfig_def ConfigData_Load_def NewConfigData_def conf_LoadConfig_def sample_conf_def Validate_def
        server_defaults_def SelfServer_def pickPort_def push_bit_eq_mult)
  then show ?thesis using loaded_config_valid [OF cfg(1)] by blast
qed

text \<open>
  C38: starting a node by \<^verbatim>\<open>Run\<close> is a run of the network, so everything that holds in reachable networks holds
  afterwards. The group of the node is empty, keeps two copies of a key, limits the loads, and knows the registry
  that carries the address of the node; the result is the outcome of the gRPC server.
\<close>

theorem run_builds_node:
  assumes "net_reachable db w" and "nw_groups w a (cg_GroupName cfg) = None" and "0 \<le> cg_MaxBytes cfg"
    and "run_start (node db n a) None listen fs env cfg w = (w', e)"
  shows "net_reachable db w' \<and> e = startGrpcServer listen fs env
    \<and> (\<exists>g r. nw_groups w' a (cg_GroupName cfg) = Some g \<and> g_registry g = Some r \<and> g_peers g = Some r
        \<and> rg_localAddr r = net_JoinHostPort (cg_Host cfg) (strconv_Itoa (cg_Port cfg))
        \<and> g_replicationFactor g = 2 \<and> g_dbLimiter g = Some NewDBLoaderLimiter \<and> \<not> g_cacheDirty g
        \<and> g_hotTracker g \<noteq> None \<and> (\<forall>key. cached w' a (cg_GroupName cfg) key = None))"
proof -
  obtain reg where reg: "createRegistry None env (cg_Host cfg) (cg_Port cfg) (cg_Gossip cfg)
      (if cg_SeedAddrs cfg = [] then seedAddrs (cg_servers cfg) (cg_Port cfg) else cg_SeedAddrs cfg) = Inr reg"
    by (simp add: createRegistry_def NewRegistry_def Let_def)
  have "rg_localAddr reg = net_JoinHostPort (cg_Host cfg) (strconv_Itoa (cg_Port cfg))"
    using NewRegistry_local [OF reg [unfolded createRegistry_def]] by simp
  moreover note run_start_steps [OF assms(1-3) reg assms(4)]
  ultimately show ?thesis
    using newCache_ok [OF assms(3)] by (simp add: defaultReplicationFactor_def cached_def)
qed

definition sample_node :: cache_Config where
  "sample_node = \<lparr>cg_Host = ''10.0.0.1'', cg_Port = 8001, cg_Gossip = 9001, cg_IsAPI = False, cg_GroupName = ''scores'',
     cg_MaxBytes = 1024, cg_APIAddr = [], cg_SeedAddrs = [], cg_DB = [''Tom'' \<mapsto> ''630''], cg_servers = []\<rparr>"

definition no_certs :: "(unit, unit) cert_files" where
  "no_certs = \<lparr>read_file = (\<lambda>_. Inl ContextError), load_pair = (\<lambda>_ _. Inl ContextError), parse_pem = (\<lambda>_. None)\<rparr>"

theorem run_builds_node_witness:
  "\<exists>w' g r. run_start (node (\<lambda>_. cg_DB sample_node) 0 ''A'') None None no_certs (\<lambda>_. []) sample_node net_init = (w', None)
    \<and> net_reachable (\<lambda>_. cg_DB sample_node) w' \<and> nw_groups w' ''A'' (cg_GroupName sample_node) = Some g
    \<and> g_registry g = Some r \<and> g_replicationFactor g = 2"
proof -
  let ?db = "\<lambda>_. cg_DB sample_node"
  obtain w' e where w': "run_start (node ?db 0 ''A'') None None no_certs (\<lambda>_. []) sample_node net_init = (w', e)" by fastforce
  have n: "nw_groups net_init ''A'' (cg_GroupName sample_node) = None" by (simp add: net_init_def)
  have m: "0 \<le> cg_MaxBytes sample_node" by (simp add: sample_node_def)
  have e: "startGrpcServer None no_certs (\<lambda>_. []) = None"
    by (simp add: startGrpcServer_def grpc_Start_def tlsConfigFromEnv_def ServerCredentials_def)
  show ?thesis using run_builds_node [OF net_reachable.init n m w'] w' unfolding e by blast
qed

text \<open>
  the \<^verbatim>\<open>cache\<close> command starts its node without a data source. In a network of such nodes no read ever
  returns a value.
\<close>

theorem cli_cache_serves_nothing:
  assumes "net_reachable (\<lambda>a. cg_DB (buildCacheConfig (flags a) (app a))) w" and "nw_groups w a gn = Some g"
    and "group_Get (node (\<lambda>a. cg_DB (buildCacheConfig (flags a) (app a))) n a) gn key w = Some (w', r)"
  shows "\<exists>e. r = Inl e"
proof (cases r)
  case (Inr v)
  obtain E where E: "net_inv (\<lambda>a. cg_DB (buildCacheConfig (flags a) (app a))) E w"
    using net_reachable_inv [OF assms(1)] by blast
  then have "gn \<in> E a" using net_inv_group assms(2) by blast
  from net.Get_safe [OF E this assms(3)] Inr show ?thesis by (simp add: served_def buildCacheConfig_def)
qed simp

definition sample_app :: RuntimeConfig where
  "sample_app = \<lparr>rt_ProjectRoot = ''/srv'', rt_RedisHostConfigPath = ''/etc/redis'', rt_RedisConfigPath = ''/etc/redis'',
     rt_RedisHostDataPath = ''/data'', rt_RedisConfigDataPath = ''/data'', rt_RuntimeStateDir = ''/srv/state'',
     rt_ConfigSaveFileName = ''/srv/state/c.json'', rt_Backend = ''podman'', rt_DBPath = ''/srv/state/c.db'', rt_ContainerdSocket = [],
     rt_ImageName = ''redis:7'', rt_RedisContainerPort = 6379, rt_Cache = None, rt_DNS = None\<rparr>"

definition cli_node :: cache_Config where
  "cli_node = buildCacheConfig \<lparr>fl_port = 8001, fl_gossip = 9001, fl_api = False, fl_seeds = []\<rparr> sample_app"

theorem cli_cache_serves_nothing_witness:
  "\<exists>w w' e. net_reachable (\<lambda>a. cg_DB cli_node) w
    \<and> group_Get (node (\<lambda>a. cg_DB cli_node) 0 ''A'') ''scores'' ''Tom'' w = Some (w', Inl e)"
proof -
  let ?db = "\<lambda>a :: string. cg_DB cli_node"
  obtain w r where w: "NewGroup (node ?db 0 ''A'') ''scores'' 100 (Some ()) net_init = (w, r)" by fastforce
  have "nw_groups net_init ''A'' ''scores'' = None" by (simp add: net_init_def)
  then have R: "net_reachable ?db w"
    using net_reachable.step [OF net_reachable.init net_step.create [OF _ _ w]] by simp
  obtain g where g: "nw_groups w ''A'' ''scores'' = Some g" "g_registry g = None" "g_dbLimiter g = None"
    "g_hotTracker g = None" "\<not> g_cacheDirty g" "g_mainCache g = newCache 100"
    using NewGroup_result [OF w] by simp
  obtain w' q where G: "group_Get (node ?db 0 ''A'') ''scores'' ''Tom'' w = Some (w', q)"
    using g by (simp add: group_Get_def lookup_local_def RecordAccess_def cache_get_def newCache_def load_def getLocally_def
        limiter_Wait_def source_getter_def cli_node_def buildCacheConfig_def deref_def)
  have "\<exists>e. q = Inl e" by (rule cli_cache_serves_nothing [OF R [unfolded cli_node_def] g(1) G [unfolded cli_node_def]])
  then show ?thesis using R G by blast
qed

text \<open>
  The \<^verbatim>\<open>cache\<close> command binds to the unspecified address and announces it: the name under which a node is
  known to its peers depends on its port only, so nodes on different machines with the same port are one and the
  same member, and the address of any other names the machine that dials it.
\<close>

theorem cli_local_address:
  assumes "createRegistry create env (cg_Host (buildCacheConfig flags app)) (cg_Port (buildCacheConfig flags app))
      (cg_Gossip (buildCacheConfig flags app)) seeds = Inr r"
  shows "rg_localAddr r = ''0.0.0.0:'' @ strconv_Itoa (cg_Port (buildCacheConfig flags app))"
  using NewRegistry_local [OF assms [unfolded createRegistry_def]] by (simp add: net_JoinHostPort_def buildCacheConfig_def)

end
