(* ===== verification/Containerd.thy ===== *)
theory Containerd
  imports Podman
begin

text \<open>
  \<^verbatim>\<open>cluster/backend/containerd.go\<close>, the backend that is compiled in with the build tag
  \<^verbatim>\<open>containerd\<close>. The client library is a record of functions on an external state; a
  container is a value of type \<open>'c\<close>. A slice out of range is a panic. The specification of a container
  is the data that the code puts into the OCI structure.
\<close>

section \<open>The client library\<close>

record Mount =
  mt_Destination :: string
  mt_Type :: string
  mt_Source :: string
  mt_Options :: "string list"

datatype LinuxNamespace = PIDNamespace | IPCNamespace | UTSNamespace | MountNamespace | NetworkNamespace

record Spec =
  sp_Version :: string
  sp_Args :: "string list"
  sp_Env :: "string list"
  sp_Cwd :: string
  sp_Capabilities :: "string list"
  sp_Rlimits :: "(string \<times> int \<times> int) list"
  sp_RootPath :: string
  sp_Readonly :: bool
  sp_Mounts :: "Mount list"
  sp_Namespaces :: "LinuxNamespace list"

text \<open>
  \<open>ct_Containers\<close> gives the containers that satisfy all the filters; \<open>ct_Task\<close> is whether the
  container has a task; \<open>ct_Info\<close> gives the labels, where a label that is not set reads as the empty string.
\<close>

record ('w, 'c) containerd_api =
  ct_ctx :: "'w \<Rightarrow> go_err"
  ct_Abs :: "string \<Rightarrow> string go_result"
  ct_Pull :: "string \<Rightarrow> 'w \<Rightarrow> 'w \<times> go_err"
  ct_NewContainer :: "string \<Rightarrow> string \<Rightarrow> Spec \<Rightarrow> (string \<times> string) list \<Rightarrow> 'w \<Rightarrow> 'w \<times> 'c go_result"
  ct_ID :: "'c \<Rightarrow> string"
  ct_NewTask :: "'c \<Rightarrow> 'w \<Rightarrow> 'w \<times> go_err"
  ct_Start :: "'c \<Rightarrow> 'w \<Rightarrow> 'w \<times> go_err"
  ct_Task :: "'c \<Rightarrow> 'w \<Rightarrow> 'w \<times> go_err"
  ct_DeleteTask :: "'c \<Rightarrow> 'w \<Rightarrow> 'w \<times> go_err"
  ct_Delete :: "'c \<Rightarrow> 'w \<Rightarrow> 'w \<times> go_err"
  ct_Containers :: "string list \<Rightarrow> 'w \<Rightarrow> 'w \<times> 'c list go_result"
  ct_Info :: "'c \<Rightarrow> 'w \<Rightarrow> 'w \<times> (string \<Rightarrow> string) go_result"

section \<open>The manager\<close>

record ContainerdNodeManager =
  ctm_config :: RuntimeConfig
  ctm_base :: baseNodeManager

text \<open>\<open>connect\<close> is the outcome of \<^verbatim>\<open>containerd.New\<close>.\<close>

definition NewContainerdNodeManager :: "go_err \<Rightarrow> RuntimeConfig \<Rightarrow> ContainerdNodeManager go_result" where
  "NewContainerdNodeManager connect cfg =
     (case connect of
        Some err \<Rightarrow> Inl (ErrorfW ''failed to connect to containerd'' err)
      | None \<Rightarrow> Inr \<lparr>ctm_config = cfg, ctm_base = \<lparr>bn_IPToNode = Map.empty, bn_HostToNode = Map.empty,
          bn_IDToNode = Map.empty, bn_Nodes = [], bn_Num = 0\<rparr>\<rparr>)"

definition ctm_AddRuntimeNode :: "RuntimeNode \<Rightarrow> ContainerdNodeManager \<Rightarrow> ContainerdNodeManager" where
  "ctm_AddRuntimeNode node c =
     (let node' = (if na_ClientAddr (rn_Address node) = [] then
                     node\<lparr>rn_Address := \<lparr>na_ClusterAddr = host_port (rn_ConIp node) (rn_ConPort node),
                                        na_ClientAddr = host_port (rn_HostIP node) (rn_HostPort node)\<rparr>\<rparr>
                   else node)
      in c\<lparr>ctm_base := addNode node' (ctm_base c)\<rparr>)"

definition ctm_HasCluster :: "ContainerdNodeManager \<Rightarrow> string \<Rightarrow> bool" where
  "ctm_HasCluster c clusterName = hasCluster clusterName (ctm_base c)"

definition ctm_GetNodes :: "ContainerdNodeManager \<Rightarrow> RuntimeNode list" where
  "ctm_GetNodes c = getNodes (ctm_base c)"

definition ctm_GetNodeByIP :: "ContainerdNodeManager \<Rightarrow> string \<Rightarrow> RuntimeNode option" where
  "ctm_GetNodeByIP c ip = getNodeByIP ip (ctm_base c)"

definition ctm_GetNodeByHost :: "ContainerdNodeManager \<Rightarrow> string \<Rightarrow> RuntimeNode option" where
  "ctm_GetNodeByHost c host = getNodeByHost host (ctm_base c)"

definition ctm_GetNodeCount :: "ContainerdNodeManager \<Rightarrow> int" where
  "ctm_GetNodeCount c = getNodeCount (ctm_base c)"

definition ctm_CountByCluster :: "ContainerdNodeManager \<Rightarrow> string \<Rightarrow> int" where
  "ctm_CountByCluster c clusterName = countByCluster clusterName (ctm_base c)"

section \<open>The specification of a container\<close>

definition defaultCaps :: "string list" where
  "defaultCaps = [''CAP_CHOWN'', ''CAP_DAC_OVERRIDE'', ''CAP_FSETID'', ''CAP_FOWNER'', ''CAP_MKNOD'', ''CAP_NET_RAW'',
     ''CAP_SETGID'', ''CAP_SETUID'', ''CAP_SETFCAP'', ''CAP_SETPCAP'', ''CAP_NET_BIND_SERVICE'', ''CAP_SYS_CHROOT'',
     ''CAP_KILL'', ''CAP_AUDIT_WRITE'']"

text \<open>All four capability sets are the same.\<close>

definition defaultSpec :: Spec where
  "defaultSpec = \<lparr>sp_Version = ''1.0.0'', sp_Args = [],
     sp_Env = [''PATH=/usr/local/sbin:/usr/local/bin:/usr/sbin:/usr/bin:/sbin:/bin''], sp_Cwd = ''/'',
     sp_Capabilities = defaultCaps, sp_Rlimits = [(''RLIMIT_NOFILE'', 1024, 1024)],
     sp_RootPath = ''rootfs'', sp_Readonly = False,
     sp_Mounts =
       [\<lparr>mt_Destination = ''/proc'', mt_Type = ''proc'', mt_Source = ''proc'', mt_Options = []\<rparr>,
        \<lparr>mt_Destination = ''/dev'', mt_Type = ''tmpfs'', mt_Source = ''tmpfs'',
         mt_Options = [''nosuid'', ''strictatime'', ''mode=755'', ''size=65536k'']\<rparr>,
        \<lparr>mt_Destination = ''/dev/pts'', mt_Type = ''devpts'', mt_Source = ''devpts'',
         mt_Options = [''nosuid'', ''noexec'', ''newinstance'', ''ptmxmode=0666'', ''mode=0620'']\<rparr>,
        \<lparr>mt_Destination = ''/sys'', mt_Type = ''sysfs'', mt_Source = ''sysfs'',
         mt_Options = [''nosuid'', ''noexec'', ''nodev'', ''ro'']\<rparr>],
     sp_Namespaces = [PIDNamespace, IPCNamespace, UTSNamespace, MountNamespace]\<rparr>"

definition pod_port :: "RuntimeConfig \<Rightarrow> int \<Rightarrow> int" where
  "pod_port cfg i = uint (rt_RedisContainerPort cfg) + (i - 1)"

definition redis_args :: "RuntimeConfig \<Rightarrow> string \<Rightarrow> int \<Rightarrow> string list" where
  "redis_args cfg clusterName i =
     (let port = pod_port cfg i;
          busPort = port + 10000;
          redisArgs = [''redis-server'', rt_RedisConfigPath cfg @ ''/redis.conf'', ''--port'', strconv_Itoa port,
            ''--cluster-announce-bus-port'', strconv_Itoa busPort]
      in if DNSEnabled cfg then redisArgs @ [''--cluster-announce-ip'', containerName clusterName i] else redisArgs)"

definition pod_spec :: "(string \<Rightarrow> string go_result) \<Rightarrow> RuntimeConfig \<Rightarrow> string \<Rightarrow> int \<Rightarrow> Spec" where
  "pod_spec absPath cfg clusterName i =
     (let configHostPath = (case absPath (rt_RedisHostConfigPath cfg) of Inr p \<Rightarrow> p | Inl _ \<Rightarrow> rt_RedisHostConfigPath cfg);
          dataHostPath = filepath_Join [rt_RedisHostDataPath cfg, clusterName]
      in defaultSpec\<lparr>sp_Args := redis_args cfg clusterName i,
           sp_Mounts :=
             [\<lparr>mt_Destination = rt_RedisConfigPath cfg, mt_Type = ''bind'', mt_Source = configHostPath,
               mt_Options = [''rbind'', ''ro'']\<rparr>,
              \<lparr>mt_Destination = rt_RedisConfigDataPath cfg, mt_Type = ''bind'', mt_Source = dataHostPath,
               mt_Options = [''rbind'', ''rw'']\<rparr>]\<rparr>)"

definition pod_labels :: "string \<Rightarrow> int \<Rightarrow> (string \<times> string) list" where
  "pod_labels clusterName i =
     [(''cluster-name'', clusterName), (''managed-by'', ''clusterManager''), (''node-index'', strconv_Itoa i)]"

text \<open>The tracked node of a container; its host name is set when DNS is on.\<close>

definition pod_node :: "RuntimeConfig \<Rightarrow> string \<Rightarrow> string \<Rightarrow> string \<Rightarrow> int \<Rightarrow> string \<Rightarrow> RuntimeNode" where
  "pod_node cfg name containerID clusterName i label =
     \<lparr>rn_HostIP = ''127.0.0.1'', rn_HostPort = word_of_int (pod_port cfg i), rn_ConIp = ''127.0.0.1'',
      rn_ConPort = word_of_int (pod_port cfg i),
      rn_Hostname = (if DNSEnabled cfg then BuildHostname cfg clusterName i else []),
      rn_Name = name, rn_ID = take 12 containerID, rn_ClusterName = label,
      rn_Address = \<lparr>na_ClusterAddr = [], na_ClientAddr = []\<rparr>\<rparr>"

section \<open>Creating, listing and deleting containers\<close>

text \<open>One round of the loop of \<^verbatim>\<open>CreatePods\<close>.\<close>

definition ctm_create_pod ::
  "('w, 'c) containerd_api \<Rightarrow> string \<Rightarrow> int \<Rightarrow> ContainerdNodeManager \<times> 'w \<Rightarrow> (ContainerdNodeManager \<times> 'w) \<times> go_err" where
  "ctm_create_pod api clusterName i = (\<lambda>(c, w).
     case ct_ctx api w of
       Some e \<Rightarrow> ((c, w), Some e)
     | None \<Rightarrow>
         let name = containerName clusterName i; cfg = ctm_config c in
         case ct_NewContainer api name (name @ ''-snapshot'') (pod_spec (ct_Abs api) cfg clusterName i)
                (pod_labels clusterName i) w of
           (w1, Inl err) \<Rightarrow> ((c, w1), Some (ErrorfW ''create container fail'' err))
         | (w1, Inr container) \<Rightarrow>
             (case ct_NewTask api container w1 of
                (w2, Some err) \<Rightarrow>
                  ((c, fst (ct_Delete api container w2)), Some (ErrorfW ''create task fail'' err))
              | (w2, None) \<Rightarrow>
                  (case ct_Start api container w2 of
                     (w3, Some err) \<Rightarrow>
                       ((c, fst (ct_Delete api container (fst (ct_DeleteTask api container w3)))),
                        Some (ErrorfW ''start task fail'' err))
                   | (w3, None) \<Rightarrow>
                       let containerID = ct_ID api container in
                       if length containerID < 12 then ((c, w3), Some (Panic ''slice bounds out of range''))
                       else ((ctm_AddRuntimeNode (pod_node cfg name containerID clusterName i clusterName) c, w3), None))))"

fun ctm_create_loop ::
  "('w, 'c) containerd_api \<Rightarrow> string \<Rightarrow> int list \<Rightarrow> ContainerdNodeManager \<times> 'w \<Rightarrow> (ContainerdNodeManager \<times> 'w) \<times> go_err" where
  "ctm_create_loop api clusterName [] s = (s, None)"
| "ctm_create_loop api clusterName (i # is) s =
     (case ctm_create_pod api clusterName i s of
        (s', Some e) \<Rightarrow> (s', Some e)
      | (s', None) \<Rightarrow> ctm_create_loop api clusterName is s')"

definition ctm_CreatePods ::
  "('w, 'c) containerd_api \<Rightarrow> int \<Rightarrow> string \<Rightarrow> ContainerdNodeManager \<times> 'w \<Rightarrow> (ContainerdNodeManager \<times> 'w) \<times> go_err" where
  "ctm_CreatePods api nodeNum clusterName = (\<lambda>(c, w).
     let start = bn_Num (ctm_base c) + 1; end' = bn_Num (ctm_base c) + nodeNum
     in case ct_Pull api (rt_ImageName (ctm_config c)) w of
          (w1, Some err) \<Rightarrow> ((c, w1), Some (ErrorfW ''pull image fail'' err))
        | (w1, None) \<Rightarrow> ctm_create_loop api clusterName [start..end'] (c, w1))"

definition cluster_filters :: "string \<Rightarrow> string list" where
  "cluster_filters clusterName =
     [''labels.'' @ [CHR 0x22] @ ''cluster-name'' @ [CHR 0x22] @ ''=='' @ clusterName,
      ''labels.'' @ [CHR 0x22] @ ''managed-by'' @ [CHR 0x22] @ ''==clusterManager'']"

text \<open>The entry of a listed container; the address and the index by host name are not filled in.\<close>

definition list_entry :: "RuntimeConfig \<Rightarrow> string \<Rightarrow> string \<Rightarrow> (string \<Rightarrow> string) \<Rightarrow> RuntimeNode" where
  "list_entry cfg clusterName containerID labels =
     pod_node cfg containerID containerID clusterName (atoi_value (labels ''node-index'')) (labels ''cluster-name'')"

definition track_listed :: "RuntimeNode \<Rightarrow> baseNodeManager \<Rightarrow> baseNodeManager" where
  "track_listed node b =
     b\<lparr>bn_Nodes := bn_Nodes b @ [node], bn_IDToNode := (bn_IDToNode b)(rn_ID node \<mapsto> node),
       bn_IPToNode := (bn_IPToNode b)(rn_ConIp node \<mapsto> node), bn_Num := bn_Num b + 1\<rparr>"

fun ctm_list_loop ::
  "('w, 'c) containerd_api \<Rightarrow> string \<Rightarrow> 'c list \<Rightarrow> ContainerdNodeManager \<times> 'w \<Rightarrow> (ContainerdNodeManager \<times> 'w) \<times> go_err" where
  "ctm_list_loop api clusterName [] s = (s, None)"
| "ctm_list_loop api clusterName (container # cs) (c, w) =
     (case ct_Info api container w of
        (w1, Inl err) \<Rightarrow> ctm_list_loop api clusterName cs (c, w1)
      | (w1, Inr labels) \<Rightarrow>
          if length (ct_ID api container) < 12 then ((c, w1), Some (Panic ''slice bounds out of range''))
          else ctm_list_loop api clusterName cs
            (c\<lparr>ctm_base := track_listed (list_entry (ctm_config c) clusterName (ct_ID api container) labels) (ctm_base c)\<rparr>, w1))"

definition ctm_ListPodsByCluster ::
  "('w, 'c) containerd_api \<Rightarrow> string \<Rightarrow> ContainerdNodeManager \<times> 'w \<Rightarrow> (ContainerdNodeManager \<times> 'w) \<times> go_err" where
  "ctm_ListPodsByCluster api clusterName = (\<lambda>(c, w).
     let c1 = c\<lparr>ctm_base := resetMaps (ctm_base c)\<rparr>
     in case ct_Containers api (cluster_filters clusterName) w of
          (w1, Inl err) \<Rightarrow> ((c1, w1), Some (ErrorfW ''list containers fail'' err))
        | (w1, Inr containers) \<Rightarrow> ctm_list_loop api clusterName containers (c1, w1))"

text \<open>A task that exists is deleted, then the container; a failure is printed.\<close>

definition delete_container :: "('w, 'c) containerd_api \<Rightarrow> 'c \<Rightarrow> 'w \<Rightarrow> 'w" where
  "delete_container api container w =
     (case ct_Task api container w of
        (w1, None) \<Rightarrow> fst (ct_Delete api container (fst (ct_DeleteTask api container w1)))
      | (w1, Some _) \<Rightarrow> fst (ct_Delete api container w1))"

definition ctm_DeleteResources :: "('w, 'c) containerd_api \<Rightarrow> string \<Rightarrow> 'w \<Rightarrow> 'w \<times> go_err" where
  "ctm_DeleteResources api clusterName w =
     (case ct_Containers api (cluster_filters clusterName) w of
        (w1, Inl err) \<Rightarrow> (w1, Some (ErrorfW ''list containers fail'' err))
      | (w1, Inr containers) \<Rightarrow> (fold (delete_container api) containers w1, None))"

section \<open>Invariant\<close>

lemma track_listed_inv [wf_intros]: "base_inv b \<Longrightarrow> base_inv (track_listed n b)"
  by (auto simp: base_inv_def track_listed_def)

lemma ctm_list_loop_inv:
  "base_inv (ctm_base (fst s)) \<Longrightarrow> base_inv (ctm_base (fst (fst (ctm_list_loop api cn cs s))))"
  by (induction api cn cs s rule: ctm_list_loop.induct)
    (auto simp: track_listed_inv split: prod.splits sum.splits)

text \<open>What a container's identifier is: the library keeps the one that the container was created with.\<close>

definition keeps_id :: "('w, 'c) containerd_api \<Rightarrow> bool" where
  "keeps_id api = (\<forall>name snap spec labels w w' k.
     ct_NewContainer api name snap spec labels w = (w', Inr k) \<longrightarrow> ct_ID api k = name)"

text \<open>The node that a successful round tracks.\<close>

definition tracked_node :: "RuntimeConfig \<Rightarrow> string \<Rightarrow> int \<Rightarrow> RuntimeNode" where
  "tracked_node cfg cn i =
     (let name = containerName cn i; n = pod_node cfg name name cn i cn
      in n\<lparr>rn_Address := \<lparr>na_ClusterAddr = host_port (rn_ConIp n) (rn_ConPort n),
                          na_ClientAddr = host_port (rn_HostIP n) (rn_HostPort n)\<rparr>\<rparr>)"

lemma ctm_create_pod_ok:
  assumes "keeps_id api" "ctm_create_pod api cn i (c, w) = (s', None)"
  shows "12 \<le> length (containerName cn i)"
    "fst s' = c\<lparr>ctm_base := addNode (tracked_node (ctm_config c) cn i) (ctm_base c)\<rparr>"
proof -
  let ?name = "containerName cn i"
  have n: "na_ClientAddr (rn_Address (pod_node cfg nm cid cn i l)) = []" for cfg nm cid l by (simp add: pod_node_def)
  obtain w1 k where k: "ct_NewContainer api ?name (?name @ ''-snapshot'') (pod_spec (ct_Abs api) (ctm_config c) cn i)
      (pod_labels cn i) w = (w1, Inr k)"
    using assms(2) by (auto simp: ctm_create_pod_def Let_def split: option.splits prod.splits sum.splits)
  then have ID: "ct_ID api k = ?name" using assms(1) by (auto simp: keeps_id_def)
  have "12 \<le> length ?name \<and> fst s' = c\<lparr>ctm_base := addNode (tracked_node (ctm_config c) cn i) (ctm_base c)\<rparr>"
    using assms(2) k ID n
    by (auto simp: ctm_create_pod_def tracked_node_def ctm_AddRuntimeNode_def Let_def
        split: option.splits prod.splits if_splits)
  then show "12 \<le> length ?name"
    "fst s' = c\<lparr>ctm_base := addNode (tracked_node (ctm_config c) cn i) (ctm_base c)\<rparr>" by simp_all
qed

lemma ctm_create_loop_ok:
  assumes "keeps_id api" "ctm_create_loop api cn is (c, w) = (s', None)"
  shows "fst s' = c\<lparr>ctm_base := fold addNode (map (tracked_node (ctm_config c) cn) is) (ctm_base c)\<rparr>
    \<and> (\<forall>i \<in> set is. 12 \<le> length (containerName cn i))"
  using assms(2)
proof (induction "is" arbitrary: c w)
  case (Cons i "is")
  obtain c1 w1 e where p: "ctm_create_pod api cn i (c, w) = ((c1, w1), e)" by (metis prod.collapse)
  then have e: "e = None" and r: "ctm_create_loop api cn is (c1, w1) = (s', None)"
    using Cons.prems by (auto split: option.splits)
  note P = ctm_create_pod_ok [OF assms(1) p [unfolded e]]
  show ?case using Cons.IH [OF r] P by simp
qed auto

lemma fold_addNode:
  "bn_Nodes (fold addNode ns b) = bn_Nodes b @ ns" "bn_Num (fold addNode ns b) = bn_Num b + int (length ns)"
  by (induction ns arbitrary: b) simp_all

lemma fold_addNode_inv: "base_inv b \<Longrightarrow> base_inv (fold addNode ns b)"
  by (induction ns arbitrary: b) (simp_all add: base_inv_add)

lemma containerName_take: "5 \<le> length cn \<Longrightarrow> take 12 (containerName cn i) = take 12 (cn @ ''-redis-'')"
  using take_append [of 12 "cn @ ''-redis-''" "strconv_Itoa i"] by (simp add: containerName_def del: take_append)

section \<open>Properties\<close>

text \<open>
  C39: if \<^verbatim>\<open>CreatePods\<close> of the containerd backend succeeds, it has tracked exactly the requested number of new nodes, in
  the order of their indexes from the first free one on, each with the name of its container and the port that the
  index gives; the earlier nodes stay and the indexes of the manager stay consistent.
\<close>

theorem containerd_create_tracks:
  assumes "keeps_id api" and "ctm_CreatePods api n cn (c, w) = ((c', w'), None)" and "0 \<le> n" and "base_inv (ctm_base c)"
  shows "ctm_GetNodes c' = ctm_GetNodes c
      @ map (tracked_node (ctm_config c) cn) [ctm_GetNodeCount c + 1..ctm_GetNodeCount c + n]
    \<and> ctm_GetNodeCount c' = ctm_GetNodeCount c + n \<and> base_inv (ctm_base c')"
proof -
  let ?is = "[bn_Num (ctm_base c) + 1..bn_Num (ctm_base c) + n]"
  obtain w1 where l: "ctm_create_loop api cn ?is (c, w1) = ((c', w'), None)"
    using assms(2) by (auto simp: ctm_CreatePods_def Let_def split: prod.splits option.splits)
  have "c' = c\<lparr>ctm_base := fold addNode (map (tracked_node (ctm_config c) cn) ?is) (ctm_base c)\<rparr>"
    using ctm_create_loop_ok [OF assms(1) l] by simp
  then show ?thesis
    using fold_addNode_inv [OF assms(4)] assms(3)
    by (simp add: ctm_GetNodes_def getNodes_def ctm_GetNodeCount_def getNodeCount_def fold_addNode)
qed

text \<open>An example: a library that creates every container; the state counts them.\<close>

definition willing :: "(nat, string) containerd_api" where
  "willing = \<lparr>ct_ctx = (\<lambda>w. None), ct_Abs = Inr, ct_Pull = (\<lambda>image w. (w, None)),
     ct_NewContainer = (\<lambda>name snap spec labels w. (Suc w, Inr name)), ct_ID = (\<lambda>k. k), ct_NewTask = (\<lambda>k w. (w, None)),
     ct_Start = (\<lambda>k w. (w, None)), ct_Task = (\<lambda>k w. (w, None)), ct_DeleteTask = (\<lambda>k w. (w, None)),
     ct_Delete = (\<lambda>k w. (w - 1, None)), ct_Containers = (\<lambda>fs w. (w, Inr [])), ct_Info = (\<lambda>k w. (w, Inr (\<lambda>_. [])))\<rparr>"

definition plain_config :: RuntimeConfig where
  "plain_config = \<lparr>rt_ProjectRoot = ''/srv'', rt_RedisHostConfigPath = ''/etc/redis'', rt_RedisConfigPath = ''/etc/redis'',
     rt_RedisHostDataPath = ''/data'', rt_RedisConfigDataPath = ''/data'', rt_RuntimeStateDir = ''/srv/state'',
     rt_ConfigSaveFileName = ''/srv/state/c.json'', rt_Backend = ''containerd'', rt_DBPath = ''/srv/state/c.db'', rt_ContainerdSocket = [],
     rt_ImageName = ''redis:7'', rt_RedisContainerPort = 6379, rt_Cache = None, rt_DNS = None\<rparr>"

definition fresh_manager :: ContainerdNodeManager where
  "fresh_manager = \<lparr>ctm_config = plain_config, ctm_base = \<lparr>bn_IPToNode = Map.empty, bn_HostToNode = Map.empty,
     bn_IDToNode = Map.empty, bn_Nodes = [], bn_Num = 0\<rparr>\<rparr>"

lemma willing_keeps_id: "keeps_id willing"
  by (simp add: keeps_id_def willing_def)

lemma willing_creates: "\<exists>c' w'. ctm_CreatePods willing 2 ''orders'' (fresh_manager, 0) = ((c', w'), None)"
  by (simp add: ctm_CreatePods_def willing_def fresh_manager_def upto.simps ctm_create_pod_def ctm_AddRuntimeNode_def Let_def
      containerName_def plain_config_def)

theorem containerd_create_tracks_witness:
  "\<exists>c' w'. ctm_CreatePods willing 2 ''orders'' (fresh_manager, 0) = ((c', w'), None)
    \<and> ctm_GetNodes c' = map (tracked_node plain_config ''orders'') [1..2]"
proof -
  obtain c' w' where r: "ctm_CreatePods willing 2 ''orders'' (fresh_manager, 0) = ((c', w'), None)"
    using willing_creates by blast
  have f: "base_inv (ctm_base fresh_manager)" "ctm_GetNodes fresh_manager = []" "ctm_GetNodeCount fresh_manager = 0"
    "ctm_config fresh_manager = plain_config"
    by (simp_all add: fresh_manager_def base_inv_def ctm_GetNodes_def getNodes_def ctm_GetNodeCount_def getNodeCount_def)
  show ?thesis using containerd_create_tracks [OF willing_keeps_id r _ f(1)] r f by simp
qed

text \<open>
  The identifier that the manager records is cut to twelve characters, which for a containerd container are the
  first twelve of its name: the nodes of a cluster whose name has five or more characters all have the same one.
  They also all have the same address, so the index by address knows only the last of them.
\<close>

theorem containerd_ids_collide:
  assumes "keeps_id api" and "ctm_CreatePods api n cn (c, w) = ((c', w'), None)" and "5 \<le> length cn"
    and "x \<in> set (drop (length (ctm_GetNodes c)) (ctm_GetNodes c'))"
  shows "rn_ID x = take 12 (cn @ ''-redis-'') \<and> rn_ConIp x = ''127.0.0.1''"
proof -
  let ?is = "[bn_Num (ctm_base c) + 1..bn_Num (ctm_base c) + n]"
  obtain w1 where l: "ctm_create_loop api cn ?is (c, w1) = ((c', w'), None)"
    using assms(2) by (auto simp: ctm_CreatePods_def Let_def split: prod.splits option.splits)
  have "c' = c\<lparr>ctm_base := fold addNode (map (tracked_node (ctm_config c) cn) ?is) (ctm_base c)\<rparr>"
    using ctm_create_loop_ok [OF assms(1) l] by simp
  then obtain i where "x = tracked_node (ctm_config c) cn i"
    using assms(4) by (auto simp: ctm_GetNodes_def getNodes_def fold_addNode)
  then show ?thesis using containerName_take [OF assms(3)] by (simp add: tracked_node_def pod_node_def Let_def)
qed

text \<open>
  For a cluster whose name has at most three characters the container of the first node has a name of fewer than
  twelve characters, and cutting it panics: creating such a cluster never succeeds.
\<close>

theorem containerd_short_name_fails:
  assumes "keeps_id api" and "length cn \<le> 3" and "ctm_GetNodeCount c = 0" and "1 \<le> n"
  shows "\<exists>e. snd (ctm_CreatePods api n cn (c, w)) = Some e"
proof (rule ccontr)
  assume "\<not> ?thesis"
  then obtain c' w' where r: "ctm_CreatePods api n cn (c, w) = ((c', w'), None)"
    by (metis option.exhaust prod.collapse)
  then obtain w1 where l: "ctm_create_loop api cn [bn_Num (ctm_base c) + 1..bn_Num (ctm_base c) + n] (c, w1) = ((c', w'), None)"
    by (auto simp: ctm_CreatePods_def Let_def split: prod.splits option.splits)
  have "12 \<le> length (containerName cn 1)"
    using ctm_create_loop_ok [OF assms(1) l] assms(3,4) by (simp add: ctm_GetNodeCount_def getNodeCount_def)
  then show False using assms(2) by (simp add: containerName_def strconv_Itoa_def itoa_nat.simps)
qed

text \<open>
  the labels of a container carry what the manager needs: the entry that listing reads from them is the node that
  creation tracked, up to the address, which listing leaves empty.
\<close>

theorem containerd_labels_roundtrip:
  assumes "min_int \<le> i" and "i \<le> max_int"
  shows "list_entry cfg cn (containerName cn i) (\<lambda>k. case map_of (pod_labels cn i) k of None \<Rightarrow> [] | Some v \<Rightarrow> v)
    = (tracked_node cfg cn i)\<lparr>rn_Address := \<lparr>na_ClusterAddr = [], na_ClientAddr = []\<rparr>\<rparr>"
  using atoi_value_Atoi [OF strconv_Atoi_Itoa [OF assms]]
  by (simp add: list_entry_def pod_labels_def tracked_node_def pod_node_def Let_def)

theorem containerd_labels_roundtrip_witness:
  "list_entry plain_config ''orders'' (containerName ''orders'' 7)
      (\<lambda>k. case map_of (pod_labels ''orders'' 7) k of None \<Rightarrow> [] | Some v \<Rightarrow> v)
    = (tracked_node plain_config ''orders'' 7)\<lparr>rn_Address := \<lparr>na_ClusterAddr = [], na_ClientAddr = []\<rparr>\<rparr>"
  by (rule containerd_labels_roundtrip) simp_all

end
