(* ===== verification/Commands.thy ===== *)
theory Commands
  imports Ops Cache_Run
begin

text \<open>
  \<^verbatim>\<open>cluster/cmd\<close> and \<^verbatim>\<open>main.go\<close>: the variables behind the flags, the commands and the status of the process.
  Of the library \<^verbatim>\<open>pflag\<close> the code relies on two things: registering a flag stores its default in the variable at once,
  and a flag that is given overwrites the variable. The \<^verbatim>\<open>init\<close> functions of the package run in the order of
  the file names.
\<close>

section \<open>Variables and flags\<close>

record cmd_vars =
  cv_backend :: string
  cv_containerdSocket :: string
  cv_dbPath :: string
  cv_clusterName :: string
  cv_shardCount :: int
  cv_nodesPerShard :: int
  cv_redisPort :: "16 word"
  cv_additionalShards :: int
  cv_cache :: cache_flags

definition zero_vars :: cmd_vars where
  "zero_vars = \<lparr>cv_backend = [], cv_containerdSocket = [], cv_dbPath = [], cv_clusterName = [], cv_shardCount = 0,
     cv_nodesPerShard = 0, cv_redisPort = 0, cv_additionalShards = 0,
     cv_cache = \<lparr>fl_port = 0, fl_gossip = 0, fl_api = False, fl_seeds = []\<rparr>\<rparr>"

definition cache_init :: "cmd_vars \<Rightarrow> cmd_vars" where
  "cache_init v = v\<lparr>cv_cache := \<lparr>fl_port = 0, fl_gossip = 0, fl_api = False, fl_seeds = []\<rparr>\<rparr>"

definition create_init :: "cmd_vars \<Rightarrow> cmd_vars" where
  "create_init v = v\<lparr>cv_shardCount := 3, cv_nodesPerShard := 2, cv_clusterName := ''cluster'', cv_redisPort := 6379\<rparr>"

definition delete_init :: "cmd_vars \<Rightarrow> cmd_vars" where
  "delete_init v = v\<lparr>cv_clusterName := []\<rparr>"

definition root_init :: "cmd_vars \<Rightarrow> cmd_vars" where
  "root_init v = v\<lparr>cv_backend := ''podman'', cv_containerdSocket := [], cv_dbPath := []\<rparr>"

definition scale_init :: "cmd_vars \<Rightarrow> cmd_vars" where
  "scale_init v = v\<lparr>cv_additionalShards := 1, cv_clusterName := []\<rparr>"

definition package_init :: cmd_vars where
  "package_init = scale_init (root_init (delete_init (create_init (cache_init zero_vars))))"

text \<open>The flags of a command line, by command; a persistent flag belongs to all of them.\<close>

record root_flags =
  rf_backend :: "string option"
  rf_containerdSocket :: "string option"
  rf_db :: "string option"

datatype Command =
    CreateCmd "int option" "int option" "string option" "16 word option"
  | ScaleCmd "int option" "string option"
  | DeleteCmd "string option"

definition given :: "'a option \<Rightarrow> 'a \<Rightarrow> 'a" where
  "given flag old = (case flag of None \<Rightarrow> old | Some v \<Rightarrow> v)"

definition parse_root :: "root_flags \<Rightarrow> cmd_vars \<Rightarrow> cmd_vars" where
  "parse_root f v = v\<lparr>cv_backend := given (rf_backend f) (cv_backend v),
     cv_containerdSocket := given (rf_containerdSocket f) (cv_containerdSocket v), cv_dbPath := given (rf_db f) (cv_dbPath v)\<rparr>"

fun parse_command :: "Command \<Rightarrow> cmd_vars \<Rightarrow> cmd_vars" where
  "parse_command (CreateCmd shards nodes name port) v =
     v\<lparr>cv_shardCount := given shards (cv_shardCount v), cv_nodesPerShard := given nodes (cv_nodesPerShard v),
       cv_clusterName := given name (cv_clusterName v), cv_redisPort := given port (cv_redisPort v)\<rparr>"
| "parse_command (ScaleCmd shards name) v =
     v\<lparr>cv_additionalShards := given shards (cv_additionalShards v), cv_clusterName := given name (cv_clusterName v)\<rparr>"
| "parse_command (DeleteCmd name) v = v\<lparr>cv_clusterName := given name (cv_clusterName v)\<rparr>"

section \<open>Commands\<close>

text \<open>The configuration is set by \<^verbatim>\<open>main\<close> before any command runs.\<close>

definition PersistentPreRun :: "cmd_vars \<Rightarrow> RuntimeConfig \<Rightarrow> RuntimeConfig" where
  "PersistentPreRun v cfg =
     (let c1 = (if cv_backend v \<noteq> [] then cfg\<lparr>rt_Backend := cv_backend v\<rparr> else cfg);
          c2 = (if cv_containerdSocket v \<noteq> [] then c1\<lparr>rt_ContainerdSocket := cv_containerdSocket v\<rparr> else c1)
      in if cv_dbPath v \<noteq> [] then c2\<lparr>rt_DBPath := cv_dbPath v\<rparr> else c2)"

text \<open>\<open>create\<close> is a \<^verbatim>\<open>Run\<close> function without a result: it logs the error of the action.\<close>

definition create_Run ::
  "'w os_api \<Rightarrow> bool \<Rightarrow> cmd_vars \<Rightarrow> RuntimeConfig \<Rightarrow> 'w ops_state \<Rightarrow> 'w ops_state proc \<times> go_err" where
  "create_Run api invalidator v cfg s =
     (let cfg' = (if cv_redisPort v \<noteq> 0 then cfg\<lparr>rt_RedisContainerPort := cv_redisPort v\<rparr> else cfg)
      in (fst (CreateClusterAction api cfg' invalidator (cv_shardCount v) (cv_nodesPerShard v) (cv_clusterName v) s), None))"

definition scale_RunE ::
  "'w os_api \<Rightarrow> bool \<Rightarrow> cmd_vars \<Rightarrow> RuntimeConfig \<Rightarrow> 'w ops_state \<Rightarrow> 'w ops_state proc \<times> go_err" where
  "scale_RunE api invalidator v cfg s =
     (if cv_clusterName v = [] then (Running s, Some (Errorf ''please input clustername first''))
      else case ScaleClusterAction api cfg invalidator (cv_additionalShards v) (cv_clusterName v) s of
        (w, e) \<Rightarrow> (w, map_option (ErrorfW ''ScaleCluster() error'') e))"

definition delete_RunE ::
  "'w os_api \<Rightarrow> cmd_vars \<Rightarrow> RuntimeConfig \<Rightarrow> 'w ops_state \<Rightarrow> 'w ops_state proc \<times> go_err" where
  "delete_RunE api v cfg s =
     (if cv_clusterName v = [] then (Running s, Some (Errorf ''please input clustername first''))
      else DeleteAllContainers api cfg (cv_clusterName v) s)"

text \<open>The guard of the \<^verbatim>\<open>cache\<close> command; a node that is enabled is started by \<open>run_start\<close>.\<close>

definition cache_RunE ::
  "'w cache_api \<Rightarrow> go_err \<Rightarrow> go_err \<Rightarrow> ('pair, 'pool) cert_files \<Rightarrow> (string \<Rightarrow> string) \<Rightarrow> cmd_vars \<Rightarrow> RuntimeConfig
   \<Rightarrow> 'w \<Rightarrow> 'w \<times> go_err" where
  "cache_RunE api create listen fs env v cfg w =
     (if (case rt_Cache cfg of Some c \<Rightarrow> \<not> cc_Enabled c | None \<Rightarrow> False) then (w, None)
      else run_start api create listen fs env (buildCacheConfig (cv_cache v) cfg) w)"

text \<open>The process: a result of the command that is an error ends it with status one, as does a panic.\<close>

definition exit_status :: "'s proc \<times> go_err \<Rightarrow> int option" where
  "exit_status r = (case fst r of Hung \<Rightarrow> None | Crashed _ _ \<Rightarrow> Some 2
     | Running _ \<Rightarrow> (case snd r of None \<Rightarrow> Some 0 | Some _ \<Rightarrow> Some 1))"

fun run_command ::
  "'w os_api \<Rightarrow> bool \<Rightarrow> Command \<Rightarrow> cmd_vars \<Rightarrow> RuntimeConfig \<Rightarrow> 'w ops_state \<Rightarrow> 'w ops_state proc \<times> go_err" where
  "run_command api invalidator (CreateCmd a b c d) v cfg s = create_Run api invalidator v cfg s"
| "run_command api invalidator (ScaleCmd a b) v cfg s = scale_RunE api invalidator v cfg s"
| "run_command api invalidator (DeleteCmd a) v cfg s = delete_RunE api v cfg s"

definition main_process ::
  "'w os_api \<Rightarrow> bool \<Rightarrow> root_flags \<Rightarrow> Command \<Rightarrow> RuntimeConfig \<Rightarrow> 'w ops_state \<Rightarrow> 'w ops_state proc \<times> go_err" where
  "main_process api invalidator rf cmd cfg s =
     (let v = parse_command cmd (parse_root rf package_init)
      in run_command api invalidator cmd v (PersistentPreRun v cfg) s)"

lemma initial_vars:
  "cv_clusterName (parse_root rf package_init) = []" "cv_additionalShards (parse_root rf package_init) = 1"
  by (simp_all add: parse_root_def package_init_def scale_init_def)

lemma PreRun_command:
  "PersistentPreRun (v\<lparr>cv_clusterName := x\<rparr>) cfg = PersistentPreRun v cfg"
  "PersistentPreRun (v\<lparr>cv_additionalShards := k\<rparr>) cfg = PersistentPreRun v cfg"
  by (simp_all add: PersistentPreRun_def)

section \<open>Properties\<close>

definition no_root_flags :: root_flags where
  "no_root_flags = \<lparr>rf_backend = None, rf_containerdSocket = None, rf_db = None\<rparr>"


text \<open>
  the result of a command, which is the status of the process. \<open>scale\<close> and \<open>delete\<close> refuse an empty name before they touch
  anything and otherwise report the error of their action; \<open>create\<close> reports no error whatever its action returned.
\<close>

theorem command_results:
  "snd (main_process api iv rf (CreateCmd a b c d) cfg s) = None
    \<and> main_process api iv rf (ScaleCmd a None) cfg s = (Running s, Some (Errorf ''please input clustername first''))
    \<and> main_process api iv rf (DeleteCmd None) cfg s = (Running s, Some (Errorf ''please input clustername first''))
    \<and> (snd (main_process api iv rf (ScaleCmd a (Some (x # name))) cfg s) = None
        \<longleftrightarrow> snd (ScaleClusterAction api (PersistentPreRun (parse_root rf package_init) cfg) iv (given a 1) (x # name) s) = None)
    \<and> main_process api iv rf (DeleteCmd (Some (x # name))) cfg s
        = DeleteAllContainers api (PersistentPreRun (parse_root rf package_init) cfg) (x # name) s"
  by (simp add: main_process_def create_Run_def scale_RunE_def delete_RunE_def initial_vars PreRun_command Let_def
      given_def [of None] given_def [of "Some _"] split: prod.splits)

end
