(* ===== verification/Spec2Isabelle.thy ===== *)
theory Spec2Isabelle
  imports Node_Data Store Cache_Store Hot_Key Single_Flight Ops Cache_Run Containerd Commands
begin

text \<open>
  \<^bold>\<open>The program.\<close> The repository manages Redis clusters in containers and has a distributed cache beside them.

  The cluster side (\<^verbatim>\<open>cluster/\<close>): a command (\<^verbatim>\<open>cmd\<close>) calls an operation (\<^verbatim>\<open>ops\<close>) that creates, scales or deletes a
  cluster. An operation is a pipeline of named steps (\<^verbatim>\<open>pipeline\<close>) with retries, rollback and saved progress. Its
  steps drive the cluster manager (\<^verbatim>\<open>model/manager.go\<close>), which starts containers through a backend (\<^verbatim>\<open>backend\<close>), joins
  the Redis nodes, reads their topology (\<^verbatim>\<open>data/parse.go\<close>), assigns roles and slots, and migrates slots to new masters.
  Clusters, containers, a log and the progress of pipelines are rows of a database (\<^verbatim>\<open>data/store\<close>).

  The cache side (\<^verbatim>\<open>cache/\<close>): a node holds groups of keys (\<^verbatim>\<open>geecache.go\<close>). A read looks in the local LRU store
  (\<^verbatim>\<open>cache.go\<close>, \<^verbatim>\<open>lru\<close>), asks the nodes that a hash ring names for the key (\<^verbatim>\<open>consistenthash\<close>, \<^verbatim>\<open>peer/registry.go\<close>) and
  falls back on the data source. Nodes push copies to each other, count hot keys (\<^verbatim>\<open>hotkey.go\<close>) and drop entries when a
  key is deleted or slots have moved (\<^verbatim>\<open>invalidator.go\<close>). The two sides meet in the interface \<^verbatim>\<open>CacheInvalidator\<close>.

  \<^bold>\<open>The theories.\<close> Definitions keep the names of the code; a record field has the name of the struct field
  behind a short prefix. Where a method name occurs in several packages it has a prefix for its type.

  \<^item> \<^verbatim>\<open>Prelude\<close>: Go errors with their wrapping, results, association-list maps, shared list lemmas.
    \<^verbatim>\<open>Go_Strings\<close>, \<^verbatim>\<open>Go_Paths\<close>: the functions of \<^verbatim>\<open>strings\<close>, \<^verbatim>\<open>strconv\<close> and \<^verbatim>\<open>filepath\<close> that the code calls.
  \<^item> \<^verbatim>\<open>Node_Data\<close> (\<^verbatim>\<open>cluster/data\<close>, \<^verbatim>\<open>cluster/utils\<close>): the node records and the parser of \<^verbatim>\<open>CLUSTER NODES\<close>. Parsing what Redis prints
    gives the nodes back; the slot fields of a running migration and the flag \<^verbatim>\<open>nofailover\<close> are misread.
  \<^item> \<^verbatim>\<open>Runtime_Config\<close> (\<^verbatim>\<open>cluster/config/config.go\<close>): files, environment, defaults, paths. A configuration that was
    read is complete.
  \<^item> \<^verbatim>\<open>Pipeline\<close> (\<^verbatim>\<open>cluster/pipeline\<close>): the state is a type variable, steps are functions on it. A failed run undoes what
    it did, in reverse; when a step succeeds within its retries; what an error is. The locale \<^verbatim>\<open>step_store\<close> is the contract of a persister.
  \<^item> \<^verbatim>\<open>Store\<close> (\<^verbatim>\<open>cluster/data/store/store.go\<close>): tables as lists of rows, every statement may fail. Keys stay
    unique, rows can be read back, a deletion touches one cluster, and a restarted pipeline resumes where the
    last one stopped (interpretation of \<^verbatim>\<open>step_store\<close>).
  \<^item> \<^verbatim>\<open>Node_Manager\<close>, \<^verbatim>\<open>Podman\<close>, \<^verbatim>\<open>Containerd\<close> (\<^verbatim>\<open>cluster/backend\<close>): the tracked nodes with their indexes and the two backends. A
    successful creation tracks exactly the requested nodes; the wait for a container ends.
  \<^item> \<^verbatim>\<open>Cluster_Topology\<close>, \<^verbatim>\<open>Cluster_Bootstrap\<close>, \<^verbatim>\<open>Slot_Migration\<close> (\<^verbatim>\<open>cluster/model/manager.go\<close> in three parts): the shared node
    pointers are addresses in a store. The invariant of the topology holds after every refresh; roles give every
    master its share of slaves; the slot shares partition the 16384 slots; a plan moves only slots of their owners; the worker
    pool, a step relation, executes exactly the plan under every schedule.
  \<^item> \<^verbatim>\<open>Ops\<close> (\<^verbatim>\<open>cluster/ops\<close>): the three operations as pipelines on the database and the manager. A cluster that
    exists is not created again, a failed creation removes its containers, a deletion removes the rows; and where
    resuming, scaling and deleting twice go wrong.
  \<^item> \<^verbatim>\<open>LRU\<close>, \<^verbatim>\<open>Cache_Store\<close> (\<^verbatim>\<open>cache/lru\<close>, \<^verbatim>\<open>cache/cache.go\<close>, \<^verbatim>\<open>byteView.go\<close>): list and map of the code refine a recency list that evicts the
    least recent entries and stays in its limit (locale \<^verbatim>\<open>bounded_cache\<close>); a read gives the last value written,
    or nothing.
  \<^item> \<^verbatim>\<open>Consistent_Hash\<close>, \<^verbatim>\<open>Peer_TLS\<close>, \<^verbatim>\<open>Registry\<close> (\<^verbatim>\<open>cache/consistenthash\<close>, \<^verbatim>\<open>cache/peer\<close>): the ring with CRC-32 on 32-bit words. The
    owner is the next point clockwise, a change of membership moves only the keys it must (locale \<^verbatim>\<open>placement\<close>), and the registry
    routes to the members that the events leave.
  \<^item> \<^verbatim>\<open>Single_Flight\<close> (\<^verbatim>\<open>cache/singleflight\<close>): goroutines as a step relation; no deadlock, but no merging of calls either.
  \<^item> \<^verbatim>\<open>Hot_Key\<close> (\<^verbatim>\<open>cache/hotkey.go\<close>): when a key becomes hot, and what pruning keeps.
  \<^item> \<^verbatim>\<open>Group_Cache\<close> (\<^verbatim>\<open>cache/geecache.go\<close>, \<^verbatim>\<open>invalidator.go\<close>, \<^verbatim>\<open>ratelimit.go\<close>, \<^verbatim>\<open>redis_getter.go\<close>, \<^verbatim>\<open>http.go\<close>, \<^verbatim>\<open>peer/grpc_client.go\<close>,
    \<^verbatim>\<open>peer/grpc_server.go\<close>, \<^verbatim>\<open>cluster/proto/cache_grpc.go\<close>): a group against an interface record for everything around it. The
    locale \<^verbatim>\<open>cache_node\<close> states the laws of that interface, \<^verbatim>\<open>safe_node\<close> adds that calls keep an invariant.
  \<^item> \<^verbatim>\<open>Cache_Network\<close>: both locales interpreted by the nodes of a network that call each other. Every
    value served comes from a data source, whatever fails; deletion and pushes arrive; with one copy per key reads return, and two
    nodes that both miss a key do not answer each other.
  \<^item> \<^verbatim>\<open>Cache_Run\<close> (\<^verbatim>\<open>cache/conf\<close>, \<^verbatim>\<open>init.go\<close>, \<^verbatim>\<open>starter.go\<close>, \<^verbatim>\<open>run.go\<close>, \<^verbatim>\<open>cluster/cmd/cache.go\<close>): an accepted configuration is valid, and starting a
    node from it is a run of the network.
  \<^item> \<^verbatim>\<open>Commands\<close> (\<^verbatim>\<open>cluster/cmd\<close>, \<^verbatim>\<open>main.go\<close>): the flag variables, what the commands do without flags, and the result of the process.
  \<^item> This theory: the migration of slots and the cache together.

  \<^bold>\<open>Conventions.\<close> A Go error is \<^typ>\<open>go_error option\<close>, a panic is the error \<^verbatim>\<open>Panic\<close>. Code outside the repository (Redis, podman,
  containerd, SQLite, the gossip and gRPC libraries, files, clocks) is a function argument or a record of
  functions on an external state, and its outcomes are arbitrary unless a hypothesis says otherwise. Integers are \<^typ>\<open>int\<close> where
  the code cannot reach the bounds of their width; ports and hashes are kept at their width.

  \<^bold>\<open>Loops and bounds.\<close> Loops that may not end (eviction in the LRU cache, the wait for a container) are partial
  functions whose value is \<^const>\<open>None\<close> then, and termination is proved where it holds. Polling loops have the bound of the code. The only
  fuel is the depth \<open>n\<close> of calls that are nested in each other in \<^const>\<open>net_Get\<close>: a depth of one is enough with
  one copy per key (\<open>one_copy_returns\<close>), and no depth is enough for the nodes of \<open>mutual_miss_unanswered\<close>. The safety properties hold for every depth.

  \<^bold>\<open>Concurrency.\<close> An operation that holds its lock throughout is one step. The goroutines of \<^verbatim>\<open>Do\<close> and of the
  migration workers are step relations at the granularity of the code's locks and channel. In the network one
  operation of a node with the calls it makes is one step; the goroutines it starts run later, in any order.

  \<^bold>\<open>Not modelled.\<close> The code generated by protoc (\<^verbatim>\<open>cache.pb.go\<close>, \<^verbatim>\<open>rediscluster.pb.go\<close>, \<^verbatim>\<open>rediscluster_grpc.pb.go\<close>) and the Python agent, which is
  a client of a service that the Go code does not serve. The serving loops of HTTP and gRPC and signal handling, which
  are library calls. Log output, progress reports and help texts, which no code reads. Accessors that only ask a library: \<^verbatim>\<open>PeerCount\<close>,
  \<^verbatim>\<open>Healthy\<close>, and \<^verbatim>\<open>Addr\<close> and \<^verbatim>\<open>Close\<close> of the Redis getter. The files \<^verbatim>\<open>cache/peer.go\<close>, \<^verbatim>\<open>cache/peer/peer.go\<close> and
  \<^verbatim>\<open>cluster/model/interfaces.go\<close> declare interfaces only. Overlap of two node operations in time is not modelled beyond
  nested calls and goroutines.
\<close>

section \<open>Slot migration and the cache\<close>

text \<open>
  The manager knows the cache through the interface \<^verbatim>\<open>CacheInvalidator\<close>; \<^verbatim>\<open>SlotInvalidator\<close> implements it. Here the external
  state of the manager is the network of cache nodes.
\<close>

lemma slot_bounds_order: "tasks \<noteq> [] \<Longrightarrow> fst (slot_bounds tasks) \<le> snd (slot_bounds tasks)"
proof -
  assume t: "tasks \<noteq> []"
  have "insert (st_slot (hd tasks)) (st_slot ` set tasks) = st_slot ` set tasks" using t by auto
  then show ?thesis unfolding slot_bounds_def bounds_fold using t by simp
qed


definition attached_redis :: "network redis_api" where
  "attached_redis = \<lparr>ra_podman = \<lparr>pa_exec = (\<lambda>xs w. (w, Inr [])), pa_mkdir = (\<lambda>p w. (w, None)), pa_ctx = (\<lambda>w. None),
       pa_now = nw_now, pa_sleep = (\<lambda>d w. w)\<rparr>,
     ra_ClusterNodes = (\<lambda>cli w. (w, Inr [])), ra_ClusterMeet = (\<lambda>cli h p w. (w, None)),
     ra_ClusterReplicate = (\<lambda>cli i w. (w, None)), ra_ClusterAddSlots = (\<lambda>cli xs w. (w, None)),
     ra_ClusterForget = (\<lambda>cli i w. (w, None)), ra_ClusterGetKeysInSlot = (\<lambda>cli s k w. (w, [])),
     ra_MemoryUsage = (\<lambda>cli k w. (w, Inr 0)), ra_Exists = (\<lambda>cli k w. (w, Inr 0)), ra_Del = (\<lambda>cli k w. (w, None)),
     ra_Do = (\<lambda>cli xs w. (w, Inr [])),
     ra_InvalidateSlots = InvalidateSlots (node scores_db 0 ''A'') (NewSlotInvalidator [''scores'']),
     ra_sleep = (\<lambda>d w. w), ra_range = (\<lambda>ks w. ks)\<rparr>"


end
